theory Spec2Isabelle
  imports Main "HOL-Library.Word"
begin

unbundle bit_operations_syntax

section \<open>The compiler of src/wasmjit/compile.c\<close>

text \<open>
  A shallow embedding of \<^verbatim>\<open>wasmjit_compile_function\<close> and of the functions it calls.
  The conventions of the embedding:
  \<^item> \<^verbatim>\<open>size_t\<close> counters and vector lengths are natural numbers; 32-bit and 64-bit
    quantities whose wrap-around the code relies on are words;
  \<^item> the vectors (\<^verbatim>\<open>SizedBuffer\<close>, \<^verbatim>\<open>StaticStack\<close>, \<^verbatim>\<open>LabelContinuations\<close>,
    \<^verbatim>\<open>BranchPoints\<close>, \<^verbatim>\<open>MemoryReferences\<close>) are lists in index order, so the top of the
    static stack is the last element; growing a vector never fails (no allocation failure);
  \<^item> every function returns an option: \<open>None\<close> stands for every way in which the C function
    gives no result: \<^verbatim>\<open>return 0\<close> after \<^verbatim>\<open>goto error\<close>, a failed \<^verbatim>\<open>assert\<close> (assertions
    are compiled in, so the \<^verbatim>\<open>assert(0)\<close> under the \<^verbatim>\<open>error:\<close> label aborts), and a read or
    write outside a vector (undefined behaviour in C).
\<close>

subsection \<open>Bytes and C string literals\<close>

type_synonym byte = "8 word"

text \<open>\<^verbatim>\<open>strlen\<close>: the bytes of a string literal up to its first NUL byte.\<close>

definition cstr :: "byte list \<Rightarrow> byte list" where
  "cstr s = takeWhile (\<lambda>b. b \<noteq> 0) s"

text \<open>
  \<^verbatim>\<open>encode_le_uint32_t\<close> and \<^verbatim>\<open>encode_le_uint64_t\<close>. Their helpers
  (\<^verbatim>\<open>uint32_t_swap_bytes\<close> of util.h) are not part of the sources at hand; the functions are
  taken to do what their names say: store the value least significant byte first.
\<close>

definition encode_le_uint32_t :: "32 word \<Rightarrow> byte list" where
  "encode_le_uint32_t v =
     [ucast v, ucast (drop_bit 8 v), ucast (drop_bit 16 v), ucast (drop_bit 24 v)]"

definition encode_le_uint64_t :: "64 word \<Rightarrow> byte list" where
  "encode_le_uint64_t v =
     [ucast v, ucast (drop_bit 8 v), ucast (drop_bit 16 v), ucast (drop_bit 24 v),
      ucast (drop_bit 32 v), ucast (drop_bit 40 v), ucast (drop_bit 48 v), ucast (drop_bit 56 v)]"

subsection \<open>Data model\<close>

datatype valtype = VALTYPE_I32 | VALTYPE_I64 | VALTYPE_F32 | VALTYPE_F64

text \<open>
  \<^verbatim>\<open>struct StackElt\<close>: a value slot (\<^verbatim>\<open>STACK_I32\<close> .. \<^verbatim>\<open>STACK_F64\<close>, the same numbers as
  the value types) or \<^verbatim>\<open>STACK_LABEL\<close> with its arity and continuation index.
\<close>

datatype StackElt = STACK_VALUE valtype | STACK_LABEL nat nat

record BranchPointElt =
  branch_offset :: nat
  continuation_idx :: nat

datatype memref_type =
  MEMREF_FUNC | MEMREF_GLOBAL | MEMREF_MEM | MEMREF_TABLE | MEMREF_TYPE
  | MEMREF_RESOLVE_INDIRECT_CALL

text \<open>
  One element of \<^verbatim>\<open>struct MemoryReferences\<close>. The field \<open>idx\<close> is \<open>None\<close> where the compiler
  leaves it unwritten (the reference to the indirect-call helper).
\<close>

record MemoryReference =
  mr_type :: memref_type
  code_offset :: nat
  idx :: "nat option"

record FuncType =
  input_types :: "valtype list"
  output_types :: "valtype list"

text \<open>\<^verbatim>\<open>#define FUNC_EXIT_CONT SIZE_MAX\<close>, with a 64-bit \<^verbatim>\<open>size_t\<close>.\<close>

definition FUNC_EXIT_CONT :: nat where
  "FUNC_EXIT_CONT = 2 ^ 64 - 1"

definition INT32_MAX :: nat where
  "INT32_MAX = 2 ^ 31 - 1"

record LocalsMD =
  valtype :: valtype
  fp_offset :: int

text \<open>
  The instruction tree. One constructor for each \<^verbatim>\<open>case\<close> group of the switch in
  \<^verbatim>\<open>wasmjit_compile_instruction\<close>; a group of opcodes that share their code carries the
  opcode as a value of a small enumeration. \<open>UNHANDLED\<close> is every opcode that the switch
  sends to \<^verbatim>\<open>default\<close>. A block type is \<open>None\<close> for \<^verbatim>\<open>VALTYPE_NULL\<close>. An f64 constant is
  its IEEE-754 bit pattern, which is all the compiler uses of it.
\<close>

datatype load_store_op =
  OPCODE_I32_LOAD | OPCODE_I64_LOAD | OPCODE_F64_LOAD | OPCODE_I32_LOAD8_S
  | OPCODE_I32_STORE | OPCODE_I64_STORE | OPCODE_F64_STORE | OPCODE_I32_STORE8
  | OPCODE_I32_STORE16

datatype cmp_op =
  OPCODE_I32_EQ | OPCODE_I32_NE | OPCODE_I32_LT_S | OPCODE_I32_LT_U | OPCODE_I32_GT_S
  | OPCODE_I32_GT_U | OPCODE_I32_LE_S | OPCODE_I32_LE_U | OPCODE_I32_GE_S
  | OPCODE_I64_EQ | OPCODE_I64_NE | OPCODE_I64_LT_S | OPCODE_I64_GT_U

datatype fcmp_op = OPCODE_F64_EQ | OPCODE_F64_NE

datatype arith_op =
  OPCODE_I32_SUB | OPCODE_I32_ADD | OPCODE_I32_MUL | OPCODE_I32_AND | OPCODE_I32_OR
  | OPCODE_I32_XOR | OPCODE_I64_ADD | OPCODE_I64_SUB | OPCODE_I64_MUL | OPCODE_I64_AND
  | OPCODE_I64_OR

datatype div_op =
  OPCODE_I32_DIV_S | OPCODE_I32_DIV_U | OPCODE_I32_REM_S | OPCODE_I32_REM_U
  | OPCODE_I64_DIV_S | OPCODE_I64_DIV_U | OPCODE_I64_REM_S | OPCODE_I64_REM_U

datatype shift_op =
  OPCODE_I32_SHL | OPCODE_I32_SHR_S | OPCODE_I32_SHR_U
  | OPCODE_I64_SHL | OPCODE_I64_SHR_S | OPCODE_I64_SHR_U

datatype farith_op = OPCODE_F64_ADD | OPCODE_F64_SUB | OPCODE_F64_MUL

datatype trunc_op = OPCODE_I32_TRUNC_U_F64 | OPCODE_I32_TRUNC_S_F64

datatype convert_op = OPCODE_F64_CONVERT_S_I32 | OPCODE_F64_CONVERT_U_I32

datatype Instr =
  OPCODE_UNREACHABLE
  | OPCODE_NOP
  | OPCODE_BLOCK "valtype option" "Instr list"
  | OPCODE_LOOP "valtype option" "Instr list"
  | OPCODE_IF "valtype option" "Instr list" "Instr list"
  | OPCODE_BR "32 word"
  | OPCODE_BR_IF "32 word"
  | OPCODE_BR_TABLE "32 word list" "32 word"
  | OPCODE_RETURN
  | OPCODE_CALL nat
  | OPCODE_CALL_INDIRECT nat
  | OPCODE_DROP
  | OPCODE_GET_LOCAL nat
  | OPCODE_SET_LOCAL nat
  | OPCODE_TEE_LOCAL nat
  | OPCODE_GET_GLOBAL nat
  | OPCODE_SET_GLOBAL nat
  | LOAD_STORE load_store_op "32 word"
  | OPCODE_I32_CONST "32 word"
  | OPCODE_I64_CONST "64 word"
  | OPCODE_F64_CONST "64 word"
  | OPCODE_I32_EQZ
  | CMP cmp_op
  | FCMP fcmp_op
  | ARITH arith_op
  | DIVREM div_op
  | SHIFT shift_op
  | OPCODE_F64_NEG
  | FARITH farith_op
  | OPCODE_I32_WRAP_I64
  | I32_TRUNC_F64 trunc_op
  | OPCODE_I64_EXTEND_S_I32
  | OPCODE_I64_EXTEND_U_I32
  | F64_CONVERT_I32 convert_op
  | OPCODE_I64_REINTERPRET_F64
  | OPCODE_F64_REINTERPRET_I64
  | UNHANDLED nat

text \<open>
  The tables state of one call of \<^verbatim>\<open>wasmjit_compile_function\<close>: the output buffer, the label
  continuations, the branch points, the memory references and the static stack.
\<close>

record cstate =
  outputv :: "byte list"
  labels :: "nat list"
  branches :: "BranchPointElt list"
  memrefs :: "MemoryReference list"
  sstack :: "StackElt list"

text \<open>
  What the compiler reads and never writes: the type tables, the type of the function, the
  locals metadata and the frame size. The byte offsets of the runtime structures
  (\<^verbatim>\<open>offsetof\<close> into \<^verbatim>\<open>struct FuncInst\<close>, \<^verbatim>\<open>struct MemInst\<close> and \<^verbatim>\<open>struct GlobalInst\<close> of
  runtime.h, which is not among the sources at hand) are parameters.
\<close>

record cenv =
  func_types :: "FuncType list"
  functypes :: "FuncType list"
  globaltypes :: "valtype list"
  ftype :: FuncType
  locals_md :: "LocalsMD list"
  n_locals :: nat
  n_frame_locals :: nat
  off_compiled_code :: int
  off_mem_size :: int
  off_mem_data :: int
  off_global_i32 :: int
  off_global_i64 :: int
  off_global_f32 :: int
  off_global_f64 :: int

subsection \<open>Output and static-stack primitives\<close>

text \<open>A compile step: it returns the updated tables, or \<open>None\<close>.\<close>

type_synonym cstep = "cstate \<Rightarrow> cstate option"

primrec seq :: "cstep list \<Rightarrow> cstep" where
  "seq [] st = Some st"
| "seq (f # fs) st = (case f st of None \<Rightarrow> None | Some st' \<Rightarrow> seq fs st')"

definition when_c :: "bool \<Rightarrow> cstep \<Rightarrow> cstep" where
  "when_c c f st = (if c then f st else Some st)"

text \<open>\<^verbatim>\<open>assert(c)\<close>, and \<^verbatim>\<open>if (!c) goto error\<close>: no result where \<open>c\<close> fails.\<close>

definition c_assert :: "bool \<Rightarrow> cstep" where
  "c_assert c st = (if c then Some st else None)"

text \<open>\<^verbatim>\<open>output_buf(output, buf, n)\<close>: append \<open>n\<close> bytes.\<close>

definition output_buf :: "byte list \<Rightarrow> cstep" where
  "output_buf bs st = Some (st\<lparr>outputv := outputv st @ bs\<rparr>)"

text \<open>\<^verbatim>\<open>OUTS(str)\<close> is \<^verbatim>\<open>output_buf(output, str, strlen(str))\<close>.\<close>

definition OUTS :: "byte list \<Rightarrow> cstep" where
  "OUTS s = output_buf (cstr s)"

text \<open>\<^verbatim>\<open>OUTB(b)\<close>: asserts that \<open>b\<close> fits a signed char and appends it.\<close>

definition OUTB :: "int \<Rightarrow> cstep" where
  "OUTB b st = (if b \<le> 127 \<and> - 128 \<le> b then output_buf [word_of_int b] st else None)"

text \<open>\<^verbatim>\<open>encode_le_uint32_t(v, buf)\<close> followed by \<^verbatim>\<open>output_buf(output, buf, 4)\<close>.\<close>

definition OUT32 :: "32 word \<Rightarrow> cstep" where
  "OUT32 v = output_buf (encode_le_uint32_t v)"

definition OUT64 :: "64 word \<Rightarrow> cstep" where
  "OUT64 v = output_buf (encode_le_uint64_t v)"

text \<open>
  \<^verbatim>\<open>encode_le_uint32_t(v, &output->elts[pos])\<close>: overwrite four bytes of the output in
  place. Outside the buffer the C code writes out of bounds.
\<close>

definition patch_bytes :: "nat \<Rightarrow> byte list \<Rightarrow> byte list \<Rightarrow> byte list" where
  "patch_bytes pos bs buf = take pos buf @ bs @ drop (pos + length bs) buf"

definition patch :: "int \<Rightarrow> byte list \<Rightarrow> cstep" where
  "patch pos bs st =
     (if 0 \<le> pos \<and> nat pos + length bs \<le> length (outputv st)
      then Some (st\<lparr>outputv := patch_bytes (nat pos) bs (outputv st)\<rparr>) else None)"

definition push_stack :: "valtype \<Rightarrow> cstep" where
  "push_stack t st = Some (st\<lparr>sstack := sstack st @ [STACK_VALUE t]\<rparr>)"

text \<open>\<^verbatim>\<open>assert(peek_stack(sstack) == t)\<close>; \<^verbatim>\<open>peek_stack\<close> itself asserts a non-empty stack.\<close>

definition assert_peek :: "valtype \<Rightarrow> cstep" where
  "assert_peek t st =
     (if sstack st \<noteq> [] \<and> last (sstack st) = STACK_VALUE t then Some st else None)"

definition pop_stack :: cstep where
  "pop_stack st = (if sstack st \<noteq> [] then Some (st\<lparr>sstack := butlast (sstack st)\<rparr>) else None)"

text \<open>
  \<^verbatim>\<open>stack_truncate(sstack, n)\<close> (vector.h is not among the sources at hand): the vector is
  cut to its first \<open>n\<close> elements; it cannot be cut to more than it holds.
\<close>

definition stack_truncate :: "nat \<Rightarrow> cstep" where
  "stack_truncate n st =
     (if n \<le> length (sstack st) then Some (st\<lparr>sstack := take n (sstack st)\<rparr>) else None)"

text \<open>
  \<^verbatim>\<open>memrefs_grow(memrefs, 1)\<close> and the assignments to the new element; \<open>off\<close> maps the
  current output length to the recorded code offset.
\<close>

definition add_memref :: "memref_type \<Rightarrow> (nat \<Rightarrow> nat) \<Rightarrow> nat option \<Rightarrow> cstep" where
  "add_memref t off i st =
     Some (st\<lparr>memrefs := memrefs st @
        [\<lparr>mr_type = t, code_offset = off (length (outputv st)), idx = i\<rparr>]\<rparr>)"

text \<open>\<^verbatim>\<open>bp_grow(branches, 1)\<close> and the assignments to the new element.\<close>

definition add_branch :: "nat \<Rightarrow> nat \<Rightarrow> cstep" where
  "add_branch bo ci st =
     Some (st\<lparr>branches := branches st @ [\<lparr>branch_offset = bo, continuation_idx = ci\<rparr>]\<rparr>)"

subsection \<open>\<^verbatim>\<open>emit_br_code\<close>\<close>

text \<open>
  The loop that walks the static stack downwards from \<open>j\<close>, counting labels:
  \<^verbatim>\<open>while (j) { j -= 1; if (elts[j].type == STACK_LABEL) { if (!labelidx) break; labelidx--; } }\<close>.
  It ends at index 0 when there are not enough labels.
\<close>

fun find_label :: "StackElt list \<Rightarrow> nat \<Rightarrow> nat \<Rightarrow> nat" where
  "find_label elts 0 labelidx = 0"
| "find_label elts (Suc j) labelidx =
     (case elts ! j of
        STACK_LABEL a c \<Rightarrow> if labelidx = 0 then j else find_label elts j (labelidx - 1)
      | STACK_VALUE t \<Rightarrow> find_label elts j labelidx)"

text \<open>
  The code that \<^verbatim>\<open>emit_br_code\<close> emits once it knows the arity and the continuation of the
  label and \<^verbatim>\<open>stack_shift\<close>: the move of the results, the adjustment of \<^verbatim>\<open>%rsp\<close>, the jump
  and its branch point. The sums that the code computes with \<^verbatim>\<open>__builtin_mul_overflow\<close>
  and \<^verbatim>\<open>__builtin_add_overflow\<close> into an \<^verbatim>\<open>int32_t\<close> must fit it.
\<close>

definition br_code :: "nat \<Rightarrow> nat \<Rightarrow> nat \<Rightarrow> cstep" where
  "br_code arity stack_shift cont =
     seq [
       when_c (arity \<noteq> 0) (seq [
         c_assert ((arity - 1) * 8 \<le> INT32_MAX),
         OUTS [0x48, 0x89, 0xe6],
         when_c (arity - 1 \<noteq> 0) (seq [
           OUTS [0x48, 0x03, 0x34, 0x25],
           OUT32 (of_nat ((arity - 1) * 8))]),
         OUTS [0x48, 0x89, 0xe7],
         when_c (arity - 1 + stack_shift \<noteq> 0) (seq [
           c_assert ((arity - 1) * 8 + stack_shift \<le> INT32_MAX),
           OUTS [0x48, 0x81, 0xc7],
           OUT32 (of_nat ((arity - 1) * 8 + stack_shift))]),
         OUTS [0x48, 0xc7, 0xc1],
         c_assert (arity \<le> INT32_MAX),
         OUT32 (of_nat arity),
         OUTS [0xfd],
         OUTS [0x48, 0xa5]]),
       when_c (stack_shift \<noteq> 0) (seq [
         OUTS [0x48, 0x81, 0xc4],
         OUT32 (of_nat stack_shift)]),
       (\<lambda>st1. seq [
         OUTS [0xe9, 0x90, 0x90, 0x90, 0x90],
         add_branch (length (outputv st1)) cont] st1)]"

text \<open>
  \<^verbatim>\<open>emit_br_code(output, sstack, branches, labelidx)\<close>. Reading the label data of the slot
  \<open>j\<close> is undefined where the stack is empty or the slot is a value slot (no result).
  \<open>olabelidx + 1\<close> is 32-bit unsigned arithmetic; \<^verbatim>\<open>stack_shift\<close>, eight times
  \<^verbatim>\<open>n_elts - j - (olabelidx + 1) - arity\<close>, must fit an \<^verbatim>\<open>int32_t\<close>.
\<close>

definition emit_br_code :: "32 word \<Rightarrow> cstep" where
  "emit_br_code labelidx st =
     (let n = length (sstack st);
          j = find_label (sstack st) n (unat labelidx)
      in if \<not> j < n then None
         else case sstack st ! j of
           STACK_VALUE t \<Rightarrow> None
         | STACK_LABEL arity cont \<Rightarrow>
             if \<not> j + unat (labelidx + 1) + arity \<le> n then None
             else if \<not> (n - j - unat (labelidx + 1) - arity) * 8 \<le> INT32_MAX then None
             else br_code arity ((n - j - unat (labelidx + 1) - arity) * 8) cont st)"

subsection \<open>Instructions without nested instruction lists\<close>

text \<open>The ten bytes \<^verbatim>\<open>"\x48\xb8\x90\x90\x90\x90\x90\x90\x90\x90"\<close> and its siblings.\<close>

definition movabs :: "byte \<Rightarrow> byte list" where
  "movabs r = [0x48, r, 0x90, 0x90, 0x90, 0x90, 0x90, 0x90, 0x90, 0x90]"

definition is_store :: "load_store_op \<Rightarrow> bool" where
  "is_store op = (op = OPCODE_I32_STORE \<or> op = OPCODE_I64_STORE \<or> op = OPCODE_F64_STORE
     \<or> op = OPCODE_I32_STORE8 \<or> op = OPCODE_I32_STORE16)"

text \<open>The type that a store asserts on top of the static stack.\<close>

definition store_type :: "load_store_op \<Rightarrow> valtype" where
  "store_type op = (if op = OPCODE_I64_STORE then VALTYPE_I64
     else if op = OPCODE_F64_STORE then VALTYPE_F64 else VALTYPE_I32)"

text \<open>The second switch of the load/store case: the access itself and the static stack.\<close>

definition load_store_access :: "load_store_op \<Rightarrow> cstep" where
  "load_store_access op =
     (case op of
        OPCODE_I32_LOAD8_S \<Rightarrow>
          seq [OUTS [0x0f, 0xbe, 0x44, 0x30, 0xfc], OUTS [0x50], push_stack VALTYPE_I32]
      | OPCODE_I32_LOAD \<Rightarrow>
          seq [OUTS [0x8b, 0x44, 0x30, 0xfc], OUTS [0x50], push_stack VALTYPE_I32]
      | OPCODE_I64_LOAD \<Rightarrow>
          seq [OUTS [0x48, 0x8b, 0x44, 0x30, 0xfc], OUTS [0x50], push_stack VALTYPE_I64]
      | OPCODE_F64_LOAD \<Rightarrow>
          seq [OUTS [0x48, 0x8b, 0x44, 0x30, 0xfc], OUTS [0x50], push_stack VALTYPE_F64]
      | OPCODE_I32_STORE \<Rightarrow> OUTS [0x89, 0x7c, 0x30, 0xfc]
      | OPCODE_I32_STORE8 \<Rightarrow> OUTS [0x40, 0x88, 0x7c, 0x30, 0xfc]
      | OPCODE_I32_STORE16 \<Rightarrow> OUTS [0x66, 0x89, 0x7c, 0x30, 0xfc]
      | OPCODE_I64_STORE \<Rightarrow> OUTS [0x48, 0x89, 0x7c, 0x30, 0xfc]
      | OPCODE_F64_STORE \<Rightarrow> OUTS [0x48, 0x89, 0x7c, 0x30, 0xfc])"

text \<open>
  The load/store case. \<^verbatim>\<open>4 + extra->offset\<close> is 32-bit unsigned arithmetic. Both memory
  references are appended with \<^verbatim>\<open>idx = 0\<close>.
\<close>

definition compile_load_store :: "cenv \<Rightarrow> load_store_op \<Rightarrow> 32 word \<Rightarrow> cstep" where
  "compile_load_store env op offset =
     seq [
       when_c (is_store op) (seq [assert_peek (store_type op), pop_stack, OUTS [0x5f]]),
       assert_peek VALTYPE_I32,
       pop_stack,
       OUTS [0x5e],
       when_c (4 + offset \<noteq> 0) (seq [OUTS [0x48, 0x81, 0xc6], OUT32 (4 + offset)]),
       OUTS (movabs 0xb8),
       add_memref MEMREF_MEM (\<lambda>n. n - 8) (Some 0),
       OUTS [0x48, 0x8b, 0x40],
       OUTB (off_mem_size env),
       OUTS [0x48, 0x39, 0xc6],
       OUTS [0x7e, 0x02, 0xcd, 0x04],
       OUTS (movabs 0xb8),
       add_memref MEMREF_MEM (\<lambda>n. n - 8) (Some 0),
       OUTS [0x48, 0x8b, 0x40],
       OUTB (off_mem_data env),
       load_store_access op]"

text \<open>The return case. \<open>N\<close> is \<^verbatim>\<open>FUNC_TYPE_N_OUTPUTS(type)\<close>.\<close>

definition compile_return :: "cenv \<Rightarrow> cstep" where
  "compile_return env =
     (let N = length (output_types (ftype env)); nfl = n_frame_locals env
      in seq [
        when_c (N \<noteq> 0) (seq [
          OUTS [0x48, 0x8d, 0x74, 0x24],
          OUTB ((int N - 1) * 8),
          OUTS [0x48, 0x8d, 0xbd],
          c_assert (nfl \<noteq> 2 ^ 64 - 1),
          c_assert ((nfl + 1) * 8 \<le> 2 ^ 31),
          OUT32 (of_int (- 8 * int (nfl + 1))),
          OUTS [0x48, 0xc7, 0xc1],
          OUT32 (of_nat N),
          OUTS [0xfd],
          OUTS [0x48, 0xa5]]),
        OUTS [0x48, 0x8d, 0xa5],
        c_assert (\<not> nfl > 2 ^ 64 - 1 - N),
        c_assert ((nfl + N) * 8 \<le> 2 ^ 31),
        OUT32 (of_int (- 8 * int (nfl + N))),
        (\<lambda>st. add_branch (length (outputv st)) FUNC_EXIT_CONT st),
        OUTS [0xe9, 0x90, 0x90, 0x90, 0x90]])"

text \<open>The tables of argument moves of the call case.\<close>

definition call_movs :: "byte list list" where
  "call_movs = [[0x48, 0x8b, 0xbc, 0x24], [0x48, 0x8b, 0xb4, 0x24], [0x48, 0x8b, 0x94, 0x24],
                [0x48, 0x8b, 0x8c, 0x24], [0x4c, 0x8b, 0x84, 0x24], [0x4c, 0x8b, 0x8c, 0x24]]"

definition call_f32_movs :: "byte list list" where
  "call_f32_movs = map (\<lambda>m. [0xf3, 0x0f, 0x10, m, 0x24])
     [0x84, 0x8c, 0x94, 0x9c, 0xa4, 0xac, 0xb4, 0xbc]"

definition call_f64_movs :: "byte list list" where
  "call_f64_movs = map (\<lambda>m. [0xf2, 0x0f, 0x10, m, 0x24])
     [0x84, 0x8c, 0x94, 0x9c, 0xa4, 0xac, 0xb4, 0xbc]"

definition is_int_type :: "valtype \<Rightarrow> bool" where
  "is_int_type t = (t = VALTYPE_I32 \<or> t = VALTYPE_I64)"

text \<open>
  The first loop over the callee's inputs: the number of arguments that find no register
  (each adds one to \<^verbatim>\<open>cur_stack_depth\<close>).
\<close>

fun count_stack_args :: "valtype list \<Rightarrow> nat \<Rightarrow> nat \<Rightarrow> nat" where
  "count_stack_args [] n_movs n_xmm_movs = 0"
| "count_stack_args (t # ts) n_movs n_xmm_movs =
     (if is_int_type t \<and> n_movs < 6 then count_stack_args ts (n_movs + 1) n_xmm_movs
      else if t = VALTYPE_F32 \<and> n_xmm_movs < 8 then count_stack_args ts n_movs (n_xmm_movs + 1)
      else if t = VALTYPE_F64 \<and> n_xmm_movs < 8 then count_stack_args ts n_movs (n_xmm_movs + 1)
      else 1 + count_stack_args ts n_movs n_xmm_movs)"

text \<open>
  The second loop, from index \<open>i\<close> for \<open>k\<close> more inputs; it returns the final \<^verbatim>\<open>n_stack\<close>.
  The index into the static stack and the offset of a pushed argument are computed in
  \<^verbatim>\<open>size_t\<close>, whose wrap-around the integers here stand for.
\<close>

fun call_args ::
  "valtype list \<Rightarrow> nat \<Rightarrow> nat \<Rightarrow> nat \<Rightarrow> nat \<Rightarrow> nat \<Rightarrow> nat \<Rightarrow> cstate \<Rightarrow> (nat \<times> cstate) option"
where
  "call_args inputs aligned 0 i n_movs n_xmm_movs n_stack st = Some (n_stack, st)"
| "call_args inputs aligned (Suc k) i n_movs n_xmm_movs n_stack st =
     (let n_inputs = length inputs;
          t = inputs ! i;
          sidx = int (length (sstack st)) - int n_inputs + int i;
          stack_offset = (n_inputs - i - 1 + n_stack + aligned) * 8
      in if \<not> (0 \<le> sidx \<and> nat sidx < length (sstack st)) then None
         else if sstack st ! nat sidx \<noteq> STACK_VALUE t then None
         else if is_int_type t \<and> n_movs < 6 then
           (case seq [OUTS (call_movs ! n_movs), OUT32 (of_nat stack_offset)] st of
              None \<Rightarrow> None
            | Some st' \<Rightarrow> call_args inputs aligned k (i + 1) (n_movs + 1) n_xmm_movs n_stack st')
         else if t = VALTYPE_F32 \<and> n_xmm_movs < 8 then
           (case seq [OUTS (call_f32_movs ! n_xmm_movs), OUT32 (of_nat stack_offset)] st of
              None \<Rightarrow> None
            | Some st' \<Rightarrow> call_args inputs aligned k (i + 1) n_movs (n_xmm_movs + 1) n_stack st')
         else if t = VALTYPE_F64 \<and> n_xmm_movs < 8 then
           (case seq [OUTS (call_f64_movs ! n_xmm_movs), OUT32 (of_nat stack_offset)] st of
              None \<Rightarrow> None
            | Some st' \<Rightarrow> call_args inputs aligned k (i + 1) n_movs (n_xmm_movs + 1) n_stack st')
         else
           (case seq [OUTS [0xff, 0xb4, 0x24],
                      OUT32 (of_int ((int i - (int n_inputs - 1) + int n_stack + int aligned) * 8))]
                   st of
              None \<Rightarrow> None
            | Some st' \<Rightarrow> call_args inputs aligned k (i + 1) n_movs n_xmm_movs (n_stack + 1) st'))"

text \<open>\<^verbatim>\<open>cur_stack_depth\<close> before the arguments: the frame locals and the value slots.\<close>

definition stack_depth :: "cenv \<Rightarrow> cstate \<Rightarrow> nat" where
  "stack_depth env st =
     n_frame_locals env + length (filter (\<lambda>e. case e of STACK_LABEL a c \<Rightarrow> False | _ \<Rightarrow> True) (sstack st))"

text \<open>The part of the call case that direct and indirect calls share.\<close>

definition compile_call_common :: "FuncType \<Rightarrow> nat \<Rightarrow> cstep" where
  "compile_call_common ft cur_stack_depth st =
     (let inputs = input_types ft;
          aligned = (cur_stack_depth + count_stack_args inputs 0 0) mod 2
      in case when_c (aligned \<noteq> 0) (OUTS [0x48, 0x83, 0xec, 0x08]) st of
           None \<Rightarrow> None
         | Some st1 \<Rightarrow>
            (case call_args inputs aligned (length inputs) 0 0 0 0 st1 of
               None \<Rightarrow> None
             | Some (n_stack, st2) \<Rightarrow>
                 seq [
                   OUTS [0xff, 0xd0],
                   OUTS [0x48, 0x81, 0xc4],
                   OUT32 (of_nat ((n_stack + length inputs + aligned) * 8)),
                   (\<lambda>s. if length inputs \<le> length (sstack s)
                        then stack_truncate (length (sstack s) - length inputs) s else None),
                   when_c (output_types ft \<noteq> []) (seq [
                     c_assert (length (output_types ft) = 1),
                     when_c (hd (output_types ft) = VALTYPE_F32 \<or> hd (output_types ft) = VALTYPE_F64)
                       (OUTS [0x66, 0x48, 0x0f, 0x7e, 0xc0]),
                     OUTS [0x50],
                     push_stack (hd (output_types ft))])] st2))"

definition compile_call :: "cenv \<Rightarrow> nat \<Rightarrow> cstep" where
  "compile_call env fidx st =
     (if \<not> fidx < length (functypes env) then None
      else case seq [
               add_memref MEMREF_FUNC (\<lambda>n. n + 2) (Some fidx),
               OUTS (movabs 0xb8),
               OUTS [0x48, 0x8b, 0x40],
               OUTB (off_compiled_code env)] st of
             None \<Rightarrow> None
           | Some st1 \<Rightarrow> compile_call_common (functypes env ! fidx) (stack_depth env st) st1)"

definition compile_call_indirect :: "cenv \<Rightarrow> nat \<Rightarrow> cstep" where
  "compile_call_indirect env typeidx st =
     (let cur_stack_depth = stack_depth env st
      in if \<not> typeidx < length (func_types env) then None
      else case seq [
               assert_peek VALTYPE_I32,
               pop_stack,
               OUTS (movabs 0xbf),
               add_memref MEMREF_TABLE (\<lambda>n. n - 8) (Some 0),
               OUTS (movabs 0xbe),
               add_memref MEMREF_TYPE (\<lambda>n. n - 8) (Some typeidx),
               OUTS [0x5a],
               OUTS (movabs 0xb8),
               add_memref MEMREF_RESOLVE_INDIRECT_CALL (\<lambda>n. n - 8) None,
               when_c (cur_stack_depth mod 2 \<noteq> 0) (OUTS [0x48, 0x83, 0xec, 0x08]),
               OUTS [0xff, 0xd0],
               when_c (cur_stack_depth mod 2 \<noteq> 0) (OUTS [0x48, 0x83, 0xc4, 0x08])] st of
             None \<Rightarrow> None
           | Some st1 \<Rightarrow> compile_call_common (func_types env ! typeidx) cur_stack_depth st1)"

text \<open>Locals and globals. A read of \<^verbatim>\<open>locals_md\<close> or \<^verbatim>\<open>globaltypes\<close> past its end has no result.\<close>

definition compile_get_local :: "cenv \<Rightarrow> nat \<Rightarrow> cstep" where
  "compile_get_local env localidx =
     (if localidx < n_locals env \<and> localidx < length (locals_md env) then
        seq [push_stack (valtype (locals_md env ! localidx)),
             OUTS [0xff, 0xb5],
             OUT32 (of_int (fp_offset (locals_md env ! localidx)))]
      else (\<lambda>st. None))"

definition compile_set_local :: "cenv \<Rightarrow> nat \<Rightarrow> cstep" where
  "compile_set_local env localidx =
     (if localidx < length (locals_md env) then
        seq [assert_peek (valtype (locals_md env ! localidx)),
             OUTS [0x8f, 0x85],
             OUT32 (of_int (fp_offset (locals_md env ! localidx))),
             pop_stack]
      else (\<lambda>st. None))"

text \<open>The first string of this case is \<^verbatim>\<open>"\x48\\x85"\<close>: 0x48, a backslash and the text x85.\<close>

definition compile_tee_local :: "cenv \<Rightarrow> nat \<Rightarrow> cstep" where
  "compile_tee_local env localidx =
     (if localidx < length (locals_md env) then
        seq [assert_peek (valtype (locals_md env ! localidx)),
             OUTS [0x48, 0x5c, 0x78, 0x38, 0x35],
             OUTS [0x48, 0x89, 0x45],
             OUT32 (of_int (fp_offset (locals_md env ! localidx)))]
      else (\<lambda>st. None))"

definition global_off :: "cenv \<Rightarrow> valtype \<Rightarrow> int" where
  "global_off env t = (case t of
      VALTYPE_I32 \<Rightarrow> off_global_i32 env | VALTYPE_F32 \<Rightarrow> off_global_f32 env
    | VALTYPE_I64 \<Rightarrow> off_global_i64 env | VALTYPE_F64 \<Rightarrow> off_global_f64 env)"

definition is_32bit :: "valtype \<Rightarrow> bool" where
  "is_32bit t = (t = VALTYPE_I32 \<or> t = VALTYPE_F32)"

definition compile_get_global :: "cenv \<Rightarrow> nat \<Rightarrow> cstep" where
  "compile_get_global env gidx =
     (if gidx < length (globaltypes env) then
        (let type = globaltypes env ! gidx in
         seq [OUTS (movabs 0xb8),
              add_memref MEMREF_GLOBAL (\<lambda>n. n - 8) (Some gidx),
              OUTS (if is_32bit type then [0x8b, 0x40] else [0x48, 0x8b, 0x40]),
              OUTB (global_off env type),
              OUTS [0x50],
              push_stack type])
      else (\<lambda>st. None))"

definition compile_set_global :: "cenv \<Rightarrow> nat \<Rightarrow> cstep" where
  "compile_set_global env gidx =
     (if gidx < length (globaltypes env) then
        (let type = globaltypes env ! gidx in
         seq [OUTS [0x5a],
              assert_peek type,
              pop_stack,
              OUTS (movabs 0xb8),
              add_memref MEMREF_GLOBAL (\<lambda>n. n - 8) (Some gidx),
              OUTS (if is_32bit type then [0x89, 0x50] else [0x48, 0x89, 0x50]),
              OUTB (global_off env type)])
      else (\<lambda>st. None))"

text \<open>Comparisons of integers.\<close>

definition cmp_is_64 :: "cmp_op \<Rightarrow> bool" where
  "cmp_is_64 op = (op = OPCODE_I64_EQ \<or> op = OPCODE_I64_NE \<or> op = OPCODE_I64_LT_S
     \<or> op = OPCODE_I64_GT_U)"

definition cmp_setcc :: "cmp_op \<Rightarrow> byte list" where
  "cmp_setcc op = (case op of
      OPCODE_I32_EQ \<Rightarrow> [0x0f, 0x94, 0xc0] | OPCODE_I64_EQ \<Rightarrow> [0x0f, 0x94, 0xc0]
    | OPCODE_I32_NE \<Rightarrow> [0x0f, 0x95, 0xc0] | OPCODE_I64_NE \<Rightarrow> [0x0f, 0x95, 0xc0]
    | OPCODE_I32_LT_S \<Rightarrow> [0x0f, 0x9c, 0xc0] | OPCODE_I64_LT_S \<Rightarrow> [0x0f, 0x9c, 0xc0]
    | OPCODE_I32_LT_U \<Rightarrow> [0x0f, 0x92, 0xc0]
    | OPCODE_I32_GT_S \<Rightarrow> [0x0f, 0x9f, 0xc0]
    | OPCODE_I32_GT_U \<Rightarrow> [0x0f, 0x97, 0xc0] | OPCODE_I64_GT_U \<Rightarrow> [0x0f, 0x97, 0xc0]
    | OPCODE_I32_LE_S \<Rightarrow> [0x0f, 0x9e, 0xc0]
    | OPCODE_I32_LE_U \<Rightarrow> [0x0f, 0x96, 0xc0]
    | OPCODE_I32_GE_S \<Rightarrow> [0x0f, 0x9d, 0xc0])"

text \<open>\<^verbatim>\<open>if (stack_type == STACK_I64) OUTS("\x48")\<close>.\<close>

definition rexw :: "bool \<Rightarrow> cstep" where
  "rexw is64 = when_c is64 (OUTS [0x48])"

definition compile_cmp :: "cmp_op \<Rightarrow> cstep" where
  "compile_cmp op =
     (let is64 = cmp_is_64 op; stack_type = (if is64 then VALTYPE_I64 else VALTYPE_I32)
      in seq [assert_peek stack_type, pop_stack, assert_peek stack_type, pop_stack,
              OUTS [0x5f],
              rexw is64, OUTS [0x31, 0xc0],
              rexw is64, OUTS [0x39, 0x3c, 0x24],
              OUTS (cmp_setcc op),
              rexw is64, OUTS [0x89, 0x04, 0x24],
              push_stack VALTYPE_I32])"

definition compile_fcmp :: "fcmp_op \<Rightarrow> cstep" where
  "compile_fcmp op =
     seq [assert_peek VALTYPE_F64, pop_stack, assert_peek VALTYPE_F64, pop_stack,
          OUTS [0xf2, 0x0f, 0x10, 0x04, 0x24],
          OUTS [0x48, 0x83, 0xc4, 0x08],
          OUTS [0x31, 0xc0],
          (case op of OPCODE_F64_EQ \<Rightarrow> OUTS [0x31, 0xd2]
                    | OPCODE_F64_NE \<Rightarrow> OUTS [0xba, 0x01, 0x00, 0x00, 0x00]),
          OUTS [0x66, 0x0f, 0x2e, 0x04, 0x24],
          (case op of OPCODE_F64_EQ \<Rightarrow> seq [OUTS [0x0f, 0x9b, 0xc0], OUTS [0x0f, 0x45, 0xc2]]
                    | OPCODE_F64_NE \<Rightarrow> seq [OUTS [0x0f, 0x9a, 0xc0], OUTS [0x0f, 0x45, 0xc2]]),
          OUTS [0x48, 0x89, 0x04, 0x24],
          push_stack VALTYPE_I32]"

text \<open>Integer arithmetic.\<close>

definition arith_is_64 :: "arith_op \<Rightarrow> bool" where
  "arith_is_64 op = (op = OPCODE_I64_ADD \<or> op = OPCODE_I64_SUB \<or> op = OPCODE_I64_MUL
     \<or> op = OPCODE_I64_AND \<or> op = OPCODE_I64_OR)"

definition arith_code :: "arith_op \<Rightarrow> bool \<Rightarrow> cstep" where
  "arith_code op is64 = (case op of
      OPCODE_I32_SUB \<Rightarrow> OUTS [0x29, 0x04, 0x24] | OPCODE_I64_SUB \<Rightarrow> OUTS [0x29, 0x04, 0x24]
    | OPCODE_I64_ADD \<Rightarrow> OUTS [0x01, 0x04, 0x24] | OPCODE_I32_ADD \<Rightarrow> OUTS [0x01, 0x04, 0x24]
    | OPCODE_I32_MUL \<Rightarrow> seq [OUTS [0xf7, 0x24, 0x24], rexw is64, OUTS [0x89, 0x04, 0x24]]
    | OPCODE_I64_MUL \<Rightarrow> seq [OUTS [0xf7, 0x24, 0x24], rexw is64, OUTS [0x89, 0x04, 0x24]]
    | OPCODE_I32_AND \<Rightarrow> OUTS [0x21, 0x04, 0x24] | OPCODE_I64_AND \<Rightarrow> OUTS [0x21, 0x04, 0x24]
    | OPCODE_I32_OR \<Rightarrow> OUTS [0x09, 0x04, 0x24] | OPCODE_I64_OR \<Rightarrow> OUTS [0x09, 0x04, 0x24]
    | OPCODE_I32_XOR \<Rightarrow> OUTS [0x31, 0x04, 0x24])"

definition compile_arith :: "arith_op \<Rightarrow> cstep" where
  "compile_arith op =
     (let is64 = arith_is_64 op; stack_type = (if is64 then VALTYPE_I64 else VALTYPE_I32)
      in seq [assert_peek stack_type, pop_stack, OUTS [0x58],
              assert_peek stack_type,
              rexw is64,
              arith_code op is64])"

definition div_is_64 :: "div_op \<Rightarrow> bool" where
  "div_is_64 op = (op = OPCODE_I64_DIV_S \<or> op = OPCODE_I64_DIV_U \<or> op = OPCODE_I64_REM_S
     \<or> op = OPCODE_I64_REM_U)"

definition div_is_signed :: "div_op \<Rightarrow> bool" where
  "div_is_signed op = (op = OPCODE_I32_DIV_S \<or> op = OPCODE_I32_REM_S \<or> op = OPCODE_I64_DIV_S
     \<or> op = OPCODE_I64_REM_S)"

definition div_is_rem :: "div_op \<Rightarrow> bool" where
  "div_is_rem op = (op = OPCODE_I32_REM_S \<or> op = OPCODE_I32_REM_U \<or> op = OPCODE_I64_REM_S
     \<or> op = OPCODE_I64_REM_U)"

definition compile_divrem :: "div_op \<Rightarrow> cstep" where
  "compile_divrem op =
     (let is64 = div_is_64 op; stack_type = (if is64 then VALTYPE_I64 else VALTYPE_I32)
      in seq [assert_peek stack_type, pop_stack, assert_peek stack_type,
              OUTS [0x5f],
              rexw is64, OUTS [0x8b, 0x04, 0x24],
              rexw is64,
              (if div_is_signed op
               then seq [OUTS [0x99], rexw is64, OUTS [0xf7, 0xff]]
               else seq [OUTS [0x31, 0xd2], rexw is64, OUTS [0xf7, 0xf7]]),
              rexw is64,
              (if div_is_rem op then OUTS [0x89, 0x14, 0x24] else OUTS [0x89, 0x04, 0x24])])"

text \<open>
  Shifts. The string of the left shift is \<^verbatim>\<open>"\xd3x24\x24"\<close>: 0xd3, the text x24, 0x24.
\<close>

definition shift_is_64 :: "shift_op \<Rightarrow> bool" where
  "shift_is_64 op = (op = OPCODE_I64_SHL \<or> op = OPCODE_I64_SHR_S \<or> op = OPCODE_I64_SHR_U)"

definition shift_code :: "shift_op \<Rightarrow> byte list" where
  "shift_code op = (case op of
      OPCODE_I32_SHL \<Rightarrow> [0xd3, 0x78, 0x32, 0x34, 0x24] | OPCODE_I64_SHL \<Rightarrow> [0xd3, 0x78, 0x32, 0x34, 0x24]
    | OPCODE_I32_SHR_S \<Rightarrow> [0xd3, 0x3c, 0x24] | OPCODE_I64_SHR_S \<Rightarrow> [0xd3, 0x3c, 0x24]
    | OPCODE_I32_SHR_U \<Rightarrow> [0xd3, 0x2c, 0x24] | OPCODE_I64_SHR_U \<Rightarrow> [0xd3, 0x2c, 0x24])"

definition compile_shift :: "shift_op \<Rightarrow> cstep" where
  "compile_shift op =
     (let is64 = shift_is_64 op; stack_type = (if is64 then VALTYPE_I64 else VALTYPE_I32)
      in seq [OUTS [0x59],
              assert_peek stack_type, pop_stack, assert_peek stack_type,
              rexw is64,
              OUTS (shift_code op)])"

definition compile_farith :: "farith_op \<Rightarrow> cstep" where
  "compile_farith op =
     seq [assert_peek VALTYPE_F64, pop_stack, assert_peek VALTYPE_F64,
          OUTS [0xf2, 0x0f, 0x10, 0x07],
          OUTS [0x48, 0x8d, 0x47, 0x08],
          (case op of OPCODE_F64_ADD \<Rightarrow> OUTS [0xf2, 0x0f, 0x58, 0x04, 0x24]
                    | OPCODE_F64_SUB \<Rightarrow> OUTS [0xf2, 0x0f, 0x5c, 0x04, 0x24]
                    | OPCODE_F64_MUL \<Rightarrow> OUTS [0xf2, 0x0f, 0x59, 0x47, 0x08]),
          OUTS [0xf2, 0x0f, 0x11, 0x04, 0x24]]"

text \<open>Branches.\<close>

definition compile_br_if :: "32 word \<Rightarrow> cstep" where
  "compile_br_if labelidx st =
     (case seq [assert_peek VALTYPE_I32, pop_stack, OUTS [0x5e], OUTS [0x85, 0xf6]] st of
        None \<Rightarrow> None
      | Some st1 \<Rightarrow>
          (let je_offset = length (outputv st1)
           in case seq [OUTS [0x74, 0x01], emit_br_code labelidx] st1 of
                None \<Rightarrow> None
              | Some st2 \<Rightarrow>
                  (let offset = int (length (outputv st2)) - int je_offset - 2
                   in if offset < 128 \<and> offset > 0
                      then patch (int je_offset) [0x74, word_of_int offset] st2
                      else None)))"

text \<open>The loop of the jump table that emits one branch per label, from index \<open>i\<close>;
  it returns the \<^verbatim>\<open>end_jumps\<close> it records.\<close>

fun br_table_entries :: "nat \<Rightarrow> nat \<Rightarrow> 32 word list \<Rightarrow> cstate \<Rightarrow> (nat list \<times> cstate) option" where
  "br_table_entries table_offset i [] st = Some ([], st)"
| "br_table_entries table_offset i (l # ls) st =
     (case seq [
        (\<lambda>s. patch (int table_offset + int i * 4)
                (encode_le_uint32_t (of_int (int (length (outputv s)) - int table_offset))) s),
        emit_br_code l,
        OUTS [0xe9, 0x90, 0x90, 0x90, 0x90]] st of
        None \<Rightarrow> None
      | Some st1 \<Rightarrow>
          (case br_table_entries table_offset (i + 1) ls st1 of
             None \<Rightarrow> None
           | Some (end_jumps, st2) \<Rightarrow> Some (length (outputv st1) # end_jumps, st2)))"

text \<open>The last loop of the jump table: the displacement of every jump to the end.\<close>

fun br_table_ends :: "nat list \<Rightarrow> cstep" where
  "br_table_ends [] st = Some st"
| "br_table_ends (e # es) st =
     (case patch (int e - 4) (encode_le_uint32_t (of_int (int (length (outputv st)) - int e))) st of
        None \<Rightarrow> None
      | Some st1 \<Rightarrow> br_table_ends es st1)"

text \<open>
  The jump table. The string of the \<^verbatim>\<open>lea\<close> is \<^verbatim>\<open>"\x48\x8d\x15\x09\x00\x00\x00"\<close>, written
  through \<^verbatim>\<open>OUTS\<close>.
\<close>

definition compile_br_table :: "32 word list \<Rightarrow> 32 word \<Rightarrow> cstep" where
  "compile_br_table labelidxs labelidx st =
     (case seq [OUTS [0x58], pop_stack,
                OUTS [0x48, 0x3d], OUT32 (of_nat (length labelidxs)),
                OUTS [0x0f, 0x83, 0x90, 0x90, 0x90, 0x90]] st of
        None \<Rightarrow> None
      | Some st1 \<Rightarrow>
         (let default_branch_offset = length (outputv st1)
          in case seq [OUTS [0x48, 0x8d, 0x15, 0x09, 0x00, 0x00, 0x00],
                       OUTS [0x48, 0x63, 0x04, 0x82],
                       OUTS [0x48, 0x01, 0xd0],
                       OUTS [0xff, 0xe0]] st1 of
               None \<Rightarrow> None
             | Some st2 \<Rightarrow>
                (let table_offset = length (outputv st2)
                 in case seq (map (\<lambda>l. OUTS [0x90, 0x90, 0x90, 0x90]) labelidxs) st2 of
                      None \<Rightarrow> None
                    | Some st3 \<Rightarrow>
                       (case br_table_entries table_offset 0 labelidxs st3 of
                          None \<Rightarrow> None
                        | Some (end_jumps, st4) \<Rightarrow>
                            seq [(\<lambda>s. patch (int default_branch_offset - 4)
                                    (encode_le_uint32_t
                                       (of_int (int (length (outputv s)) - int default_branch_offset))) s),
                                 emit_br_code labelidx,
                                 br_table_ends end_jumps] st4))))"

text \<open>
  Every case of the switch that compiles no nested instruction list. The last equation is
  the \<^verbatim>\<open>default\<close> case, whose \<^verbatim>\<open>assert(0)\<close> aborts.
\<close>

fun compile_leaf :: "cenv \<Rightarrow> Instr \<Rightarrow> cstep" where
  "compile_leaf env OPCODE_UNREACHABLE = OUTS [0x0f, 0x00, 0x62]"
| "compile_leaf env OPCODE_NOP = seq []"
| "compile_leaf env (OPCODE_BR labelidx) = emit_br_code labelidx"
| "compile_leaf env (OPCODE_BR_IF labelidx) = compile_br_if labelidx"
| "compile_leaf env (OPCODE_BR_TABLE labelidxs labelidx) = compile_br_table labelidxs labelidx"
| "compile_leaf env OPCODE_RETURN = compile_return env"
| "compile_leaf env (OPCODE_CALL fidx) = compile_call env fidx"
| "compile_leaf env (OPCODE_CALL_INDIRECT typeidx) = compile_call_indirect env typeidx"
| "compile_leaf env OPCODE_DROP = seq [OUTS [0x48, 0x83, 0xc4, 0x08], pop_stack]"
| "compile_leaf env (OPCODE_GET_LOCAL localidx) = compile_get_local env localidx"
| "compile_leaf env (OPCODE_SET_LOCAL localidx) = compile_set_local env localidx"
| "compile_leaf env (OPCODE_TEE_LOCAL localidx) = compile_tee_local env localidx"
| "compile_leaf env (OPCODE_GET_GLOBAL gidx) = compile_get_global env gidx"
| "compile_leaf env (OPCODE_SET_GLOBAL gidx) = compile_set_global env gidx"
| "compile_leaf env (LOAD_STORE op offset) = compile_load_store env op offset"
| "compile_leaf env (OPCODE_I32_CONST v) =
     seq [OUTS [0x68], OUT32 v, push_stack VALTYPE_I32]"
| "compile_leaf env (OPCODE_I64_CONST v) =
     seq [OUTS [0x48, 0xb8], OUT64 v, OUTS [0x50], push_stack VALTYPE_I64]"
| "compile_leaf env (OPCODE_F64_CONST v) =
     seq [OUTS [0x48, 0xb8], OUT64 v, OUTS [0x50], push_stack VALTYPE_F64]"
| "compile_leaf env OPCODE_I32_EQZ =
     seq [assert_peek VALTYPE_I32,
          OUTS [0x31, 0xc0], OUTS [0x83, 0x3c, 0x24, 0x00], OUTS [0x0f, 0x94, 0xc0],
          OUTS [0x89, 0x04, 0x24]]"
| "compile_leaf env (CMP op) = compile_cmp op"
| "compile_leaf env (FCMP op) = compile_fcmp op"
| "compile_leaf env (ARITH op) = compile_arith op"
| "compile_leaf env (DIVREM op) = compile_divrem op"
| "compile_leaf env (SHIFT op) = compile_shift op"
| "compile_leaf env OPCODE_F64_NEG =
     seq [assert_peek VALTYPE_F64, OUTS [0x48, 0x0f, 0xba, 0x3c, 0x24, 0x3f]]"
| "compile_leaf env (FARITH op) = compile_farith op"
| "compile_leaf env OPCODE_I32_WRAP_I64 =
     seq [assert_peek VALTYPE_I64, pop_stack,
          OUTS [0xb8, 0xff, 0xff, 0xff, 0xff], OUTS [0x48, 0x21, 0x07],
          push_stack VALTYPE_I32]"
| "compile_leaf env (I32_TRUNC_F64 op) =
     seq [assert_peek VALTYPE_F64, pop_stack,
          OUTS [0xf2, 0x0f, 0x2c, 0x04, 0x24], OUTS [0x48, 0x89, 0x04, 0x24],
          push_stack VALTYPE_I32]"
| "compile_leaf env OPCODE_I64_EXTEND_S_I32 =
     seq [assert_peek VALTYPE_I32, pop_stack,
          OUTS [0x48, 0x63, 0x04, 0x24], OUTS [0x48, 0x89, 0x04, 0x24],
          push_stack VALTYPE_I64]"
| "compile_leaf env OPCODE_I64_EXTEND_U_I32 =
     seq [assert_peek VALTYPE_I32, pop_stack, push_stack VALTYPE_I64]"
| "compile_leaf env (F64_CONVERT_I32 op) =
     seq [assert_peek VALTYPE_I32, pop_stack,
          (case op of
             OPCODE_F64_CONVERT_S_I32 \<Rightarrow> OUTS [0xf2, 0x0f, 0x2a, 0x04, 0x24]
           | OPCODE_F64_CONVERT_U_I32 \<Rightarrow>
               seq [OUTS [0x8b, 0x04, 0x24], OUTS [0xf2, 0x48, 0x0f, 0x2a, 0xc0]]),
          OUTS [0xf2, 0x0f, 0x11, 0x04, 0x24],
          push_stack VALTYPE_F64]"
| "compile_leaf env OPCODE_I64_REINTERPRET_F64 =
     seq [assert_peek VALTYPE_F64, pop_stack, push_stack VALTYPE_I64]"
| "compile_leaf env OPCODE_F64_REINTERPRET_I64 =
     seq [assert_peek VALTYPE_I64, pop_stack, push_stack VALTYPE_F64]"
| "compile_leaf env i = (\<lambda>st. None)"

subsection \<open>Blocks, loops and conditionals\<close>

text \<open>
  \<^verbatim>\<open>INC_LABELS()\<close>: the label vector grows by one element. The C code leaves the new
  element unwritten until the construct is closed and never reads it before; it is 0 here.
\<close>

definition INC_LABELS :: cstep where
  "INC_LABELS st = Some (st\<lparr>labels := labels st @ [0]\<rparr>)"

text \<open>\<^verbatim>\<open>stack_grow(sstack, 1)\<close> and the three assignments to the new label slot.\<close>

definition push_label :: "nat \<Rightarrow> nat \<Rightarrow> cstep" where
  "push_label arity label_idx st = Some (st\<lparr>sstack := sstack st @ [STACK_LABEL arity label_idx]\<rparr>)"

text \<open>
  "Shift stack results over label": the \<^verbatim>\<open>memmove\<close> of the top \<open>arity\<close> slots to
  \<open>stack_idx\<close>, then \<^verbatim>\<open>stack_truncate(sstack, stack_idx + arity)\<close>.
\<close>

definition shift_results :: "nat \<Rightarrow> nat \<Rightarrow> cstep" where
  "shift_results stack_idx arity st =
     (let s = sstack st; n = length s
      in if arity \<le> n \<and> stack_idx + arity \<le> n
         then stack_truncate (stack_idx + arity)
                (st\<lparr>sstack := take stack_idx s @ take arity (drop (n - arity) s)
                                 @ drop (stack_idx + arity) s\<rparr>)
         else None)"

text \<open>\<^verbatim>\<open>labels->elts[label_idx] = v\<close>.\<close>

definition set_label :: "nat \<Rightarrow> nat \<Rightarrow> cstep" where
  "set_label label_idx v st =
     (if label_idx < length (labels st)
      then Some (st\<lparr>labels := (labels st)[label_idx := v]\<rparr>) else None)"

definition block_arity :: "valtype option \<Rightarrow> nat" where
  "block_arity blocktype = (if blocktype \<noteq> None then 1 else 0)"

text \<open>
  \<^verbatim>\<open>wasmjit_compile_instruction\<close> and \<^verbatim>\<open>wasmjit_compile_instructions\<close>. The cases block, loop
  and if call \<^verbatim>\<open>wasmjit_compile_instructions\<close> without looking at what it returns; since it
  returns 0 on no path that does not abort first, nothing is lost by stopping there.
\<close>

fun wasmjit_compile_instruction :: "cenv \<Rightarrow> Instr \<Rightarrow> cstep"
  and wasmjit_compile_instructions :: "cenv \<Rightarrow> Instr list \<Rightarrow> cstep"
where
  "wasmjit_compile_instruction env (OPCODE_BLOCK blocktype body) st =
     (let arity = block_arity blocktype;
          label_idx = length (labels st);
          stack_idx = length (sstack st)
      in case seq [INC_LABELS, push_label arity label_idx] st of
           None \<Rightarrow> None
         | Some st1 \<Rightarrow>
            (case wasmjit_compile_instructions env body st1 of
               None \<Rightarrow> None
             | Some st2 \<Rightarrow>
                 seq [shift_results stack_idx arity,
                      (\<lambda>s. set_label label_idx (length (outputv s)) s)] st2))"
| "wasmjit_compile_instruction env (OPCODE_LOOP blocktype body) st =
     (let arity = block_arity blocktype;
          label_idx = length (labels st);
          stack_idx = length (sstack st);
          output_idx = length (outputv st)
      in case seq [INC_LABELS, push_label arity label_idx] st of
           None \<Rightarrow> None
         | Some st1 \<Rightarrow>
            (case wasmjit_compile_instructions env body st1 of
               None \<Rightarrow> None
             | Some st2 \<Rightarrow>
                 seq [shift_results stack_idx arity, set_label label_idx output_idx] st2))"
| "wasmjit_compile_instruction env (OPCODE_IF blocktype instructions_then instructions_else) st =
     (case seq [assert_peek VALTYPE_I32, pop_stack, OUTS [0x58], OUTS [0x85, 0xc0]] st of
        None \<Rightarrow> None
      | Some st1 \<Rightarrow>
         (let jump_to_else_offset = length (outputv st1) + 2;
              label_idx = length (labels st1);
              arity = block_arity blocktype;
              stack_idx = length (sstack st1)
          in case seq [OUTS [0x0f, 0x84, 0x90, 0x90, 0x90, 0x90], INC_LABELS,
                       push_label arity label_idx] st1 of
               None \<Rightarrow> None
             | Some st2 \<Rightarrow>
                (case wasmjit_compile_instructions env instructions_then st2 of
                   None \<Rightarrow> None
                 | Some st3 \<Rightarrow>
                    (let jump_to_after_else_offset = length (outputv st3) + 1
                     in case seq [
                          when_c (instructions_else \<noteq> []) (OUTS [0xe9, 0x90, 0x90, 0x90, 0x90]),
                          (\<lambda>s. patch (int jump_to_else_offset)
                             (encode_le_uint32_t
                                (of_int (int (length (outputv s)) - int jump_to_else_offset - 4))) s)]
                          st3 of
                          None \<Rightarrow> None
                        | Some st4 \<Rightarrow>
                           (case (if instructions_else \<noteq> []
                                  then (case wasmjit_compile_instructions env instructions_else st4 of
                                          None \<Rightarrow> None
                                        | Some st5 \<Rightarrow>
                                            patch (int jump_to_after_else_offset)
                                              (encode_le_uint32_t
                                                 (of_int (int (length (outputv st5))
                                                          - int jump_to_after_else_offset - 4))) st5)
                                  else Some st4) of
                              None \<Rightarrow> None
                            | Some st6 \<Rightarrow>
                                seq [shift_results stack_idx arity,
                                     (\<lambda>s. set_label label_idx (length (outputv s)) s)] st6)))))"
| "wasmjit_compile_instruction env i st = compile_leaf env i st"
| "wasmjit_compile_instructions env [] st = Some st"
| "wasmjit_compile_instructions env (i # instructions) st =
     (case wasmjit_compile_instruction env i st of
        None \<Rightarrow> None
      | Some st' \<Rightarrow> wasmjit_compile_instructions env instructions st')"

subsection \<open>\<^verbatim>\<open>wasmjit_compile_function\<close>\<close>

text \<open>\<^verbatim>\<open>struct CodeSectionCode\<close>: the declared locals as (count, type) runs, and the body.\<close>

record CodeSectionCode =
  locals :: "(nat \<times> valtype) list"
  instructions :: "Instr list"

text \<open>
  The first loop over the parameters: the frame offset of each, with the counters
  \<^verbatim>\<open>n_movs\<close>, \<^verbatim>\<open>n_xmm_movs\<close> and \<^verbatim>\<open>n_stack\<close>. It returns the offsets and the final
  \<^verbatim>\<open>n_movs + n_xmm_movs\<close>.
\<close>

fun param_offsets :: "valtype list \<Rightarrow> nat \<Rightarrow> nat \<Rightarrow> nat \<Rightarrow> (int list \<times> nat) option" where
  "param_offsets [] n_movs n_xmm_movs n_stack = Some ([], n_movs + n_xmm_movs)"
| "param_offsets (t # ts) n_movs n_xmm_movs n_stack =
     (if is_int_type t \<and> n_movs < 6 then
        (case param_offsets ts (n_movs + 1) n_xmm_movs n_stack of
           None \<Rightarrow> None
         | Some (offs, n) \<Rightarrow> Some (- int ((1 + n_movs + n_xmm_movs) * 8) # offs, n))
      else if (t = VALTYPE_F32 \<or> t = VALTYPE_F64) \<and> n_xmm_movs < 8 then
        (case param_offsets ts n_movs (n_xmm_movs + 1) n_stack of
           None \<Rightarrow> None
         | Some (offs, n) \<Rightarrow> Some (- int ((1 + n_movs + n_xmm_movs) * 8) # offs, n))
      else if \<not> n_stack * 8 + 16 \<le> INT32_MAX then None
      else
        (case param_offsets ts n_movs n_xmm_movs (n_stack + 1) of
           None \<Rightarrow> None
         | Some (offs, n) \<Rightarrow> Some (int (n_stack * 8 + 16) # offs, n)))"

text \<open>
  The second loop: the offsets of the declared locals below \<open>n_regs\<close> spilled registers,
  from index \<open>i\<close> for \<open>k\<close> more locals.
\<close>

fun local_offsets :: "nat \<Rightarrow> nat \<Rightarrow> nat \<Rightarrow> int list option" where
  "local_offsets n_regs i 0 = Some []"
| "local_offsets n_regs i (Suc k) =
     (if \<not> 8 * i \<le> 2 ^ 31 then None
      else if \<not> 8 * i + (1 + n_regs) * 8 \<le> 2 ^ 31 then None
      else case local_offsets n_regs (i + 1) k of
             None \<Rightarrow> None
           | Some offs \<Rightarrow> Some ((- int (8 * i) - int ((1 + n_regs) * 8)) # offs))"

text \<open>The third loop: the types of the declared locals.\<close>

definition local_types :: "(nat \<times> valtype) list \<Rightarrow> valtype list" where
  "local_types ls = concat (map (\<lambda>(count, t). replicate count t) ls)"

text \<open>The tables of register spills of the prologue.\<close>

definition spill_movs :: "byte list list" where
  "spill_movs = [[0x48, 0x89, 0x7d], [0x48, 0x89, 0x75], [0x48, 0x89, 0x55],
                 [0x48, 0x89, 0x4d], [0x4c, 0x89, 0x45], [0x4c, 0x89, 0x4d]]"

definition spill_f32_movs :: "byte list list" where
  "spill_f32_movs = map (\<lambda>m. [0xf3, 0x0f, 0x11, m]) [0x45, 0x4d, 0x55, 0x5d, 0x65, 0x6d, 0x75, 0x7d]"

definition spill_f64_movs :: "byte list list" where
  "spill_f64_movs = map (\<lambda>m. [0xf2, 0x0f, 0x11, m]) [0x45, 0x4d, 0x55, 0x5d, 0x65, 0x6d, 0x75, 0x7d]"

text \<open>"Push args to stack": the loop over the parameters and their frame offsets.\<close>

fun spill_args :: "(valtype \<times> int) list \<Rightarrow> nat \<Rightarrow> nat \<Rightarrow> cstep" where
  "spill_args [] n_movs n_xmm_movs st = Some st"
| "spill_args ((t, off) # ps) n_movs n_xmm_movs st =
     (if off > 0 then spill_args ps n_movs n_xmm_movs st
      else if is_int_type t then
        (if \<not> n_movs < 6 then None
         else case seq [OUTS (spill_movs ! n_movs), OUTB off] st of
                None \<Rightarrow> None
              | Some st' \<Rightarrow> spill_args ps (n_movs + 1) n_xmm_movs st')
      else
        (if \<not> n_xmm_movs < 8 then None
         else case seq [OUTS ((if t = VALTYPE_F32 then spill_f32_movs else spill_f64_movs) ! n_xmm_movs),
                        OUTB off] st of
                None \<Rightarrow> None
              | Some st' \<Rightarrow> spill_args ps n_movs (n_xmm_movs + 1) st'))"

text \<open>"Initialize and push locals to stack", for \<open>k\<close> declared locals.\<close>

definition init_locals :: "nat \<Rightarrow> cstep" where
  "init_locals k =
     when_c (k \<noteq> 0)
       (if k = 1 then output_buf [0x48, 0xc7, 0x04, 0x24, 0x00, 0x00, 0x00, 0x00]
        else seq [OUTS [0x48, 0x89, 0xe7],
                  OUTS [0x48, 0x31, 0xc0],
                  OUTS [0x48, 0xc7, 0xc1],
                  c_assert (k \<le> INT32_MAX),
                  OUT32 (of_nat k),
                  OUTS [0xfc],
                  OUTS [0xf3, 0x48, 0xab]])"

text \<open>
  \<^verbatim>\<open>sub $(8 * n_frame_locals), %rsp\<close> of the prologue and \<^verbatim>\<open>add $(8 * n_frame_locals), %rsp\<close>
  of the epilogue: the opcode bytes \<open>opc\<close>, then the product, which must fit an \<^verbatim>\<open>int32_t\<close>.
\<close>

definition frame_adjust :: "byte list \<Rightarrow> nat \<Rightarrow> cstep" where
  "frame_adjust opc nfl =
     when_c (nfl \<noteq> 0) (seq [OUTS opc, c_assert (nfl * 8 \<le> INT32_MAX), OUT32 (of_nat (nfl * 8))])"

definition prologue :: "FuncType \<Rightarrow> int list \<Rightarrow> nat \<Rightarrow> nat \<Rightarrow> cstep" where
  "prologue type offs nfl k =
     seq [OUTS [0x55],
          OUTS [0x48, 0x89, 0xe5],
          OUTS [0xcc],
          frame_adjust [0x48, 0x81, 0xec] nfl,
          spill_args (zip (input_types type) offs) 0 0,
          init_locals k]"

text \<open>"Fix branch points": the loop over the branch table.\<close>

definition continuation_offset :: "BranchPointElt \<Rightarrow> cstate \<Rightarrow> nat option" where
  "continuation_offset branch st =
     (if continuation_idx branch = FUNC_EXIT_CONT then Some (length (outputv st))
      else if continuation_idx branch < length (labels st)
           then Some (labels st ! continuation_idx branch) else None)"

definition fix_branch :: "BranchPointElt \<Rightarrow> cstep" where
  "fix_branch branch st =
     (case continuation_offset branch st of
        None \<Rightarrow> None
      | Some co \<Rightarrow>
          patch (int (branch_offset branch))
            (0xe9 # encode_le_uint32_t (of_int (int co - int (branch_offset branch) - 5))) st)"

fun fix_branches :: "BranchPointElt list \<Rightarrow> cstep" where
  "fix_branches [] st = Some st"
| "fix_branches (b # bs) st =
     (case fix_branch b st of None \<Rightarrow> None | Some st' \<Rightarrow> fix_branches bs st')"

definition epilogue :: "FuncType \<Rightarrow> nat \<Rightarrow> cstep" where
  "epilogue type nfl =
     seq [when_c (output_types type \<noteq> []) (seq [
            c_assert (length (output_types type) = 1),
            (\<lambda>st. c_assert (length (sstack st) = 1) st),
            assert_peek (hd (output_types type)),
            pop_stack,
            OUTS [0x58]]),
          frame_adjust [0x48, 0x81, 0xc4] nfl,
          OUTS [0x5d],
          OUTS [0xc3]]"

text \<open>
  The frame layout of the first block of \<^verbatim>\<open>wasmjit_compile_function\<close>: the locals metadata,
  \<^verbatim>\<open>n_locals\<close> and \<^verbatim>\<open>n_frame_locals\<close>.
\<close>

definition frame_layout :: "FuncType \<Rightarrow> CodeSectionCode \<Rightarrow> (LocalsMD list \<times> nat \<times> nat) option" where
  "frame_layout type code =
     (let k = sum_list (map fst (locals code));
          nl = length (input_types type) + k
      in case param_offsets (input_types type) 0 0 0 of
           None \<Rightarrow> None
         | Some (poffs, n_regs) \<Rightarrow>
            (case local_offsets n_regs 0 k of
               None \<Rightarrow> None
             | Some loffs \<Rightarrow>
                 if k > 2 ^ 64 - 1 - n_regs then None
                 else Some (map (\<lambda>(t, off). \<lparr>valtype = t, fp_offset = off\<rparr>)
                              (zip (input_types type @ local_types (locals code)) (poffs @ loffs)),
                            nl, n_regs + k)))"

text \<open>
  \<^verbatim>\<open>wasmjit_compile_function\<close>. The argument \<open>env0\<close> gives the type tables and the structure
  offsets; the function returns the code and the memory references, the given ones first.
\<close>

definition wasmjit_compile_function ::
  "cenv \<Rightarrow> FuncType \<Rightarrow> CodeSectionCode \<Rightarrow> MemoryReference list
     \<Rightarrow> (byte list \<times> MemoryReference list) option" where
  "wasmjit_compile_function env0 type code mrefs =
     (case frame_layout type code of
        None \<Rightarrow> None
      | Some (md, nl, nfl) \<Rightarrow>
         (let env = env0\<lparr>ftype := type, locals_md := md, n_locals := nl, n_frame_locals := nfl\<rparr>;
              st0 = \<lparr>outputv = [], labels = [], branches = [], memrefs = mrefs, sstack = []\<rparr>
          in case seq [prologue type (map fp_offset md) nfl (nl - length (input_types type)),
                       wasmjit_compile_instructions env (instructions code),
                       (\<lambda>st. fix_branches (branches st) st),
                       epilogue type nfl] st0 of
               None \<Rightarrow> None
             | Some st \<Rightarrow> Some (outputv st, memrefs st)))"

subsection \<open>The machine that runs the generated code\<close>

text \<open>
  The claims about what the generated code does when it runs are stated on a model of the
  x86-64 instructions that the compiler emits, after the Intel 64 and IA-32 Architectures
  Software Developer's Manual, volume 2: the general registers, a byte-addressed memory, the
  flags ZF, SF, OF, CF and DF, and a program counter that is an offset into the code buffer.
  Only the instruction forms listed below are modelled; the model stops with \<open>Unsupported\<close>
  on anything else.
\<close>

record mstate =
  regs :: "nat \<Rightarrow> 64 word"
  mem :: "64 word \<Rightarrow> byte"
  pc :: nat
  zf :: bool
  sf :: bool
  ovf :: bool
  cf :: bool
  df :: bool

text \<open>The numbers of the registers in the instruction encoding.\<close>

definition RAX :: nat where "RAX = 0"
definition RCX :: nat where "RCX = 1"
definition RSP :: nat where "RSP = 4"
definition RBP :: nat where "RBP = 5"
definition RSI :: nat where "RSI = 6"
definition RDI :: nat where "RDI = 7"

text \<open>
  The result of a step or a run: the machine goes on, or it has reached the end of the code
  buffer, or it raises the exception or interrupt of the given vector (4 for \<^verbatim>\<open>int $4\<close>,
  6 for the invalid-opcode fault of \<^verbatim>\<open>ud2\<close>), or the bytes at the program counter are
  outside the model.
\<close>

datatype outcome = Running mstate | Halted mstate | Trapped nat mstate | Unsupported

text \<open>Little-endian values in memory and in the instruction stream.\<close>

fun le_word :: "byte list \<Rightarrow> 'a::len word" where
  "le_word [] = 0"
| "le_word (b # bs) = ucast b OR push_bit 8 (le_word bs)"

fun write_bytes :: "(64 word \<Rightarrow> byte) \<Rightarrow> 64 word \<Rightarrow> byte list \<Rightarrow> (64 word \<Rightarrow> byte)" where
  "write_bytes m a [] = m"
| "write_bytes m a (b # bs) = write_bytes (m(a := b)) (a + 1) bs"

definition read32 :: "(64 word \<Rightarrow> byte) \<Rightarrow> 64 word \<Rightarrow> 64 word" where
  "read32 m a = le_word [m a, m (a + 1), m (a + 2), m (a + 3)]"

definition read64 :: "(64 word \<Rightarrow> byte) \<Rightarrow> 64 word \<Rightarrow> 64 word" where
  "read64 m a = le_word [m a, m (a + 1), m (a + 2), m (a + 3), m (a + 4), m (a + 5), m (a + 6), m (a + 7)]"

definition write64 :: "(64 word \<Rightarrow> byte) \<Rightarrow> 64 word \<Rightarrow> 64 word \<Rightarrow> (64 word \<Rightarrow> byte)" where
  "write64 m a v = write_bytes m a (encode_le_uint64_t v)"

definition sext8 :: "byte \<Rightarrow> 64 word" where
  "sext8 b = scast b"

definition sext32 :: "32 word \<Rightarrow> 64 word" where
  "sext32 w = scast w"

definition zext32 :: "64 word \<Rightarrow> 64 word" where
  "zext32 v = v AND 0xffffffff"

text \<open>An operand of an instruction: a register, or memory at an effective address.\<close>

datatype operand = OReg nat | OMem "64 word"

text \<open>Operands of 8 bytes (with REX.W) and of 4 bytes; a 4-byte write to a register clears
  its upper half.\<close>

definition get_op :: "mstate \<Rightarrow> bool \<Rightarrow> operand \<Rightarrow> 64 word" where
  "get_op s w opd = (case opd of
      OReg r \<Rightarrow> if w then regs s r else zext32 (regs s r)
    | OMem a \<Rightarrow> if w then read64 (mem s) a else read32 (mem s) a)"

definition set_op :: "mstate \<Rightarrow> bool \<Rightarrow> operand \<Rightarrow> 64 word \<Rightarrow> mstate" where
  "set_op s w opd v = (case opd of
      OReg r \<Rightarrow> s\<lparr>regs := (regs s)(r := if w then v else zext32 v)\<rparr>
    | OMem a \<Rightarrow> s\<lparr>mem := (if w then write64 (mem s) a v
                           else write_bytes (mem s) a (encode_le_uint32_t (ucast v)))\<rparr>)"

text \<open>
  The ModRM byte and what follows it (SIB byte, displacement): the register field, the
  operand and the number of bytes read. \<open>rr\<close> is 8 where REX.R is set. Addresses relative
  to the instruction pointer are outside the model.
\<close>

definition modrm :: "mstate \<Rightarrow> nat \<Rightarrow> byte list \<Rightarrow> (nat \<times> operand \<times> nat) option" where
  "modrm s rr bs = (case bs of
      [] \<Rightarrow> None
    | m # r1 \<Rightarrow>
       (let md = unat m div 64; rg = (unat m div 8) mod 8 + rr; rm = unat m mod 8
        in if md = 3 then Some (rg, OReg rm, 1)
           else if rm = 4 then
             (case r1 of
                [] \<Rightarrow> None
              | sib # r2 \<Rightarrow>
                 (let base = unat sib mod 8; index = (unat sib div 8) mod 8;
                      scale = unat sib div 64;
                      ix = (if index = 4 then 0 else push_bit scale (regs s index))
                  in if md = 0 then
                       (if base = 5 then
                          (if 4 \<le> length r2
                           then Some (rg, OMem (ix + sext32 (le_word (take 4 r2))), 6) else None)
                        else Some (rg, OMem (regs s base + ix), 2))
                     else if md = 1 then
                       (case r2 of [] \<Rightarrow> None
                        | d # r3 \<Rightarrow> Some (rg, OMem (regs s base + ix + sext8 d), 3))
                     else
                       (if 4 \<le> length r2
                        then Some (rg, OMem (regs s base + ix + sext32 (le_word (take 4 r2))), 6)
                        else None)))
           else if md = 0 then (if rm = 5 then None else Some (rg, OMem (regs s rm), 1))
           else if md = 1 then
             (case r1 of [] \<Rightarrow> None | d # r2 \<Rightarrow> Some (rg, OMem (regs s rm + sext8 d), 2))
           else
             (if 4 \<le> length r1
              then Some (rg, OMem (regs s rm + sext32 (le_word (take 4 r1))), 5) else None)))"

text \<open>The two-operand arithmetic group: opcodes \<open>8 * k + 1\<close> and \<open>8 * k + 3\<close>, and the
  field \<open>/k\<close> of the opcodes 0x81 and 0x83.\<close>

datatype alu_op = ALU_ADD | ALU_OR | ALU_AND | ALU_SUB | ALU_XOR | ALU_CMP

definition alu_of :: "nat \<Rightarrow> alu_op option" where
  "alu_of k = (if k = 0 then Some ALU_ADD else if k = 1 then Some ALU_OR
     else if k = 4 then Some ALU_AND else if k = 5 then Some ALU_SUB
     else if k = 6 then Some ALU_XOR else if k = 7 then Some ALU_CMP else None)"

definition alu_res :: "alu_op \<Rightarrow> 'a::len word \<Rightarrow> 'a word \<Rightarrow> 'a word" where
  "alu_res op a b = (case op of
      ALU_ADD \<Rightarrow> a + b | ALU_OR \<Rightarrow> a OR b | ALU_AND \<Rightarrow> a AND b
    | ALU_SUB \<Rightarrow> a - b | ALU_XOR \<Rightarrow> a XOR b | ALU_CMP \<Rightarrow> a - b)"

definition alu_ovf :: "alu_op \<Rightarrow> 'a::len word \<Rightarrow> 'a word \<Rightarrow> bool" where
  "alu_ovf op a b = (case op of
      ALU_ADD \<Rightarrow> sint a + sint b \<noteq> sint (a + b)
    | ALU_SUB \<Rightarrow> sint a - sint b \<noteq> sint (a - b)
    | ALU_CMP \<Rightarrow> sint a - sint b \<noteq> sint (a - b)
    | ALU_OR \<Rightarrow> False | ALU_AND \<Rightarrow> False | ALU_XOR \<Rightarrow> False)"

definition alu_cf :: "alu_op \<Rightarrow> 'a::len word \<Rightarrow> 'a word \<Rightarrow> bool" where
  "alu_cf op a b = (case op of
      ALU_ADD \<Rightarrow> uint a + uint b \<noteq> uint (a + b)
    | ALU_SUB \<Rightarrow> uint a < uint b
    | ALU_CMP \<Rightarrow> uint a < uint b
    | ALU_OR \<Rightarrow> False | ALU_AND \<Rightarrow> False | ALU_XOR \<Rightarrow> False)"

text \<open>The flags after an arithmetic instruction on words of one width.\<close>

definition set_flags :: "alu_op \<Rightarrow> 'a::len word \<Rightarrow> 'a word \<Rightarrow> mstate \<Rightarrow> mstate" where
  "set_flags op a b s =
     s\<lparr>zf := (alu_res op a b = 0), sf := (sint (alu_res op a b) < 0),
       ovf := alu_ovf op a b, cf := alu_cf op a b\<rparr>"

text \<open>\<open>dst := dst op src\<close> with the flags; \<^verbatim>\<open>cmp\<close> writes the flags only.\<close>

definition alu :: "alu_op \<Rightarrow> bool \<Rightarrow> operand \<Rightarrow> 64 word \<Rightarrow> mstate \<Rightarrow> mstate" where
  "alu op w dst src s =
     (let a = get_op s w dst;
          s1 = (if w then set_flags op a src s
                else set_flags op (ucast a :: 32 word) (ucast src :: 32 word) s);
          r = (if w then alu_res op a src
               else ucast (alu_res op (ucast a :: 32 word) (ucast src :: 32 word)))
      in if op = ALU_CMP then s1 else set_op s1 w dst r)"

definition push64 :: "64 word \<Rightarrow> mstate \<Rightarrow> mstate" where
  "push64 v s = s\<lparr>regs := (regs s)(RSP := regs s RSP - 8),
                 mem := write64 (mem s) (regs s RSP - 8) v\<rparr>"

definition pop64 :: "nat \<Rightarrow> mstate \<Rightarrow> mstate" where
  "pop64 r s = s\<lparr>regs := ((regs s)(RSP := regs s RSP + 8))(r := read64 (mem s) (regs s RSP))\<rparr>"

text \<open>The program counter after an instruction of \<open>n\<close> bytes, and after a relative jump.\<close>

definition advance :: "nat \<Rightarrow> mstate \<Rightarrow> mstate" where
  "advance n s = s\<lparr>pc := pc s + n\<rparr>"

definition jump :: "nat \<Rightarrow> int \<Rightarrow> mstate \<Rightarrow> outcome" where
  "jump n rel s = (if 0 \<le> int (pc s) + int n + rel
     then Running (s\<lparr>pc := nat (int (pc s) + int n + rel)\<rparr>) else Unsupported)"

text \<open>The condition of \<^verbatim>\<open>setcc\<close> (second opcode byte 0x92 to 0x9f), where it is modelled.\<close>

definition setcc_cond :: "nat \<Rightarrow> mstate \<Rightarrow> bool option" where
  "setcc_cond b s =
     (if b = 0x92 then Some (cf s)
      else if b = 0x94 then Some (zf s)
      else if b = 0x95 then Some (\<not> zf s)
      else if b = 0x96 then Some (cf s \<or> zf s)
      else if b = 0x97 then Some (\<not> cf s \<and> \<not> zf s)
      else if b = 0x9c then Some (sf s \<noteq> ovf s)
      else if b = 0x9d then Some (sf s = ovf s)
      else if b = 0x9e then Some (zf s \<or> sf s \<noteq> ovf s)
      else if b = 0x9f then Some (\<not> zf s \<and> sf s = ovf s)
      else None)"

text \<open>
  One instruction. \<open>rex\<close> is the low half of the REX prefix (0 without one), \<open>opc\<close> the
  opcode byte, \<open>rest\<close> the bytes after it and \<open>plen\<close> the length of prefix and opcode.
  The instructions: \<^verbatim>\<open>push\<close> and \<^verbatim>\<open>pop\<close> of a register, \<^verbatim>\<open>push imm32\<close> (sign-extended);
  \<^verbatim>\<open>add\<close>, \<^verbatim>\<open>or\<close>, \<^verbatim>\<open>and\<close>, \<^verbatim>\<open>sub\<close>, \<^verbatim>\<open>xor\<close>, \<^verbatim>\<open>cmp\<close> between a register and a register or
  memory, and with a sign-extended immediate (0x81, 0x83); \<^verbatim>\<open>mov\<close> (0x89, 0x8b, 0xb8+r,
  0xc7), \<^verbatim>\<open>lea\<close>; \<^verbatim>\<open>je\<close>, \<^verbatim>\<open>jle\<close>, \<^verbatim>\<open>jmp rel32\<close>; \<^verbatim>\<open>int n\<close>, \<^verbatim>\<open>int3\<close>, \<^verbatim>\<open>ud2\<close>; \<^verbatim>\<open>setcc\<close> of a low byte register; \<^verbatim>\<open>std\<close>, \<^verbatim>\<open>cld\<close>
  and \<^verbatim>\<open>movs\<close>. The registers r8 to r15 as base, index or \<open>r/m\<close> (REX.X, REX.B) are outside
  the model.
\<close>

definition x86_exec :: "mstate \<Rightarrow> nat \<Rightarrow> nat \<Rightarrow> byte list \<Rightarrow> nat \<Rightarrow> outcome" where
  "x86_exec s rex opc rest plen =
     (let w = ((rex div 8) mod 2 = 1); rr = 8 * ((rex div 4) mod 2)
      in if rex mod 4 \<noteq> 0 then Unsupported
      else if 0x50 \<le> opc \<and> opc < 0x58 then
        Running (advance plen (push64 (regs s (opc - 0x50)) s))
      else if 0x58 \<le> opc \<and> opc < 0x60 then
        Running (advance plen (pop64 (opc - 0x58) s))
      else if opc = 0x68 then
        (if 4 \<le> length rest
         then Running (advance (plen + 4) (push64 (sext32 (le_word (take 4 rest))) s))
         else Unsupported)
      else if opc < 0x40 \<and> opc mod 8 = 1 then
        (case (alu_of (opc div 8), modrm s rr rest) of
           (Some op, Some (rg, opd, n)) \<Rightarrow>
             Running (advance (plen + n) (alu op w opd (get_op s w (OReg rg)) s))
         | _ \<Rightarrow> Unsupported)
      else if opc < 0x40 \<and> opc mod 8 = 3 then
        (case (alu_of (opc div 8), modrm s rr rest) of
           (Some op, Some (rg, opd, n)) \<Rightarrow>
             Running (advance (plen + n) (alu op w (OReg rg) (get_op s w opd) s))
         | _ \<Rightarrow> Unsupported)
      else if opc = 0x81 then
        (case modrm s 0 rest of
           Some (k, opd, n) \<Rightarrow>
             (case alu_of k of
                Some op \<Rightarrow>
                  if n + 4 \<le> length rest
                  then Running (advance (plen + n + 4)
                         (alu op w opd (sext32 (le_word (take 4 (drop n rest)))) s))
                  else Unsupported
              | None \<Rightarrow> Unsupported)
         | None \<Rightarrow> Unsupported)
      else if opc = 0x83 then
        (case modrm s 0 rest of
           Some (k, opd, n) \<Rightarrow>
             (case alu_of k of
                Some op \<Rightarrow>
                  if n + 1 \<le> length rest
                  then Running (advance (plen + n + 1) (alu op w opd (sext8 (rest ! n)) s))
                  else Unsupported
              | None \<Rightarrow> Unsupported)
         | None \<Rightarrow> Unsupported)
      else if opc = 0x89 then
        (case modrm s rr rest of
           Some (rg, opd, n) \<Rightarrow> Running (advance (plen + n) (set_op s w opd (get_op s w (OReg rg))))
         | None \<Rightarrow> Unsupported)
      else if opc = 0x8b then
        (case modrm s rr rest of
           Some (rg, opd, n) \<Rightarrow> Running (advance (plen + n) (set_op s w (OReg rg) (get_op s w opd)))
         | None \<Rightarrow> Unsupported)
      else if opc = 0x8d then
        (case modrm s rr rest of
           Some (rg, OMem a, n) \<Rightarrow> Running (advance (plen + n) (set_op s w (OReg rg) a))
         | _ \<Rightarrow> Unsupported)
      else if 0xb8 \<le> opc \<and> opc < 0xc0 then
        (if w then
           (if 8 \<le> length rest
            then Running (advance (plen + 8) (set_op s True (OReg (opc - 0xb8)) (le_word (take 8 rest))))
            else Unsupported)
         else
           (if 4 \<le> length rest
            then Running (advance (plen + 4) (set_op s False (OReg (opc - 0xb8)) (le_word (take 4 rest))))
            else Unsupported))
      else if opc = 0xc7 then
        (case modrm s 0 rest of
           Some (k, opd, n) \<Rightarrow>
             if k = 0 \<and> n + 4 \<le> length rest
             then Running (advance (plen + n + 4)
                    (set_op s w opd (sext32 (le_word (take 4 (drop n rest))))))
             else Unsupported
         | None \<Rightarrow> Unsupported)
      else if opc = 0x74 then
        (case rest of
           [] \<Rightarrow> Unsupported
         | d # r1 \<Rightarrow> if zf s then jump (plen + 1) (sint d) s else Running (advance (plen + 1) s))
      else if opc = 0x7e then
        (case rest of
           [] \<Rightarrow> Unsupported
         | d # r1 \<Rightarrow> if zf s \<or> sf s \<noteq> ovf s then jump (plen + 1) (sint d) s
                      else Running (advance (plen + 1) s))
      else if opc = 0xe9 then
        (if 4 \<le> length rest
         then jump (plen + 4) (sint (le_word (take 4 rest) :: 32 word)) s else Unsupported)
      else if opc = 0xcd then
        (case rest of [] \<Rightarrow> Unsupported | v # r1 \<Rightarrow> Trapped (unat v) (advance (plen + 1) s))
      else if opc = 0xcc then Trapped 3 (advance plen s)
      else if opc = 0x0f then
        (case rest of
           [] \<Rightarrow> Unsupported
         | b # r1 \<Rightarrow>
            if b = 0x0b then Trapped 6 s
            else (case (setcc_cond (unat b) s, modrm s 0 r1) of
                    (Some c, Some (k, OReg r, n)) \<Rightarrow>
                      if r < 4
                      then Running (advance (plen + 1 + n)
                             (s\<lparr>regs := (regs s)(r := (regs s r AND NOT 0xff) OR (if c then 1 else 0))\<rparr>))
                      else Unsupported
                  | _ \<Rightarrow> Unsupported))
      else if opc = 0xfd then Running (advance plen (s\<lparr>df := True\<rparr>))
      else if opc = 0xfc then Running (advance plen (s\<lparr>df := False\<rparr>))
      else if opc = 0xa5 then
        (let d = (if w then 8 else 4);
             v = get_op s w (OMem (regs s RSI));
             s1 = set_op s w (OMem (regs s RDI)) v
         in Running (advance plen
              (s1\<lparr>regs := ((regs s)(RSI := (if df s then regs s RSI - d else regs s RSI + d)))
                              (RDI := (if df s then regs s RDI - d else regs s RDI + d))\<rparr>)))
      else Unsupported)"

text \<open>One step at the program counter: an optional REX prefix (0x40 to 0x4f), the opcode.\<close>

definition x86_step :: "byte list \<Rightarrow> mstate \<Rightarrow> outcome" where
  "x86_step code s = (case drop (pc s) code of
      [] \<Rightarrow> Unsupported
    | b0 # r1 \<Rightarrow>
        if 0x40 \<le> unat b0 \<and> unat b0 < 0x50 then
          (case r1 of
             [] \<Rightarrow> Unsupported
           | b1 # r2 \<Rightarrow> x86_exec s (unat b0 - 0x40) (unat b1) r2 2)
        else x86_exec s 0 (unat b0) r1 1)"

text \<open>At most \<open>n\<close> steps; the machine stops at the end of the code buffer.\<close>

fun x86_run :: "nat \<Rightarrow> byte list \<Rightarrow> mstate \<Rightarrow> outcome" where
  "x86_run 0 code s = (if pc s = length code then Halted s else Running s)"
| "x86_run (Suc n) code s =
     (if pc s = length code then Halted s
      else case x86_step code s of Running s' \<Rightarrow> x86_run n code s' | out \<Rightarrow> out)"

text \<open>
  Modelled from the spec: the loader, which is not part of the sources at hand. "The loader,
  for each entry, writes an 8-byte little-endian absolute pointer at
  \<^verbatim>\<open>code_buffer[code_offset .. code_offset+8]\<close> to the corresponding runtime object"
  (section 6). \<open>addr\<close> gives the address of the object that an entry refers to.
\<close>

fun link :: "(MemoryReference \<Rightarrow> 64 word) \<Rightarrow> MemoryReference list \<Rightarrow> byte list \<Rightarrow> byte list" where
  "link addr [] code = code"
| "link addr (m # ms) code =
     link addr ms (patch_bytes (code_offset m) (encode_le_uint64_t (addr m)) code)"

subsection \<open>Compiling and running\<close>

text \<open>Tables that are empty but for a given static stack.\<close>

definition empty_tables :: "StackElt list \<Rightarrow> cstate" where
  "empty_tables ss = \<lparr>outputv = [], labels = [], branches = [], memrefs = [], sstack = ss\<rparr>"

text \<open>
  An environment without types and locals, with the offsets of the fields \<^verbatim>\<open>size\<close> and
  \<^verbatim>\<open>data\<close> of a memory instance.
\<close>

definition layout_env :: "int \<Rightarrow> int \<Rightarrow> cenv" where
  "layout_env size_off data_off =
     \<lparr>func_types = [], functypes = [], globaltypes = [],
      ftype = \<lparr>input_types = [], output_types = []\<rparr>,
      locals_md = [], n_locals = 0, n_frame_locals = 0,
      off_compiled_code = 0, off_mem_size = size_off, off_mem_data = data_off,
      off_global_i32 = 0, off_global_i64 = 0, off_global_f32 = 0, off_global_f64 = 0\<rparr>"

text \<open>A memory that is zero but for the given 8-byte cells.\<close>

fun mem_cells :: "(64 word \<times> 64 word) list \<Rightarrow> (64 word \<Rightarrow> byte)" where
  "mem_cells [] = (\<lambda>a. 0)"
| "mem_cells ((a, v) # cs) = write64 (mem_cells cs) a v"

text \<open>A machine at the start of the code, with the given stack pointer, \<^verbatim>\<open>%rdi\<close> and memory.\<close>

definition machine :: "64 word \<Rightarrow> 64 word \<Rightarrow> (64 word \<Rightarrow> byte) \<Rightarrow> mstate" where
  "machine sp di m =
     \<lparr>regs = ((\<lambda>r. 0)(RSP := sp))(RDI := di), mem = m, pc = 0,
      zf = False, sf = False, ovf = False, cf = False, df = False\<rparr>"

text \<open>
  Compile a list of instructions from empty tables with the static stack \<open>ss\<close>, let the
  loader resolve every memory reference to \<open>addr\<close>, and run the code for at most \<open>n\<close> steps.
\<close>

definition run_compiled ::
  "cenv \<Rightarrow> Instr list \<Rightarrow> StackElt list \<Rightarrow> (MemoryReference \<Rightarrow> 64 word) \<Rightarrow> nat \<Rightarrow> mstate
     \<Rightarrow> outcome option" where
  "run_compiled env instrs ss addr n s =
     (case wasmjit_compile_instructions env instrs (empty_tables ss) of
        None \<Rightarrow> None
      | Some st \<Rightarrow> Some (x86_run n (link addr (memrefs st) (outputv st)) s))"

text \<open>The 8-byte cell on top of the physical stack.\<close>

definition top_cell :: "mstate \<Rightarrow> 64 word" where
  "top_cell s = read64 (mem s) (regs s RSP)"

text \<open>The top cell where the code ran to its end, and the vector where it trapped.\<close>

definition final_top :: "outcome option \<Rightarrow> 64 word option" where
  "final_top r = (case r of Some (Halted s) \<Rightarrow> Some (top_cell s) | _ \<Rightarrow> None)"

definition trap_vector :: "outcome option \<Rightarrow> nat option" where
  "trap_vector r = (case r of Some (Trapped v s) \<Rightarrow> Some v | _ \<Rightarrow> None)"

text \<open>A loader that resolves every memory reference to the address 0.\<close>

definition null_addr :: "MemoryReference \<Rightarrow> 64 word" where
  "null_addr m = 0"

text \<open>
  A sample function of type \<open>i32 \<rightarrow> i32\<close>: a block with a conditional branch out of it and a
  return, then a load from the address that the parameter gives.
\<close>

definition sample_type :: FuncType where
  "sample_type = \<lparr>input_types = [VALTYPE_I32], output_types = [VALTYPE_I32]\<rparr>"

definition sample_code :: CodeSectionCode where
  "sample_code =
     \<lparr>locals = [],
      instructions =
        [OPCODE_BLOCK None [OPCODE_GET_LOCAL 0, OPCODE_BR_IF 0, OPCODE_GET_LOCAL 0, OPCODE_RETURN],
         OPCODE_GET_LOCAL 0,
         LOAD_STORE OPCODE_I32_LOAD 0]\<rparr>"

text \<open>The function without parameters, results, locals and instructions.\<close>

definition empty_type :: FuncType where
  "empty_type = \<lparr>input_types = [], output_types = []\<rparr>"

definition empty_code :: CodeSectionCode where
  "empty_code = \<lparr>locals = [], instructions = []\<rparr>"

text \<open>The function without parameters and results whose body is a loop that branches to itself.\<close>

definition loop_code :: CodeSectionCode where
  "loop_code = \<lparr>locals = [], instructions = [OPCODE_LOOP None [OPCODE_BR 0]]\<rparr>"

subsection \<open>Notions that the properties are stated with\<close>

text \<open>
  The tables as \<^verbatim>\<open>wasmjit_compile_function\<close> holds them after the prologue and the body,
  before it fixes the branch points.
\<close>

definition body_tables ::
  "cenv \<Rightarrow> FuncType \<Rightarrow> CodeSectionCode \<Rightarrow> MemoryReference list \<Rightarrow> cstate option" where
  "body_tables env0 type code mrefs =
     (case frame_layout type code of
        None \<Rightarrow> None
      | Some (md, nl, nfl) \<Rightarrow>
          seq [prologue type (map fp_offset md) nfl (nl - length (input_types type)),
               wasmjit_compile_instructions
                 (env0\<lparr>ftype := type, locals_md := md, n_locals := nl, n_frame_locals := nfl\<rparr>)
                 (instructions code)]
            \<lparr>outputv = [], labels = [], branches = [], memrefs = mrefs, sstack = []\<rparr>)"

text \<open>The number of frame locals that \<^verbatim>\<open>wasmjit_compile_function\<close> computes.\<close>

definition frame_locals :: "FuncType \<Rightarrow> CodeSectionCode \<Rightarrow> nat option" where
  "frame_locals type code =
     (case frame_layout type code of None \<Rightarrow> None | Some (md, nl, nfl) \<Rightarrow> Some nfl)"

text \<open>
  The bytes of \<^verbatim>\<open>sub $imm32, %rsp\<close> (\<open>opc = 0xec\<close>) and \<^verbatim>\<open>add $imm32, %rsp\<close> (\<open>opc = 0xc4\<close>)
  for \<open>n\<close> frame locals; no bytes for none.
\<close>

definition frame_bytes :: "byte \<Rightarrow> nat \<Rightarrow> byte list" where
  "frame_bytes opc n =
     (if n = 0 then [] else [0x48, 0x81, opc] @ encode_le_uint32_t (of_nat (n * 8)))"

text \<open>The bytes of the epilogue: \<^verbatim>\<open>pop %rax\<close> for a result, the frame, \<^verbatim>\<open>pop %rbp; retq\<close>.\<close>

definition epilogue_bytes :: "FuncType \<Rightarrow> nat \<Rightarrow> byte list" where
  "epilogue_bytes type nfl =
     (if output_types type \<noteq> [] then [0x58] else []) @ frame_bytes 0xc4 nfl @ [0x5d, 0xc3]"

text \<open>The stack pointer where a run stopped without a trap.\<close>

definition rsp_of :: "outcome option \<Rightarrow> 64 word option" where
  "rsp_of r = (case r of Some (Running s) \<Rightarrow> Some (regs s RSP)
     | Some (Halted s) \<Rightarrow> Some (regs s RSP) | _ \<Rightarrow> None)"

text \<open>Labels and value slots of the static stack above an index.\<close>

definition is_label :: "StackElt \<Rightarrow> bool" where
  "is_label e = (case e of STACK_LABEL a c \<Rightarrow> True | STACK_VALUE t \<Rightarrow> False)"

definition n_labels_above :: "StackElt list \<Rightarrow> nat \<Rightarrow> nat" where
  "n_labels_above elts j = length (filter is_label (drop (Suc j) elts))"

definition n_value_slots_above :: "StackElt list \<Rightarrow> nat \<Rightarrow> nat" where
  "n_value_slots_above elts j = length (filter (\<lambda>e. \<not> is_label e) (drop (Suc j) elts))"

text \<open>
  \<^verbatim>\<open>stack_shift\<close> in the words of the specification, section 4.3:
  "\<open>stack_shift = 8 * (n_value_slots_above_j - (L+1) - arity)\<close>", with the count of the
  value slots strictly above \<open>j\<close> that the claim C5 gives for \<open>n_value_slots_above_j\<close>.
\<close>

definition spec_stack_shift :: "StackElt list \<Rightarrow> nat \<Rightarrow> nat \<Rightarrow> nat \<Rightarrow> int" where
  "spec_stack_shift elts j L arity =
     8 * (int (n_value_slots_above elts j) - (int L + 1) - int arity)"

text \<open>A memory reference whose index is 0 where it refers to a memory or a table.\<close>

definition zero_idx :: "MemoryReference \<Rightarrow> bool" where
  "zero_idx m =
     (if mr_type m = MEMREF_MEM \<or> mr_type m = MEMREF_TABLE then idx m = Some 0 else True)"

text \<open>
  Branch points that lie in ascending order between the offsets \<open>lo\<close> and \<open>hi\<close>, each the
  site of a five-byte jump that overlaps no other.
\<close>

fun sites_ok :: "nat \<Rightarrow> BranchPointElt list \<Rightarrow> nat \<Rightarrow> bool" where
  "sites_ok lo [] hi = (lo \<le> hi)"
| "sites_ok lo (b # bs) hi = (lo \<le> branch_offset b \<and> sites_ok (branch_offset b + 5) bs hi)"

text \<open>
  What a compile step may do to the tables: append to the output, append branch points whose
  sites lie in the appended output, and append memory references that satisfy \<open>zero_idx\<close>.
\<close>

definition frame :: "cstate \<Rightarrow> cstate \<Rightarrow> bool" where
  "frame s s' =
     ((\<exists>new. outputv s' = outputv s @ new)
      \<and> (\<exists>bs. branches s' = branches s @ bs
               \<and> sites_ok (length (outputv s)) bs (length (outputv s')))
      \<and> (\<exists>ms. memrefs s' = memrefs s @ ms \<and> list_all zero_idx ms))"

definition keeps :: "cstep \<Rightarrow> bool" where
  "keeps f = (\<forall>s s'. f s = Some s' \<longrightarrow> frame s s')"

section \<open>Properties\<close>

subsection \<open>Unfolding the primitives\<close>

declare seq.simps [simp del]

lemmas prim_defs =
  seq.simps OUTS_def cstr_def output_buf_def OUTB_def OUT32_def OUT64_def
  when_c_def c_assert_def push_stack_def pop_stack_def assert_peek_def add_memref_def
  add_branch_def patch_def stack_truncate_def INC_LABELS_def push_label_def
  shift_results_def set_label_def block_arity_def movabs_def rexw_def

lemmas ls_defs = compile_load_store_def load_store_access_def is_store_def store_type_def

lemmas x86_defs =
  x86_step_def x86_exec_def modrm_def alu_def alu_of_def alu_res_def alu_ovf_def alu_cf_def
  set_flags_def get_op_def set_op_def push64_def pop64_def advance_def jump_def read64_def
  read32_def write64_def sext8_def sext32_def zext32_def setcc_cond_def
  RAX_def RCX_def RSP_def RBP_def RSI_def RDI_def
  encode_le_uint64_t_def encode_le_uint32_t_def Let_def

lemmas run_defs =
  run_compiled_def empty_tables_def layout_env_def machine_def top_cell_def final_top_def
  trap_vector_def patch_bytes_def

lemma x86_run_numeral:
  "x86_run (numeral k) code s =
     (if pc s = length code then Halted s
      else case x86_step code s of
             Running s' \<Rightarrow> x86_run (pred_numeral k) code s'
           | Halted s' \<Rightarrow> Halted s'
           | Trapped v s' \<Rightarrow> Trapped v s'
           | Unsupported \<Rightarrow> Unsupported)"
  by (simp add: numeral_eq_Suc split: outcome.splits)

subsection \<open>What the compiler does to its tables\<close>

lemma sites_ok_mono: "sites_ok lo bs hi \<Longrightarrow> lo' \<le> lo \<Longrightarrow> hi \<le> hi' \<Longrightarrow> sites_ok lo' bs hi'"
  by (induction bs arbitrary: lo lo') auto

lemma sites_ok_le: "sites_ok lo bs hi \<Longrightarrow> lo \<le> hi"
proof (induction bs arbitrary: lo)
  case Nil
  then show ?case by simp
next
  case (Cons b bs)
  then have "branch_offset b + 5 \<le> hi" by simp
  with Cons.prems show ?case by simp
qed

lemma sites_ok_append:
  "sites_ok lo bs mid \<Longrightarrow> sites_ok mid cs hi \<Longrightarrow> sites_ok lo (bs @ cs) hi"
  by (induction bs arbitrary: lo) (auto intro: sites_ok_mono)

lemma frame_refl [simp]: "frame s s"
  by (simp add: frame_def)

lemma frame_trans: "frame a b \<Longrightarrow> frame b c \<Longrightarrow> frame a c"
  unfolding frame_def
  apply (elim conjE exE)
  apply (intro conjI)
    apply simp
   apply (rule_tac x = "bs @ bsa" in exI)
   apply (simp add: sites_ok_append)
  apply (rule_tac x = "ms @ msa" in exI)
  apply simp
  done

lemma frame_out:
  "outputv s' = outputv s @ new \<Longrightarrow> branches s' = branches s \<Longrightarrow> memrefs s' = memrefs s
     \<Longrightarrow> frame s s'"
  by (simp add: frame_def)

lemma frame_patch:
  assumes "frame a b" and "patch pos bs b = Some c" and "int (length (outputv a)) \<le> pos"
  shows "frame a c"
proof -
  from assms(1) obtain new cs ms where
    o: "outputv b = outputv a @ new" and
    b: "branches b = branches a @ cs" "sites_ok (length (outputv a)) cs (length (outputv b))" and
    m: "memrefs b = memrefs a @ ms" "list_all zero_idx ms"
    by (auto simp: frame_def)
  from assms(2) have c: "c = b\<lparr>outputv := patch_bytes (nat pos) bs (outputv b)\<rparr>"
    and r: "nat pos + length bs \<le> length (outputv b)"
    by (auto simp: patch_def split: if_splits)
  from assms(3) have p: "length (outputv a) \<le> nat pos" by simp
  have "outputv c = outputv a @ (take (nat pos - length (outputv a)) new @ bs
          @ drop (nat pos + length bs - length (outputv a)) new)"
    using p by (simp add: c o patch_bytes_def)
  moreover have "length (outputv c) = length (outputv b)"
    using r by (simp add: c patch_bytes_def)
  ultimately show ?thesis
    using b m by (auto simp: frame_def c)
qed

lemma keepsD: "keeps f \<Longrightarrow> f s = Some s' \<Longrightarrow> frame s s'"
  by (simp add: keeps_def)

lemma keeps_seq_Nil [simp]: "keeps (seq [])"
  by (simp add: keeps_def seq.simps)

lemma keeps_seq_Cons [simp]:
  assumes "keeps f" and "keeps (seq fs)"
  shows "keeps (seq (f # fs))"
  unfolding keeps_def
proof (intro allI impI)
  fix s s' assume "seq (f # fs) s = Some s'"
  then obtain x where "f s = Some x" "seq fs x = Some s'"
    by (auto simp: seq.simps split: option.splits)
  then show "frame s s'"
    using assms unfolding keeps_def by (blast intro: frame_trans)
qed

lemma keeps_when [simp]: "keeps f \<Longrightarrow> keeps (when_c c f)"
  by (simp add: keeps_def when_c_def)

lemma keeps_if [simp]: "keeps f \<Longrightarrow> keeps g \<Longrightarrow> keeps (if c then f else g)"
  by simp

lemma keeps_None [simp]: "keeps (\<lambda>st. None)"
  by (simp add: keeps_def)

lemma keeps_prims [simp]:
  "keeps (OUTS s)" "keeps (OUTB b)" "keeps (OUT32 v)" "keeps (OUT64 w)"
  "keeps (output_buf bs)" "keeps (c_assert c)"
  "keeps (push_stack t)" "keeps pop_stack" "keeps (assert_peek t)"
  "keeps (stack_truncate n)" "keeps INC_LABELS"
  "keeps (push_label a l)" "keeps (shift_results i a)" "keeps (set_label l n2)"
  "keeps (rexw b2)"
  by (auto simp: keeps_def prim_defs Let_def frame_def split: if_splits)

lemma keeps_memref [simp]:
  "(t \<noteq> MEMREF_MEM \<and> t \<noteq> MEMREF_TABLE) \<or> i = Some 0 \<Longrightarrow> keeps (add_memref t off i)"
  by (auto simp: keeps_def add_memref_def frame_def zero_idx_def)

lemma keeps_jmp_branch [simp]:
  "keeps (\<lambda>st1. seq [OUTS [0xe9, 0x90, 0x90, 0x90, 0x90], add_branch (length (outputv st1)) c] st1)"
  by (auto simp: keeps_def prim_defs frame_def seq.simps)

lemma keeps_br_code [simp]: "keeps (br_code arity stack_shift cont)"
  by (simp add: br_code_def)

lemma keeps_emit_br_code [simp]: "keeps (emit_br_code l)"
  unfolding keeps_def emit_br_code_def Let_def
  by (auto split: if_splits StackElt.splits dest: keepsD [OF keeps_br_code])

lemma keeps_branch_jmp [simp]:
  "keeps (seq [(\<lambda>st. add_branch (length (outputv st)) c st), OUTS [0xe9, 0x90, 0x90, 0x90, 0x90]])"
  by (auto simp: keeps_def prim_defs frame_def)

lemma keeps_load_store_access [simp]: "keeps (load_store_access op)"
  by (cases op) (simp_all add: load_store_access_def)

lemma keeps_load_store [simp]: "keeps (compile_load_store env op offset)"
  by (simp add: compile_load_store_def)

lemma keeps_return [simp]: "keeps (compile_return env)"
  by (simp add: compile_return_def Let_def)

lemma keeps_locals [simp]:
  "keeps (compile_get_local env i)" "keeps (compile_set_local env i)"
  "keeps (compile_tee_local env i)"
  by (simp_all add: compile_get_local_def compile_set_local_def compile_tee_local_def)

lemma keeps_globals [simp]:
  "keeps (compile_get_global env i)" "keeps (compile_set_global env i)"
  by (simp_all add: compile_get_global_def compile_set_global_def Let_def)

lemma keeps_cmp [simp]: "keeps (compile_cmp op)" "keeps (compile_fcmp fop)"
  by (simp_all add: compile_cmp_def compile_fcmp_def Let_def split: fcmp_op.splits)

lemma keeps_arith_code [simp]: "keeps (arith_code op b)"
  by (cases op) (simp_all add: arith_code_def)

lemma keeps_arith [simp]:
  "keeps (compile_arith op)" "keeps (compile_divrem dop)" "keeps (compile_shift sop)"
  "keeps (compile_farith fop)"
  by (simp_all add: compile_arith_def compile_divrem_def compile_shift_def compile_farith_def
        Let_def split: farith_op.splits)

lemma frame_length: "frame s s' \<Longrightarrow> length (outputv s) \<le> length (outputv s')"
  by (auto simp: frame_def)

lemma call_args_frame:
  "call_args inputs aligned k i n_movs n_xmm_movs n_stack st = Some (n, st') \<Longrightarrow> frame st st'"
proof (induction k arbitrary: i n_movs n_xmm_movs n_stack st)
  case 0
  then show ?case by simp
next
  case (Suc k)
  have k: "\<And>bs v. keeps (seq [OUTS bs, OUT32 v])" by simp
  have step: "\<And>bs v s1. seq [OUTS bs, OUT32 v] st = Some s1 \<Longrightarrow> frame st s1"
    by (rule keepsD [OF k])
  from Suc.prems show ?case
    by (auto simp: Let_def split: if_splits option.splits
          dest!: step Suc.IH intro: frame_trans)
qed

lemma keeps_truncate_inputs [simp]:
  "keeps (\<lambda>s. if k \<le> length (sstack s) then stack_truncate (length (sstack s) - k) s else None)"
  by (auto simp: keeps_def stack_truncate_def frame_def split: if_splits)

lemma keeps_call_common [simp]: "keeps (compile_call_common ft d)"
  unfolding keeps_def
proof (intro allI impI)
  fix s s' assume a: "compile_call_common ft d s = Some s'"
  from a obtain s1 n s2 where
    1: "(when_c ((d + count_stack_args (input_types ft) 0 0) mod 2 \<noteq> 0) (OUTS [0x48, 0x83, 0xec, 0x08])) s = Some s1" and
    2: "call_args (input_types ft) ((d + count_stack_args (input_types ft) 0 0) mod 2) (length (input_types ft)) 0 0 0 0 s1 = Some (n, s2)" and
    3: "(seq [
          OUTS [0xff, 0xd0],
          OUTS [0x48, 0x81, 0xc4],
          OUT32 (of_nat ((n + length (input_types ft) + (d + count_stack_args (input_types ft) 0 0) mod 2) * 8)),
          (\<lambda>s. if length (input_types ft) \<le> length (sstack s)
               then stack_truncate (length (sstack s) - length (input_types ft)) s else None),
          when_c (output_types ft \<noteq> []) (seq [
            c_assert (length (output_types ft) = 1),
            when_c (hd (output_types ft) = VALTYPE_F32 \<or> hd (output_types ft) = VALTYPE_F64)
              (OUTS [0x66, 0x48, 0x0f, 0x7e, 0xc0]),
            OUTS [0x50],
            push_stack (hd (output_types ft))])]) s2 = Some s'"
    unfolding compile_call_common_def Let_def
    by (auto split: option.splits)
  have k1: "keeps (when_c ((d + count_stack_args (input_types ft) 0 0) mod 2 \<noteq> 0) (OUTS [0x48, 0x83, 0xec, 0x08]))" by simp
  have k3: "keeps (seq [
          OUTS [0xff, 0xd0],
          OUTS [0x48, 0x81, 0xc4],
          OUT32 (of_nat ((n + length (input_types ft) + (d + count_stack_args (input_types ft) 0 0) mod 2) * 8)),
          (\<lambda>s. if length (input_types ft) \<le> length (sstack s)
               then stack_truncate (length (sstack s) - length (input_types ft)) s else None),
          when_c (output_types ft \<noteq> []) (seq [
            c_assert (length (output_types ft) = 1),
            when_c (hd (output_types ft) = VALTYPE_F32 \<or> hd (output_types ft) = VALTYPE_F64)
              (OUTS [0x66, 0x48, 0x0f, 0x7e, 0xc0]),
            OUTS [0x50],
            push_stack (hd (output_types ft))])])" by simp
  have "frame s s1" by (rule keepsD [OF k1 1])
  moreover have "frame s1 s2" by (rule call_args_frame [OF 2])
  moreover have "frame s2 s'" by (rule keepsD [OF k3 3])
  ultimately show "frame s s'" by (blast intro: frame_trans)
qed

lemma keeps_call [simp]: "keeps (compile_call env fidx)"
  unfolding keeps_def
proof (intro allI impI)
  fix s s' assume a: "compile_call env fidx s = Some s'"
  then obtain s1 where
    1: "(seq [add_memref MEMREF_FUNC (\<lambda>n. n + 2) (Some fidx), OUTS (movabs 0xb8),
             OUTS [0x48, 0x8b, 0x40], OUTB (off_compiled_code env)]) s = Some s1" and
    2: "compile_call_common (functypes env ! fidx) (stack_depth env s) s1 = Some s'"
    unfolding compile_call_def by (auto split: option.splits if_splits)
  have k1: "keeps (seq [add_memref MEMREF_FUNC (\<lambda>n. n + 2) (Some fidx), OUTS (movabs 0xb8),
             OUTS [0x48, 0x8b, 0x40], OUTB (off_compiled_code env)])" by simp
  have "frame s s1" by (rule keepsD [OF k1 1])
  moreover have "frame s1 s'" by (rule keepsD [OF keeps_call_common 2])
  ultimately show "frame s s'" by (blast intro: frame_trans)
qed

lemma keeps_call_indirect [simp]: "keeps (compile_call_indirect env typeidx)"
  unfolding keeps_def
proof (intro allI impI)
  fix s s' assume a: "compile_call_indirect env typeidx s = Some s'"
  define d where "d = stack_depth env s"
  from a obtain s1 where
    1: "(seq [assert_peek VALTYPE_I32, pop_stack,
             OUTS (movabs 0xbf), add_memref MEMREF_TABLE (\<lambda>n. n - 8) (Some 0),
             OUTS (movabs 0xbe), add_memref MEMREF_TYPE (\<lambda>n. n - 8) (Some typeidx),
             OUTS [0x5a],
             OUTS (movabs 0xb8), add_memref MEMREF_RESOLVE_INDIRECT_CALL (\<lambda>n. n - 8) None,
             when_c (d mod 2 \<noteq> 0) (OUTS [0x48, 0x83, 0xec, 0x08]),
             OUTS [0xff, 0xd0],
             when_c (d mod 2 \<noteq> 0) (OUTS [0x48, 0x83, 0xc4, 0x08])]) s = Some s1" and
    2: "compile_call_common (func_types env ! typeidx) d s1 = Some s'"
    unfolding compile_call_indirect_def Let_def d_def by (auto split: option.splits if_splits)
  have k1: "keeps (seq [assert_peek VALTYPE_I32, pop_stack,
             OUTS (movabs 0xbf), add_memref MEMREF_TABLE (\<lambda>n. n - 8) (Some 0),
             OUTS (movabs 0xbe), add_memref MEMREF_TYPE (\<lambda>n. n - 8) (Some typeidx),
             OUTS [0x5a],
             OUTS (movabs 0xb8), add_memref MEMREF_RESOLVE_INDIRECT_CALL (\<lambda>n. n - 8) None,
             when_c (d mod 2 \<noteq> 0) (OUTS [0x48, 0x83, 0xec, 0x08]),
             OUTS [0xff, 0xd0],
             when_c (d mod 2 \<noteq> 0) (OUTS [0x48, 0x83, 0xc4, 0x08])])" by simp
  have "frame s s1" by (rule keepsD [OF k1 1])
  moreover have "frame s1 s'" by (rule keepsD [OF keeps_call_common 2])
  ultimately show "frame s s'" by (blast intro: frame_trans)
qed

lemma keeps_br_if [simp]: "keeps (compile_br_if l)"
  unfolding keeps_def
proof (intro allI impI)
  fix s s' assume a: "compile_br_if l s = Some s'"
  then obtain s1 s2 where
    1: "(seq [assert_peek VALTYPE_I32, pop_stack, OUTS [0x5e], OUTS [0x85, 0xf6]]) s = Some s1" and
    2: "(seq [OUTS [0x74, 0x01], emit_br_code l]) s1 = Some s2" and
    3: "patch (int (length (outputv s1)))
          [0x74, word_of_int (int (length (outputv s2)) - int (length (outputv s1)) - 2)] s2 = Some s'"
    unfolding compile_br_if_def Let_def by (auto split: option.splits if_splits)
  have k1: "keeps (seq [assert_peek VALTYPE_I32, pop_stack, OUTS [0x5e], OUTS [0x85, 0xf6]])" by simp
  have k2: "keeps (seq [OUTS [0x74, 0x01], emit_br_code l])" by simp
  have "frame s s1" by (rule keepsD [OF k1 1])
  moreover have "frame s1 s2" by (rule keepsD [OF k2 2])
  then have "frame s1 s'" using 3 by (rule frame_patch) simp
  ultimately show "frame s s'" by (blast intro: frame_trans)
qed

lemma keeps_seq_map: "(\<And>x. keeps (f x)) \<Longrightarrow> keeps (seq (map f xs))"
  by (induction xs) simp_all

lemma OUTS_length: "OUTS bs s = Some s' \<Longrightarrow> length (outputv s') = length (outputv s) + length (cstr bs)"
  by (auto simp: OUTS_def output_buf_def)

lemma br_table_entries_frame:
  assumes "br_table_entries table_offset i ls st = Some (ejs, st')"
    and "frame sb st" and "length (outputv sb) \<le> table_offset"
  shows "frame sb st' \<and> (\<forall>e \<in> set ejs. length (outputv sb) + 5 \<le> e)"
  using assms
proof (induction ls arbitrary: i st ejs)
  case Nil
  then show ?case by simp
next
  case (Cons l ls)
  let ?p = "(\<lambda>s. patch (int table_offset + int i * 4)
              (encode_le_uint32_t (of_int (int (length (outputv s)) - int table_offset))) s)"
  from Cons.prems(1) obtain s1 ejs' where
    1: "seq [?p, emit_br_code l, OUTS [0xe9, 0x90, 0x90, 0x90, 0x90]] st = Some s1" and
    2: "br_table_entries table_offset (i + 1) ls s1 = Some (ejs', st')" and
    e: "ejs = length (outputv s1) # ejs'"
    by (auto split: option.splits)
  from 1 obtain sa sc where
    a: "?p st = Some sa" and
    c: "emit_br_code l sa = Some sc" and
    d: "OUTS [0xe9, 0x90, 0x90, 0x90, 0x90] sc = Some s1"
    by (auto simp: seq.simps split: option.splits)
  have fa: "frame sb sa"
    using Cons.prems(2) a by (rule frame_patch) (use Cons.prems(3) in simp)
  have fc: "frame sa sc" by (rule keepsD [OF keeps_emit_br_code c])
  have kd: "keeps (OUTS [0xe9, 0x90, 0x90, 0x90, 0x90])" by simp
  have fd: "frame sc s1" by (rule keepsD [OF kd d])
  have f1: "frame sb s1" using fa fc fd by (blast intro: frame_trans)
  have "length (outputv sb) \<le> length (outputv sc)"
    using fa fc by (blast intro: frame_trans frame_length)
  moreover have "length (outputv s1) = length (outputv sc) + 5"
    using OUTS_length [OF d] by (simp add: cstr_def)
  ultimately have len: "length (outputv sb) + 5 \<le> length (outputv s1)" by simp
  from Cons.IH [OF 2 f1 Cons.prems(3)] len e show ?case by simp
qed

lemma br_table_ends_frame:
  assumes "br_table_ends es st = Some st'" and "frame sb st"
    and "\<forall>e \<in> set es. length (outputv sb) + 5 \<le> e"
  shows "frame sb st'"
  using assms
proof (induction es arbitrary: st)
  case Nil
  then show ?case by simp
next
  case (Cons e es)
  from Cons.prems(1) obtain s1 where
    1: "patch (int e - 4) (encode_le_uint32_t (of_int (int (length (outputv st)) - int e))) st = Some s1"
    and 2: "br_table_ends es s1 = Some st'"
    by (auto split: option.splits)
  have "frame sb s1"
    using Cons.prems(2) 1 by (rule frame_patch) (use Cons.prems(3) in simp)
  from Cons.IH [OF 2 this] Cons.prems(3) show ?case by simp
qed

lemma keeps_br_table [simp]: "keeps (compile_br_table ls l)"
  unfolding keeps_def
proof (intro allI impI)
  fix s s' assume a: "compile_br_table ls l s = Some s'"
  let ?A = "seq [OUTS [0x58], pop_stack, OUTS [0x48, 0x3d], OUT32 (of_nat (length ls)),
                 OUTS [0x0f, 0x83, 0x90, 0x90, 0x90, 0x90]]"
  let ?B = "seq [OUTS [0x48, 0x8d, 0x15, 0x09, 0x00, 0x00, 0x00], OUTS [0x48, 0x63, 0x04, 0x82],
                 OUTS [0x48, 0x01, 0xd0], OUTS [0xff, 0xe0]]"
  let ?C = "seq (map (\<lambda>l. OUTS [0x90, 0x90, 0x90, 0x90]) ls)"
  from a obtain s1 s2 s3 ejs s4 where
    1: "?A s = Some s1" and 2: "?B s1 = Some s2" and 3: "?C s2 = Some s3" and
    4: "br_table_entries (length (outputv s2)) 0 ls s3 = Some (ejs, s4)" and
    5: "seq [(\<lambda>t. patch (int (length (outputv s1)) - 4)
                 (encode_le_uint32_t (of_int (int (length (outputv t)) - int (length (outputv s1))))) t),
             emit_br_code l, br_table_ends ejs] s4 = Some s'"
    unfolding compile_br_table_def Let_def by (auto split: option.splits)
  have kA: "keeps ?A" by simp
  have kB: "keeps ?B" by simp
  have kC: "keeps ?C" by (rule keeps_seq_map) simp
  have f1: "frame s s1" by (rule keepsD [OF kA 1])
  have f2: "frame s s2" using f1 keepsD [OF kB 2] by (blast intro: frame_trans)
  have f3: "frame s s3" using f2 keepsD [OF kC 3] by (blast intro: frame_trans)
  have l1: "length (outputv s) + 4 \<le> length (outputv s1)"
    using 1 by (auto simp: prim_defs split: option.splits if_splits)
  have l2: "length (outputv s) \<le> length (outputv s2)" by (rule frame_length [OF f2])
  from br_table_entries_frame [OF 4 f3 l2]
  have f4: "frame s s4" and ej: "\<forall>e \<in> set ejs. length (outputv s) + 5 \<le> e" by simp_all
  from 5 obtain s5 s6 where
    p: "patch (int (length (outputv s1)) - 4)
          (encode_le_uint32_t (of_int (int (length (outputv s4)) - int (length (outputv s1))))) s4 = Some s5"
    and q: "emit_br_code l s5 = Some s6" and r: "br_table_ends ejs s6 = Some s'"
    by (auto simp: seq.simps split: option.splits)
  have f5: "frame s s5" using f4 p by (rule frame_patch) (use l1 in simp)
  have f6: "frame s s6" using f5 keepsD [OF keeps_emit_br_code q] by (blast intro: frame_trans)
  show "frame s s'" by (rule br_table_ends_frame [OF r f6 ej])
qed

lemma keeps_leaf [simp]: "keeps (compile_leaf env i)"
  by (cases i) (simp_all split: convert_op.splits)

lemma leaf_frame: "compile_leaf env i st = Some st' \<Longrightarrow> frame st st'"
  by (rule keepsD [OF keeps_leaf])

lemma keeps_set_label_here [simp]: "keeps (\<lambda>s. set_label l (length (outputv s)) s)"
  by (auto simp: keeps_def set_label_def frame_def split: if_splits)

lemma bind_SomeE:
  assumes "(case x of None \<Rightarrow> None | Some y \<Rightarrow> f y) = Some z"
  obtains y where "x = Some y" and "f y = Some z"
  using assms by (cases x) auto

lemma block_body_frame:
  assumes a: "seq [INC_LABELS, push_label ar l] st = Some s1"
    and b: "frame s1 s2"
    and c: "seq [shift_results i ar, f] s2 = Some st'"
    and k: "keeps f"
  shows "frame st st'"
proof -
  have k1: "keeps (seq [INC_LABELS, push_label ar l])" by simp
  have k2: "keeps (seq [shift_results i ar, f])" using k by simp
  from keepsD [OF k1 a] b keepsD [OF k2 c] show ?thesis
    by (blast intro: frame_trans)
qed

lemma compile_frame:
  "wasmjit_compile_instruction env i st = Some st' \<Longrightarrow> frame st st'"
  "wasmjit_compile_instructions env instrs st = Some st' \<Longrightarrow> frame st st'"
proof (induction env i st and env instrs st arbitrary: st' and st'
    rule: wasmjit_compile_instruction_wasmjit_compile_instructions.induct)
  case (1 env blocktype body st)
  from "1.prems" obtain s1 s2 where
    a: "seq [INC_LABELS, push_label (block_arity blocktype) (length (labels st))] st = Some s1" and
    b: "wasmjit_compile_instructions env body s1 = Some s2" and
    c: "seq [shift_results (length (sstack st)) (block_arity blocktype),
             (\<lambda>s. set_label (length (labels st)) (length (outputv s)) s)] s2 = Some st'"
    by (auto simp: Let_def split: option.splits)
  from a "1.IH" [OF refl refl refl a b] c show ?case
    by (rule block_body_frame) simp
next
  case (2 env blocktype body st)
  from "2.prems" obtain s1 s2 where
    a: "seq [INC_LABELS, push_label (block_arity blocktype) (length (labels st))] st = Some s1" and
    b: "wasmjit_compile_instructions env body s1 = Some s2" and
    c: "seq [shift_results (length (sstack st)) (block_arity blocktype),
             set_label (length (labels st)) (length (outputv st))] s2 = Some st'"
    by (auto simp: Let_def split: option.splits)
  from a "2.IH" [OF refl refl refl refl a b] c show ?case
    by (rule block_body_frame) simp
next
  case (3 env blocktype instructions_then instructions_else st)
  let ?A = "seq [assert_peek VALTYPE_I32, pop_stack, OUTS [0x58], OUTS [0x85, 0xc0]]"
  from "3.prems" obtain s1 s2 s3 s4 s6 where
    1: "?A st = Some s1" and
    2: "seq [OUTS [0x0f, 0x84, 0x90, 0x90, 0x90, 0x90], INC_LABELS,
             push_label (block_arity blocktype) (length (labels s1))] s1 = Some s2" and
    3: "wasmjit_compile_instructions env instructions_then s2 = Some s3" and
    4: "seq [when_c (instructions_else \<noteq> []) (OUTS [0xe9, 0x90, 0x90, 0x90, 0x90]),
             (\<lambda>s. patch (int (length (outputv s1) + 2))
                (encode_le_uint32_t
                   (of_int (int (length (outputv s)) - int (length (outputv s1) + 2) - 4))) s)] s3
          = Some s4" and
    5: "(if instructions_else \<noteq> []
         then (case wasmjit_compile_instructions env instructions_else s4 of
                 None \<Rightarrow> None
               | Some s5 \<Rightarrow>
                   patch (int (length (outputv s3) + 1))
                     (encode_le_uint32_t
                        (of_int (int (length (outputv s5)) - int (length (outputv s3) + 1) - 4))) s5)
         else Some s4) = Some s6" and
    6: "seq [shift_results (length (sstack s1)) (block_arity blocktype),
             (\<lambda>s. set_label (length (labels s1)) (length (outputv s)) s)] s6 = Some st'"
    unfolding wasmjit_compile_instruction.simps Let_def
    by (elim bind_SomeE) blast
  let ?B = "seq [OUTS [0x0f, 0x84, 0x90, 0x90, 0x90, 0x90], INC_LABELS,
                 push_label (block_arity blocktype) (length (labels s1))]"
  let ?jte = "length (outputv s1) + 2"
  let ?jtae = "length (outputv s3) + 1"
  let ?E = "seq [shift_results (length (sstack s1)) (block_arity blocktype),
                 (\<lambda>s. set_label (length (labels s1)) (length (outputv s)) s)]"
  have kA: "keeps ?A" by simp
  have kB: "keeps ?B" by simp
  have kE: "keeps ?E" by simp
  have f1: "frame st s1" by (rule keepsD [OF kA 1])
  have f2: "frame s1 s2" by (rule keepsD [OF kB 2])
  have f3: "frame s2 s3" by (rule "3.IH"(1) [OF 1 refl refl refl refl 2 3])
  have f13: "frame s1 s3" using f2 f3 by (blast intro: frame_trans)
  from 4 obtain sm where
    m: "when_c (instructions_else \<noteq> []) (OUTS [0xe9, 0x90, 0x90, 0x90, 0x90]) s3 = Some sm" and
    p: "patch (int ?jte) (encode_le_uint32_t (of_int (int (length (outputv sm)) - int ?jte - 4))) sm
          = Some s4"
    by (auto simp: seq.simps split: option.splits)
  have km: "keeps (when_c (instructions_else \<noteq> []) (OUTS [0xe9, 0x90, 0x90, 0x90, 0x90]))" by simp
  have f1m: "frame s1 sm" using f13 keepsD [OF km m] by (blast intro: frame_trans)
  have f14: "frame s1 s4" using f1m p by (rule frame_patch) simp
  have f16: "frame s1 s6"
  proof (cases "instructions_else \<noteq> []")
    case True
    with 5 obtain s5 where
      e: "wasmjit_compile_instructions env instructions_else s4 = Some s5" and
      q: "patch (int ?jtae) (encode_le_uint32_t (of_int (int (length (outputv s5)) - int ?jtae - 4))) s5
            = Some s6"
      by (auto split: option.splits)
    have f45: "frame s4 s5"
      by (rule "3.IH"(2) [OF 1 refl refl refl refl 2 3 refl 4 True e])
    have f15: "frame s1 s5" using f14 f45 by (blast intro: frame_trans)
    have "length (outputv s1) \<le> length (outputv s3)" by (rule frame_length [OF f13])
    then have "int (length (outputv s1)) \<le> int ?jtae" by simp
    with f15 q show ?thesis by (rule frame_patch)
  next
    case False
    with 5 f14 show ?thesis by simp
  qed
  from f1 f16 keepsD [OF kE 6] show ?case by (blast intro: frame_trans)
next
  case (5 env st)
  then show ?case by simp
next
  case (6 env i instructions st)
  from "6.prems" obtain s1 where
    a: "wasmjit_compile_instruction env i st = Some s1" and
    b: "wasmjit_compile_instructions env instructions s1 = Some st'"
    by (auto split: option.splits)
  from "6.IH"(1) [OF a] "6.IH"(2) [OF a b] show ?case by (blast intro: frame_trans)
qed (auto simp del: compile_leaf.simps dest: leaf_frame)


subsection \<open>The function driver\<close>

lemma length_encode32 [simp]: "length (encode_le_uint32_t v) = 4"
  by (simp add: encode_le_uint32_t_def)

lemma spill_args_frame: "spill_args ps a b st = Some st' \<Longrightarrow> frame st st'"
proof (induction ps arbitrary: a b st)
  case Nil
  then show ?case by simp
next
  case (Cons p ps)
  obtain t off where p: "p = (t, off)" by (cases p)
  have k: "\<And>bs. keeps (seq [OUTS bs, OUTB off])" by simp
  show ?case
  proof (cases "off > 0")
    case True
    with Cons.prems p show ?thesis by (auto intro: Cons.IH)
  next
    case False
    with Cons.prems p obtain bs s1 a' b' where
      1: "seq [OUTS bs, OUTB off] st = Some s1" and 2: "spill_args ps a' b' s1 = Some st'"
      by (auto split: if_splits option.splits)
    from keepsD [OF k 1] Cons.IH [OF 2] show ?thesis by (blast intro: frame_trans)
  qed
qed

lemma keeps_spill_args [simp]: "keeps (spill_args ps a b)"
  by (simp add: keeps_def spill_args_frame)

lemma keeps_init_locals [simp]: "keeps (init_locals k)"
  by (simp add: init_locals_def)

lemma keeps_frame_adjust [simp]: "keeps (frame_adjust opc n)"
  by (simp add: frame_adjust_def)

lemma keeps_prologue [simp]: "keeps (prologue type offs nfl k)"
  by (simp add: prologue_def)

lemma keeps_instructions [simp]: "keeps (wasmjit_compile_instructions env instrs)"
  by (simp add: keeps_def compile_frame)

lemma keeps_assert_state [simp]: "keeps (\<lambda>st. c_assert (P st) st)"
  by (auto simp: keeps_def c_assert_def split: if_splits)

lemma keeps_epilogue [simp]: "keeps (epilogue type nfl)"
  by (simp add: epilogue_def)

text \<open>Fixing a branch point rewrites five bytes at its site and nothing else.\<close>

lemma fix_branch_effect:
  assumes "fix_branch b st = Some st'"
  shows "\<exists>t. continuation_offset b st = Some t
           \<and> branch_offset b + 5 \<le> length (outputv st)
           \<and> st' = st\<lparr>outputv := take (branch_offset b) (outputv st)
                  @ (0xe9 # encode_le_uint32_t (of_int (int t - int (branch_offset b) - 5)))
                  @ drop (branch_offset b + 5) (outputv st)\<rparr>"
  using assms
  by (auto simp: fix_branch_def patch_def patch_bytes_def split: option.splits if_splits)

lemma continuation_offset_cong:
  "labels s' = labels s \<Longrightarrow> length (outputv s') = length (outputv s)
     \<Longrightarrow> continuation_offset b s' = continuation_offset b s"
  by (simp add: continuation_offset_def)

lemma fix_branches_effect:
  assumes "fix_branches bs st = Some st'" and "sites_ok lo bs hi"
  shows "length (outputv st') = length (outputv st) \<and> take lo (outputv st') = take lo (outputv st)
           \<and> labels st' = labels st \<and> branches st' = branches st \<and> memrefs st' = memrefs st
           \<and> sstack st' = sstack st"
  using assms
proof (induction bs arbitrary: st lo)
  case Nil
  then show ?case by simp
next
  case (Cons b bs)
  from Cons.prems(1) obtain s1 where
    1: "fix_branch b st = Some s1" and 2: "fix_branches bs s1 = Some st'"
    by (auto split: option.splits)
  from Cons.prems(2) have lo: "lo \<le> branch_offset b" and
    ok: "sites_ok (branch_offset b + 5) bs hi" by simp_all
  from fix_branch_effect [OF 1] obtain t where
    r: "branch_offset b + 5 \<le> length (outputv st)" and
    e: "s1 = st\<lparr>outputv := take (branch_offset b) (outputv st)
                  @ (0xe9 # encode_le_uint32_t (of_int (int t - int (branch_offset b) - 5)))
                  @ drop (branch_offset b + 5) (outputv st)\<rparr>"
    by blast
  have l1: "length (outputv s1) = length (outputv st)"
    using r by (simp add: e)
  have t1: "take lo (outputv s1) = take lo (outputv st)"
    using lo r by (simp add: e)
  from Cons.IH [OF 2 ok] have
    i: "length (outputv st') = length (outputv s1)"
       "take (branch_offset b + 5) (outputv st') = take (branch_offset b + 5) (outputv s1)"
       "labels st' = labels s1" "branches st' = branches s1" "memrefs st' = memrefs s1"
       "sstack st' = sstack s1"
    by simp_all
  have "take lo (outputv st') = take lo (take (branch_offset b + 5) (outputv st'))"
    using lo by (simp add: min_def)
  also have "\<dots> = take lo (outputv s1)"
    using lo by (simp add: i(2) min_def)
  finally have "take lo (outputv st') = take lo (outputv st)" using t1 by simp
  with i l1 show ?case by (simp add: e)
qed

lemma fix_branches_sites:
  assumes "fix_branches bs st = Some st'" and "sites_ok lo bs hi"
  shows "\<forall>b \<in> set bs. \<exists>t. continuation_offset b st = Some t
           \<and> branch_offset b + 5 \<le> length (outputv st)
           \<and> take 5 (drop (branch_offset b) (outputv st'))
               = 0xe9 # encode_le_uint32_t (of_int (int t - int (branch_offset b) - 5))"
  using assms
proof (induction bs arbitrary: st lo)
  case Nil
  then show ?case by simp
next
  case (Cons b bs)
  from Cons.prems(1) obtain s1 where
    1: "fix_branch b st = Some s1" and 2: "fix_branches bs s1 = Some st'"
    by (auto split: option.splits)
  from Cons.prems(2) have ok: "sites_ok (branch_offset b + 5) bs hi" by simp
  from fix_branch_effect [OF 1] obtain t where
    c: "continuation_offset b st = Some t" and
    r: "branch_offset b + 5 \<le> length (outputv st)" and
    e: "s1 = st\<lparr>outputv := take (branch_offset b) (outputv st)
                  @ (0xe9 # encode_le_uint32_t (of_int (int t - int (branch_offset b) - 5)))
                  @ drop (branch_offset b + 5) (outputv st)\<rparr>"
    by blast
  let ?site = "0xe9 # encode_le_uint32_t (of_int (int t - int (branch_offset b) - 5))"
  have l1: "length (outputv s1) = length (outputv st)" and lb: "labels s1 = labels st"
    using r by (simp_all add: e)
  from fix_branches_effect [OF 2 ok] have
    k: "take (branch_offset b + 5) (outputv st') = take (branch_offset b + 5) (outputv s1)"
    by simp
  have "take 5 (drop (branch_offset b) (outputv st'))
          = drop (branch_offset b) (take (branch_offset b + 5) (outputv st'))"
    by (simp add: drop_take)
  also have "\<dots> = drop (branch_offset b) (take (branch_offset b + 5) (outputv s1))"
    by (simp add: k)
  also have "\<dots> = ?site"
    using r by (simp add: e)
  finally have head: "take 5 (drop (branch_offset b) (outputv st')) = ?site" .
  have rest: "\<forall>b' \<in> set bs. \<exists>t. continuation_offset b' st = Some t
           \<and> branch_offset b' + 5 \<le> length (outputv st)
           \<and> take 5 (drop (branch_offset b') (outputv st'))
               = 0xe9 # encode_le_uint32_t (of_int (int t - int (branch_offset b') - 5))"
    using Cons.IH [OF 2 ok] continuation_offset_cong [OF lb l1] l1 by simp
  from c r head rest show ?case by auto
qed


lemma frame_adjust_output:
  "frame_adjust [0x48, 0x81, opc] nfl s = Some s' \<Longrightarrow> opc \<noteq> 0
     \<Longrightarrow> s' = s\<lparr>outputv := outputv s @ frame_bytes opc nfl\<rparr> \<and> (nfl \<noteq> 0 \<longrightarrow> nfl * 8 \<le> INT32_MAX)"
  by (auto simp: frame_adjust_def frame_bytes_def prim_defs split: if_splits)

lemma epilogue_output:
  assumes "epilogue type nfl s = Some s'"
  shows "outputv s' = outputv s @ epilogue_bytes type nfl \<and> memrefs s' = memrefs s"
proof -
  let ?A = "when_c (output_types type \<noteq> []) (seq [
            c_assert (length (output_types type) = 1),
            (\<lambda>st. c_assert (length (sstack st) = 1) st),
            assert_peek (hd (output_types type)),
            pop_stack,
            OUTS [0x58]])"
  from assms obtain s1 s2 where
    1: "?A s = Some s1" and
    2: "frame_adjust [0x48, 0x81, 0xc4] nfl s1 = Some s2" and
    3: "seq [OUTS [0x5d], OUTS [0xc3]] s2 = Some s'"
    unfolding epilogue_def by (auto simp: seq.simps split: option.splits)
  from 1 have o1: "outputv s1 = outputv s @ (if output_types type \<noteq> [] then [0x58] else [])"
    and m1: "memrefs s1 = memrefs s"
    by (auto simp: prim_defs split: if_splits option.splits)
  from frame_adjust_output [OF 2] have o2: "outputv s2 = outputv s1 @ frame_bytes 0xc4 nfl"
    and m2: "memrefs s2 = memrefs s1" by auto
  from 3 have o3: "outputv s' = outputv s2 @ [0x5d, 0xc3]" and m3: "memrefs s' = memrefs s2"
    by (auto simp: prim_defs split: if_splits option.splits)
  show ?thesis by (simp add: o1 o2 o3 m1 m2 m3 epilogue_bytes_def)
qed

lemma spill_args_branches: "spill_args ps a b st = Some st' \<Longrightarrow> branches st' = branches st"
proof (induction ps arbitrary: a b st)
  case Nil
  then show ?case by simp
next
  case (Cons p ps)
  obtain t off where p: "p = (t, off)" by (cases p)
  from Cons.prems p show ?case
    by (auto simp: prim_defs split: if_splits option.splits dest!: Cons.IH)
qed

lemma prologue_output:
  assumes "prologue type offs nfl k s = Some s'"
  shows "(\<exists>rest. outputv s' = outputv s @ [0x55, 0x48, 0x89, 0xe5, 0xcc] @ frame_bytes 0xec nfl @ rest)
           \<and> branches s' = branches s"
proof -
  from assms obtain s1 s2 s3 where
    1: "seq [OUTS [0x55], OUTS [0x48, 0x89, 0xe5], OUTS [0xcc]] s = Some s1" and
    2: "frame_adjust [0x48, 0x81, 0xec] nfl s1 = Some s2" and
    3: "spill_args (zip (input_types type) offs) 0 0 s2 = Some s3" and
    4: "init_locals k s3 = Some s'"
    unfolding prologue_def by (auto simp: seq.simps split: option.splits)
  from 1 have o1: "outputv s1 = outputv s @ [0x55, 0x48, 0x89, 0xe5, 0xcc]"
    and b1: "branches s1 = branches s"
    by (auto simp: prim_defs split: option.splits)
  from frame_adjust_output [OF 2] have o2: "outputv s2 = outputv s1 @ frame_bytes 0xec nfl"
    and b2: "branches s2 = branches s1" by auto
  from spill_args_frame [OF 3] obtain r3 where o3: "outputv s3 = outputv s2 @ r3"
    by (auto simp: frame_def)
  have b3: "branches s3 = branches s2" by (rule spill_args_branches [OF 3])
  from 4 obtain r4 where o4: "outputv s' = outputv s3 @ r4" and b4: "branches s' = branches s3"
    by (auto simp: init_locals_def prim_defs split: if_splits option.splits)
  show ?thesis by (simp add: o1 o2 o3 o4 b1 b2 b3 b4)
qed

lemma compile_function_phases:
  assumes "wasmjit_compile_function env0 type code mrefs = Some (out, mrefs')"
  obtains md nl nfl s1 s2 s3 s4 where
    "frame_layout type code = Some (md, nl, nfl)"
    "prologue type (map fp_offset md) nfl (nl - length (input_types type))
       \<lparr>outputv = [], labels = [], branches = [], memrefs = mrefs, sstack = []\<rparr> = Some s1"
    "wasmjit_compile_instructions
       (env0\<lparr>ftype := type, locals_md := md, n_locals := nl, n_frame_locals := nfl\<rparr>)
       (instructions code) s1 = Some s2"
    "fix_branches (branches s2) s2 = Some s3"
    "epilogue type nfl s3 = Some s4"
    "out = outputv s4" "mrefs' = memrefs s4"
    "body_tables env0 type code mrefs = Some s2"
    "frame_locals type code = Some nfl"
  using assms
  unfolding wasmjit_compile_function_def body_tables_def frame_locals_def Let_def
  by (auto simp: seq.simps split: option.splits prod.splits)


lemma function_tables:
  assumes "wasmjit_compile_function env0 type code mrefs = Some (out, mrefs')"
  obtains nfl s1 s2 s3 rest where
    "body_tables env0 type code mrefs = Some s2"
    "frame_locals type code = Some nfl"
    "outputv s1 = [0x55, 0x48, 0x89, 0xe5, 0xcc] @ frame_bytes 0xec nfl @ rest"
    "frame s1 s2" "branches s1 = []"
    "fix_branches (branches s2) s2 = Some s3"
    "out = outputv s3 @ epilogue_bytes type nfl"
    "\<exists>ms. mrefs' = mrefs @ ms \<and> list_all zero_idx ms"
proof -
  from assms obtain md nl nfl s1 s2 s3 s4 where
    p: "prologue type (map fp_offset md) nfl (nl - length (input_types type))
       \<lparr>outputv = [], labels = [], branches = [], memrefs = mrefs, sstack = []\<rparr> = Some s1" and
    c: "wasmjit_compile_instructions
       (env0\<lparr>ftype := type, locals_md := md, n_locals := nl, n_frame_locals := nfl\<rparr>)
       (instructions code) s1 = Some s2" and
    f: "fix_branches (branches s2) s2 = Some s3" and
    e: "epilogue type nfl s3 = Some s4" and
    o: "out = outputv s4" "mrefs' = memrefs s4" and
    b: "body_tables env0 type code mrefs = Some s2" and
    n: "frame_locals type code = Some nfl"
    by (rule compile_function_phases)
  let ?st0 = "\<lparr>outputv = [], labels = [], branches = [], memrefs = mrefs, sstack = []\<rparr>"
  from prologue_output [OF p] obtain rest where
    o1: "outputv s1 = [0x55, 0x48, 0x89, 0xe5, 0xcc] @ frame_bytes 0xec nfl @ rest" and
    b1: "branches s1 = []" by auto
  have f01: "frame ?st0 s1" by (rule keepsD [OF keeps_prologue p])
  have f12: "frame s1 s2" by (rule compile_frame(2) [OF c])
  from f12 b1 have ok: "sites_ok (length (outputv s1)) (branches s2) (length (outputv s2))"
    by (auto simp: frame_def)
  from fix_branches_effect [OF f ok] have m3: "memrefs s3 = memrefs s2" by simp
  from epilogue_output [OF e] have
    o4: "outputv s4 = outputv s3 @ epilogue_bytes type nfl" and m4: "memrefs s4 = memrefs s3"
    by simp_all
  from f01 f12 have "frame ?st0 s2" by (rule frame_trans)
  then have "\<exists>ms. memrefs s2 = mrefs @ ms \<and> list_all zero_idx ms"
    by (auto simp: frame_def)
  then have "\<exists>ms. mrefs' = mrefs @ ms \<and> list_all zero_idx ms"
    by (simp add: o m4 m3)
  with b n o1 f12 b1 f o o4 show ?thesis
    by (intro that [of s2 nfl s1 rest s3]) simp_all
qed


subsection \<open>Running the code of a branch\<close>

lemma le_word_encode32: "le_word (encode_le_uint32_t w) = (w :: 32 word)"
proof (rule bit_word_eqI)
  fix n assume n: "n < LENGTH(32)"
  consider "n < 8" | "8 \<le> n" "n < 16" | "16 \<le> n" "n < 24" | "24 \<le> n" by linarith
  then show "bit (le_word (encode_le_uint32_t w) :: 32 word) n = bit w n"
    using n by cases (auto simp: encode_le_uint32_t_def bit_simps)
qed

lemma sext32_of_nat: "n \<le> INT32_MAX \<Longrightarrow> sext32 (of_nat n) = of_nat n"
proof -
  assume "n \<le> INT32_MAX"
  then have "int n < 2 ^ 31" by (simp add: INT32_MAX_def)
  then have "signed_take_bit 31 (int n) = int n"
    by (intro signed_take_bit_int_eq_self) simp_all
  then have "sint (word_of_nat n :: 32 word) = int n"
    by (simp add: signed_of_nat)
  then show ?thesis
    by (simp add: sext32_def scast_eq)
qed

lemma take4_encode: "take 4 (encode_le_uint32_t v @ rest) = encode_le_uint32_t v"
  by (simp add: encode_le_uint32_t_def)

lemma step_sub_rsp:
  assumes "drop (pc s) code = [0x48, 0x81, 0xec] @ encode_le_uint32_t (of_nat k) @ rest"
    and "k \<le> INT32_MAX"
  shows "x86_step code s =
           Running (s\<lparr>regs := (regs s)(RSP := regs s RSP - of_nat k), pc := pc s + 7,
              zf := regs s RSP - of_nat k = 0, sf := sint (regs s RSP - of_nat k) < 0,
              ovf := alu_ovf ALU_SUB (regs s RSP) (of_nat k :: 64 word),
              cf := alu_cf ALU_SUB (regs s RSP) (of_nat k :: 64 word)\<rparr>)"
  using assms(1) sext32_of_nat [OF assms(2)]
  by (simp add: x86_step_def x86_exec_def modrm_def alu_of_def alu_def alu_res_def
        get_op_def set_op_def advance_def set_flags_def RSP_def take4_encode le_word_encode32 Let_def)


lemma le_word_bytes32 [simp]:
  "le_word [ucast v, ucast (drop_bit 8 v), ucast (drop_bit 16 v), ucast (drop_bit 24 v)] = (v :: 32 word)"
  using le_word_encode32 [of v] by (simp add: encode_le_uint32_t_def)

lemmas x86_sym =
  x86_step_def x86_exec_def modrm_def alu_def alu_of_def alu_res_def
  set_flags_def get_op_def set_op_def advance_def jump_def
  RAX_def RCX_def RSP_def RBP_def RSI_def RDI_def Let_def

lemma br_code_run_0:
  assumes "br_code 0 sh cont st = Some st'" and "sh \<le> INT32_MAX" and "pc s = 0"
  shows "\<exists>new n s'. outputv st' = outputv st @ new \<and> x86_run n new s = Running s'
           \<and> pc s' + 5 = length new \<and> regs s' RSP = regs s RSP + of_nat sh"
proof (cases "sh = 0")
  case True
  with assms(1) have "outputv st' = outputv st @ [0xe9, 0x90, 0x90, 0x90, 0x90]"
    by (auto simp: br_code_def prim_defs split: option.splits)
  moreover have "x86_run 0 [0xe9, 0x90, 0x90, 0x90, 0x90] s = Running s"
    using assms(3) by simp
  ultimately show ?thesis using True assms(3) by (intro exI [of _ "[0xe9, 0x90, 0x90, 0x90, 0x90]"] exI [of _ 0] exI [of _ s]) simp
next
  case False
  let ?new = "[0x48, 0x81, 0xc4] @ encode_le_uint32_t (of_nat sh) @ [0xe9, 0x90, 0x90, 0x90, 0x90]"
  from False assms(1) have o: "outputv st' = outputv st @ ?new"
    by (auto simp: br_code_def prim_defs split: option.splits)
  have "\<exists>s'. x86_run 1 ?new s = Running s' \<and> pc s' + 5 = length ?new
          \<and> regs s' RSP = regs s RSP + of_nat sh"
    using assms(3) sext32_of_nat [OF assms(2)]
    by (simp add: x86_sym encode_le_uint32_t_def del: le_word.simps)
  with o show ?thesis by blast
qed


lemma br_code_run_1:
  assumes "br_code (Suc 0) sh cont st = Some st'" and "sh \<le> INT32_MAX" and "pc s = 0"
  shows "\<exists>new n s'. outputv st' = outputv st @ new \<and> x86_run n new s = Running s'
           \<and> pc s' + 5 = length new \<and> regs s' RSP = regs s RSP + of_nat sh"
proof (cases "sh = 0")
  case True
  let ?new = "[0x48, 0x89, 0xe6] @ [0x48, 0x89, 0xe7] @ [0x48, 0xc7, 0xc1]
     @ encode_le_uint32_t (of_nat (Suc 0)) @ [0xfd] @ [0x48, 0xa5] @ [0xe9, 0x90, 0x90, 0x90, 0x90]"
  from True assms(1) have o: "outputv st' = outputv st @ ?new"
    by (auto simp: br_code_def prim_defs INT32_MAX_def split: option.splits)
  have "\<exists>s'. x86_run 5 ?new s = Running s' \<and> pc s' + 5 = length ?new
          \<and> regs s' RSP = regs s RSP + of_nat sh"
    using assms(3) True
    by (simp add: x86_sym x86_run_numeral encode_le_uint32_t_def del: le_word.simps)
  with o show ?thesis by blast
next
  case False
  let ?new = "[0x48, 0x89, 0xe6] @ [0x48, 0x89, 0xe7] @ [0x48, 0x81, 0xc7]
     @ encode_le_uint32_t (of_nat sh) @ [0x48, 0xc7, 0xc1]
     @ encode_le_uint32_t (of_nat (Suc 0)) @ [0xfd] @ [0x48, 0xa5] @ [0x48, 0x81, 0xc4]
     @ encode_le_uint32_t (of_nat sh) @ [0xe9, 0x90, 0x90, 0x90, 0x90]"
  from False assms(1) have o: "outputv st' = outputv st @ ?new"
    by (auto simp: br_code_def prim_defs INT32_MAX_def split: option.splits if_splits)
  have "\<exists>s'. x86_run 7 ?new s = Running s' \<and> pc s' + 5 = length ?new
          \<and> regs s' RSP = regs s RSP + of_nat sh"
    using assms(3) sext32_of_nat [OF assms(2)]
    by (simp add: x86_sym x86_run_numeral encode_le_uint32_t_def del: le_word.simps)
  with o show ?thesis by blast
qed

lemma br_code_run_2:
  assumes "br_code (Suc (Suc a)) sh cont st = Some st'" and "sh \<le> INT32_MAX" and "pc s = 0"
  shows "\<exists>new n s'. outputv st' = outputv st @ new \<and> x86_run n new s = Running s'
           \<and> pc s' + 5 = length new \<and> regs s' RSP = regs s RSP + of_nat sh"
proof (cases "sh = 0")
  case True
  let ?new = "[0x48, 0x89, 0xe6] @ [0x48, 0x03, 0x34, 0x25]
     @ encode_le_uint32_t (of_nat (Suc a * 8)) @ [0x48, 0x89, 0xe7] @ [0x48, 0x81, 0xc7]
     @ encode_le_uint32_t (of_nat (Suc a * 8)) @ [0x48, 0xc7, 0xc1]
     @ encode_le_uint32_t (of_nat (Suc (Suc a))) @ [0xfd] @ [0x48, 0xa5]
     @ [0xe9, 0x90, 0x90, 0x90, 0x90]"
  from True assms(1) have o: "outputv st' = outputv st @ ?new"
    by (auto simp: br_code_def prim_defs split: option.splits if_splits)
  have "\<exists>s'. x86_run 7 ?new s = Running s' \<and> pc s' + 5 = length ?new
          \<and> regs s' RSP = regs s RSP + of_nat sh"
    using assms(3) True
    by (simp add: x86_sym x86_run_numeral encode_le_uint32_t_def del: le_word.simps)
  with o show ?thesis by blast
next
  case False
  let ?new = "[0x48, 0x89, 0xe6] @ [0x48, 0x03, 0x34, 0x25]
     @ encode_le_uint32_t (of_nat (Suc a * 8)) @ [0x48, 0x89, 0xe7] @ [0x48, 0x81, 0xc7]
     @ encode_le_uint32_t (of_nat (Suc a * 8 + sh)) @ [0x48, 0xc7, 0xc1]
     @ encode_le_uint32_t (of_nat (Suc (Suc a))) @ [0xfd] @ [0x48, 0xa5] @ [0x48, 0x81, 0xc4]
     @ encode_le_uint32_t (of_nat sh) @ [0xe9, 0x90, 0x90, 0x90, 0x90]"
  from False assms(1) have o: "outputv st' = outputv st @ ?new"
    by (auto simp: br_code_def prim_defs split: option.splits if_splits)
  have "\<exists>s'. x86_run 8 ?new s = Running s' \<and> pc s' + 5 = length ?new
          \<and> regs s' RSP = regs s RSP + of_nat sh"
    using assms(3) sext32_of_nat [OF assms(2)]
    by (simp add: x86_sym x86_run_numeral encode_le_uint32_t_def del: le_word.simps)
  with o show ?thesis by blast
qed

lemma br_code_run:
  assumes "br_code arity sh cont st = Some st'" and "sh \<le> INT32_MAX" and "pc s = 0"
  shows "\<exists>new n s'. outputv st' = outputv st @ new \<and> x86_run n new s = Running s'
           \<and> pc s' + 5 = length new \<and> regs s' RSP = regs s RSP + of_nat sh"
proof (cases arity)
  case 0
  with assms(1) have "br_code 0 sh cont st = Some st'" by simp
  then show ?thesis using assms(2,3) by (rule br_code_run_0)
next
  case (Suc a)
  show ?thesis
  proof (cases a)
    case 0
    with Suc assms(1) have "br_code (Suc 0) sh cont st = Some st'" by simp
    then show ?thesis using assms(2,3) by (rule br_code_run_1)
  next
    case (Suc a')
    with \<open>arity = Suc a\<close> assms(1) have "br_code (Suc (Suc a')) sh cont st = Some st'" by simp
    then show ?thesis using assms(2,3) by (rule br_code_run_2)
  qed
qed


lemma is_label_simps [simp]:
  "is_label (STACK_VALUE t) = False" "is_label (STACK_LABEL a c) = True"
  by (simp_all add: is_label_def)

lemma find_label_spec:
  assumes "l < length (filter is_label (take k elts))" and "k \<le> length elts"
  shows "find_label elts k l < k \<and> is_label (elts ! find_label elts k l)
           \<and> length (filter is_label (drop (Suc (find_label elts k l)) (take k elts))) = l"
  using assms
proof (induction k arbitrary: l)
  case 0
  then show ?case by simp
next
  case (Suc k)
  from Suc.prems(2) have k: "k < length elts" by simp
  then have t: "take (Suc k) elts = take k elts @ [elts ! k]"
    by (simp add: take_Suc_conv_app_nth)
  show ?case
  proof (cases "elts ! k")
    case (STACK_VALUE ty)
    with Suc.prems(1) t have "l < length (filter is_label (take k elts))"
      by simp
    from Suc.IH [OF this] k have
      i: "find_label elts k l < k" "is_label (elts ! find_label elts k l)"
         "length (filter is_label (drop (Suc (find_label elts k l)) (take k elts))) = l"
      by simp_all
    from i(1) have "Suc (find_label elts k l) \<le> length (take k elts)" using k by simp
    then show ?thesis using STACK_VALUE i t by simp
  next
    case (STACK_LABEL a c)
    show ?thesis
    proof (cases "l = 0")
      case True
      with STACK_LABEL k show ?thesis by simp
    next
      case False
      with Suc.prems(1) t STACK_LABEL have "l - 1 < length (filter is_label (take k elts))"
        by simp
      from Suc.IH [OF this] k have
        i: "find_label elts k (l - 1) < k" "is_label (elts ! find_label elts k (l - 1))"
           "length (filter is_label (drop (Suc (find_label elts k (l - 1))) (take k elts))) = l - 1"
        by simp_all
      from i(1) have "Suc (find_label elts k (l - 1)) \<le> length (take k elts)" using k by simp
      then show ?thesis using STACK_LABEL False i t by simp
    qed
  qed
qed

lemma labels_values_above:
  "j < length elts \<Longrightarrow> n_labels_above elts j + n_value_slots_above elts j = length elts - Suc j"
  unfolding n_labels_above_def n_value_slots_above_def
  using sum_length_filter_compl [of is_label "drop (Suc j) elts"] by simp


lemma prologue_frame_fits:
  assumes "prologue type offs nfl k s = Some s'"
  shows "nfl \<noteq> 0 \<longrightarrow> nfl * 8 \<le> INT32_MAX"
proof -
  from assms obtain s1 s2 where
    "frame_adjust [0x48, 0x81, 0xec] nfl s1 = Some s2"
    unfolding prologue_def by (auto simp: seq.simps split: option.splits)
  from frame_adjust_output [OF this] show ?thesis by simp
qed

subsection \<open>Running the frame adjustments\<close>

lemma step_add_rsp:
  assumes "drop (pc s) code = [0x48, 0x81, 0xc4] @ encode_le_uint32_t (of_nat k) @ rest"
    and "k \<le> INT32_MAX"
  shows "\<exists>s'. x86_step code s = Running s' \<and> regs s' RSP = regs s RSP + of_nat k
           \<and> pc s' = pc s + 7"
  using assms(1) sext32_of_nat [OF assms(2)]
  by (simp add: x86_step_def x86_exec_def modrm_def alu_of_def alu_def alu_res_def
        get_op_def set_op_def advance_def set_flags_def RSP_def take4_encode le_word_encode32 Let_def)

lemma frame_bytes_run_sub:
  assumes "nfl \<noteq> 0 \<longrightarrow> nfl * 8 \<le> INT32_MAX" and "pc s = 0"
  shows "\<exists>s'. x86_run 1 (frame_bytes 0xec nfl) s = Halted s'
           \<and> regs s' RSP = regs s RSP - of_nat (8 * nfl)"
proof (cases "nfl = 0")
  case True
  with assms(2) show ?thesis by (simp add: frame_bytes_def)
next
  case False
  with assms(1) have fit: "nfl * 8 \<le> INT32_MAX" by simp
  have d: "drop (pc s) (frame_bytes 0xec nfl)
             = [0x48, 0x81, 0xec] @ encode_le_uint32_t (of_nat (nfl * 8)) @ []"
    using False assms(2) by (simp add: frame_bytes_def)
  have l: "length (frame_bytes 0xec nfl) = 7" using False by (simp add: frame_bytes_def)
  show ?thesis
    using assms(2) l by (simp add: step_sub_rsp [OF d fit] mult.commute)
qed

lemma frame_bytes_run_add:
  assumes "nfl \<noteq> 0 \<longrightarrow> nfl * 8 \<le> INT32_MAX" and "pc s = 0"
  shows "\<exists>s'. x86_run 1 (frame_bytes 0xc4 nfl) s = Halted s'
           \<and> regs s' RSP = regs s RSP + of_nat (8 * nfl)"
proof (cases "nfl = 0")
  case True
  with assms(2) show ?thesis by (simp add: frame_bytes_def)
next
  case False
  with assms(1) have fit: "nfl * 8 \<le> INT32_MAX" by simp
  have d: "drop (pc s) (frame_bytes 0xc4 nfl)
             = [0x48, 0x81, 0xc4] @ encode_le_uint32_t (of_nat (nfl * 8)) @ []"
    using False assms(2) by (simp add: frame_bytes_def)
  have l: "length (frame_bytes 0xc4 nfl) = 7" using False by (simp add: frame_bytes_def)
  from step_add_rsp [OF d fit] obtain s' where
    "x86_step (frame_bytes 0xc4 nfl) s = Running s'" "regs s' RSP = regs s RSP + of_nat (nfl * 8)"
    "pc s' = pc s + 7" by blast
  then show ?thesis
    using assms(2) l by (simp add: mult.commute)
qed

subsection \<open>The bytes of an immediate, and the prologue without a frame\<close>

lemma ucast_drop_of_int:
  "k + 8 \<le> 32 \<Longrightarrow> (ucast (drop_bit k (of_int d :: 32 word)) :: 8 word) = of_int (d div 2 ^ k)"
proof (rule bit_word_eqI)
  fix n assume n: "n < LENGTH(8)" and k: "k + 8 \<le> 32"
  then show "bit (ucast (drop_bit k (of_int d :: 32 word)) :: 8 word) n
               = bit (of_int (d div 2 ^ k) :: 8 word) n"
    by (auto simp: bit_simps drop_bit_eq_div [symmetric] add.commute)
qed

lemma encode32_of_int:
  "encode_le_uint32_t (of_int d)
     = [of_int d, of_int (d div 2 ^ 8), of_int (d div 2 ^ 16), of_int (d div 2 ^ 24)]"
  using ucast_drop_of_int [of 0 d] ucast_drop_of_int [of 8 d] ucast_drop_of_int [of 16 d]
    ucast_drop_of_int [of 24 d]
  by (simp add: encode_le_uint32_t_def)

lemma encode32_of_nat:
  "encode_le_uint32_t (of_nat n)
     = [of_nat n, of_nat (n div 2 ^ 8), of_nat (n div 2 ^ 16), of_nat (n div 2 ^ 24)]"
proof -
  have d: "of_int (int n div 2 ^ k) = (of_nat (n div 2 ^ k) :: 8 word)" for k
    by (metis of_int_of_nat_eq of_nat_numeral of_nat_power zdiv_int)
  from encode32_of_int [of "int n"] d [of 8] d [of 16] d [of 24] show ?thesis by simp
qed

lemma sint_of_int32:
  "- (2 ^ 31) \<le> d \<Longrightarrow> d < 2 ^ 31 \<Longrightarrow> sint (of_int d :: 32 word) = d"
  by (simp add: signed_of_int signed_take_bit_int_eq_self)

lemma param_offsets_stack:
  "param_offsets ts nm nx ns = Some (offs, n)
     \<Longrightarrow> nm + nx \<le> n \<and> (n = nm + nx \<longrightarrow> (\<forall>off \<in> set offs. 0 < off))"
proof (induction ts nm nx ns arbitrary: offs n rule: param_offsets.induct)
  case (1 n_movs n_xmm_movs n_stack)
  then show ?case by simp
next
  case (2 t ts n_movs n_xmm_movs n_stack)
  show ?case
  proof (cases "is_int_type t \<and> n_movs < 6")
    case True
    with "2.prems" obtain offs' where
      r: "param_offsets ts (n_movs + 1) n_xmm_movs n_stack = Some (offs', n)"
      by (auto split: option.splits)
    from "2.IH"(1) [OF True r] show ?thesis by simp
  next
    case a: False
    show ?thesis
    proof (cases "(t = VALTYPE_F32 \<or> t = VALTYPE_F64) \<and> n_xmm_movs < 8")
      case True
      with a "2.prems" obtain offs' where
        r: "param_offsets ts n_movs (n_xmm_movs + 1) n_stack = Some (offs', n)"
        by (auto split: option.splits)
      from "2.IH"(2) [OF a True r] show ?thesis by simp
    next
      case b: False
      with a "2.prems" obtain offs' where
        c: "n_stack * 8 + 16 \<le> INT32_MAX" and
        r: "param_offsets ts n_movs n_xmm_movs (n_stack + 1) = Some (offs', n)" and
        o: "offs = int (n_stack * 8 + 16) # offs'"
        by (auto split: option.splits if_splits)
      from c have c': "\<not> \<not> n_stack * 8 + 16 \<le> INT32_MAX" by simp
      from "2.IH"(3) [OF a b c' r] o show ?thesis by simp
    qed
  qed
qed

lemma spill_args_none:
  "\<forall>p \<in> set ps. 0 < snd p \<Longrightarrow> spill_args ps a b st = Some st"
  by (induction ps arbitrary: a b st) auto

lemma frame_layout_no_frame:
  assumes "frame_layout type code = Some (md, nl, 0)"
  shows "nl = length (input_types type)
           \<and> (\<forall>p \<in> set (zip (input_types type) (map fp_offset md)). 0 < snd p)"
proof -
  define k where "k = sum_list (map fst (locals code))"
  from assms obtain poffs loffs where
    p: "param_offsets (input_types type) 0 0 0 = Some (poffs, 0)" and
    lo: "local_offsets 0 0 k = Some loffs" and
    k: "k = 0" and
    nl: "nl = length (input_types type) + k" and
    md: "md = map (\<lambda>(t, off). \<lparr>valtype = t, fp_offset = off\<rparr>)
                (zip (input_types type @ local_types (locals code)) (poffs @ loffs))"
    unfolding frame_layout_def Let_def k_def [symmetric]
    by (auto split: option.splits prod.splits if_splits)
  from lo k have loffs: "loffs = []" by simp
  from param_offsets_stack [OF p] have pos: "\<forall>off \<in> set poffs. 0 < off" by simp
  have "set (map fp_offset md) \<subseteq> set poffs"
    unfolding md loffs by (auto dest: set_zip_rightD)
  with pos have m: "\<forall>off \<in> set (map fp_offset md). 0 < off" by blast
  have "0 < snd p" if "p \<in> set (zip (input_types type) (map fp_offset md))" for p
  proof -
    obtain a b where ab: "p = (a, b)" by (cases p)
    from that have "b \<in> set (map fp_offset md)"
      unfolding ab by (rule set_zip_rightD)
    then have "snd p \<in> set (map fp_offset md)" by (simp only: ab snd_conv)
    with m show ?thesis by blast
  qed
  then have "\<forall>p \<in> set (zip (input_types type) (map fp_offset md)). 0 < snd p"
    by blast
  with nl k show ?thesis by simp
qed

lemma prologue_steps:
  assumes "prologue type offs nfl k s = Some s'"
  shows "seq [spill_args (zip (input_types type) offs) 0 0, init_locals k]
           (s\<lparr>outputv := outputv s @ [0x55, 0x48, 0x89, 0xe5, 0xcc] @ frame_bytes 0xec nfl\<rparr>)
           = Some s'"
proof -
  from assms obtain s1 s2 where
    1: "seq [OUTS [0x55], OUTS [0x48, 0x89, 0xe5], OUTS [0xcc]] s = Some s1" and
    2: "frame_adjust [0x48, 0x81, 0xec] nfl s1 = Some s2" and
    3: "seq [spill_args (zip (input_types type) offs) 0 0, init_locals k] s2 = Some s'"
    unfolding prologue_def by (auto simp: seq.simps split: option.splits)
  from 1 have e1: "s1 = s\<lparr>outputv := outputv s @ [0x55, 0x48, 0x89, 0xe5, 0xcc]\<rparr>"
    by (auto simp: prim_defs split: option.splits)
  from frame_adjust_output [OF 2] have
    e2: "s2 = s1\<lparr>outputv := outputv s1 @ frame_bytes 0xec nfl\<rparr>" by simp
  from 3 show ?thesis by (simp add: e1 e2)
qed

lemma prologue_no_frame:
  assumes "frame_layout type code = Some (md, nl, 0)"
  shows "seq [spill_args (zip (input_types type) (map fp_offset md)) 0 0,
              init_locals (nl - length (input_types type))] st = Some st"
proof -
  from frame_layout_no_frame [OF assms] have
    nl: "nl - length (input_types type) = 0" and
    pos: "\<forall>p \<in> set (zip (input_types type) (map fp_offset md)). 0 < snd p" by simp_all
  show ?thesis
    by (simp add: seq.simps spill_args_none [OF pos] nl init_locals_def when_c_def)
qed

lemma frame_bytes_explicit:
  "frame_bytes opc n =
     (if n = 0 then []
      else [0x48, 0x81, opc, of_nat (8 * n), of_nat (8 * n div 2 ^ 8), of_nat (8 * n div 2 ^ 16),
            of_nat (8 * n div 2 ^ 24)])"
proof -
  have e: "encode_le_uint32_t (of_nat (n * 8))
             = [of_nat (8 * n), of_nat (8 * n div 2 ^ 8), of_nat (8 * n div 2 ^ 16),
                of_nat (8 * n div 2 ^ 24)]"
    using encode32_of_nat [of "n * 8"] by (simp only: mult.commute [of n 8])
  show ?thesis unfolding frame_bytes_def e by (simp only: append.simps)
qed

subsection \<open>The sample functions\<close>

lemmas fn_defs =
  wasmjit_compile_function_def frame_layout_def prologue_def epilogue_def frame_adjust_def
  init_locals_def spill_movs_def local_types_def is_int_type_def INT32_MAX_def
  compile_return_def emit_br_code_def br_code_def compile_br_if_def compile_get_local_def
  continuation_offset_def fix_branch_def FUNC_EXIT_CONT_def patch_bytes_def layout_env_def
  encode_le_uint32_t_def encode_le_uint64_t_def Let_def body_tables_def frame_locals_def
  sample_type_def sample_code_def empty_type_def empty_code_def

lemma sample_compiles:
  "\<exists>out mrefs'. wasmjit_compile_function (layout_env 8 0) sample_type sample_code [] = Some (out, mrefs')
      \<and> length mrefs' = 2 \<and> list_all (\<lambda>m. mr_type m = MEMREF_MEM) mrefs'"
  by (simp add: fn_defs prim_defs ls_defs)

lemma sample_body_tables:
  "\<exists>st. body_tables (layout_env 8 0) sample_type sample_code [] = Some st
      \<and> labels st = [72] \<and> length (outputv st) = 126
      \<and> branches st = [\<lparr>branch_offset = 27, continuation_idx = 0\<rparr>,
                        \<lparr>branch_offset = 67, continuation_idx = FUNC_EXIT_CONT\<rparr>]"
  by (simp add: fn_defs prim_defs ls_defs)

lemma sample_frame_locals: "frame_locals sample_type sample_code = Some 1"
  by (simp add: fn_defs)

lemma empty_compiles:
  "wasmjit_compile_function (layout_env 8 0) empty_type empty_code []
     = Some ([0x55, 0x48, 0x89, 0xe5, 0xcc, 0x5d, 0xc3], [])"
  by (simp add: fn_defs prim_defs)

lemma sample_frame_layout:
  "frame_layout sample_type sample_code
     = Some ([\<lparr>valtype = VALTYPE_I32, fp_offset = - 8\<rparr>], 1, 1)"
  by (simp add: fn_defs)

lemma empty_frame_layout: "frame_layout empty_type empty_code = Some ([], 0, 0)"
  by (simp add: fn_defs)

lemma loop_compiles:
  "wasmjit_compile_function (layout_env 8 0) empty_type loop_code []
     = Some ([0x55, 0x48, 0x89, 0xe5, 0xcc, 0xe9, 0xfb, 0xff, 0xff, 0xff, 0x5d, 0xc3], [])"
  by (simp add: fn_defs prim_defs loop_code_def)

lemma loop_body_tables:
  "\<exists>st. body_tables (layout_env 8 0) empty_type loop_code [] = Some st
      \<and> labels st = [5] \<and> length (outputv st) = 10
      \<and> branches st = [\<lparr>branch_offset = 5, continuation_idx = 0\<rparr>]"
  by (simp add: fn_defs prim_defs loop_code_def)

subsection \<open>C3: the unreachable opcode\<close>

text \<open>
  C3 claims that compiling \<open>unreachable\<close> appends the two bytes 0x0F 0x0B of \<^verbatim>\<open>ud2\<close>.
  The string literal of the source is \<^verbatim>\<open>"\x0f\0b"\<close>: 0x0F, a NUL byte and the letter b, and
  \<^verbatim>\<open>OUTS\<close> writes \<^verbatim>\<open>strlen\<close> bytes of it. Whatever the tables hold, the compiler appends the
  single byte 0x0F and nothing else changes.
\<close>

theorem unreachable_appends_0f_only:
  "wasmjit_compile_instruction env OPCODE_UNREACHABLE st = Some (st\<lparr>outputv := outputv st @ [0x0f]\<rparr>)"
  by (simp add: OUTS_def cstr_def output_buf_def)

subsection \<open>C1: the bounds check of loads and stores\<close>

text \<open>
  C1 claims that for every static offset \<open>off\<close> the generated code computes
  \<open>ea' = ea + off + 4\<close> and traps with \<^verbatim>\<open>int $4\<close> exactly when \<open>ea'\<close> is greater than the size
  of the memory. The code adds \<open>4 + off\<close>, computed in 32 bits, as the immediate of
  \<^verbatim>\<open>add imm32, %rsi\<close>, which the processor sign-extends. With \<open>off = 0x7FFFFFFC\<close> the
  immediate is 0x80000000, that is \<open>- 2^31\<close>: at address 0 of a memory of 65536 bytes
  (instance at 0x2000, its size at offset 8, its data pointer 0x100000000 at offset 0) the
  sum \<open>ea + off + 4 = 2^31\<close> exceeds the size, but the code does not trap: it runs to its
  end and pushes the four bytes it finds \<open>2^31 + 4\<close> bytes below the start of the memory.
\<close>

theorem load_offset_sign_extended_no_trap:
  "final_top (run_compiled (layout_env 8 0) [LOAD_STORE OPCODE_I32_LOAD 0x7FFFFFFC]
     [STACK_VALUE VALTYPE_I32] (\<lambda>m. 0x2000) 20
     (machine 0x1000 0 (mem_cells [(0x1000, 0), (0x2008, 65536), (0x2000, 0x100000000),
        (0x7FFFFFFC, 0xDEADBEEF)]))) = Some 0xDEADBEEF"
  by (simp add: run_defs prim_defs x86_defs x86_run_numeral ls_defs)

subsection \<open>C2: the bounds check and the width of the access\<close>

text \<open>
  C2 claims that an access of width \<open>w\<close> with offset 0 succeeds at \<open>size - w\<close> and traps at
  \<open>size - w + 1\<close>. The check of the code adds 4 whatever the width. In a memory of 65536
  bytes (data at 0x100000), the 8-byte load at address \<open>65529 = size - 8 + 1\<close> does not trap
  and returns the byte 0xAA that lies behind the end of the memory, and the 1-byte load at
  address \<open>65535 = size - 1\<close> traps.
\<close>

theorem bounds_check_ignores_width:
  "final_top (run_compiled (layout_env 8 0) [LOAD_STORE OPCODE_I64_LOAD 0]
     [STACK_VALUE VALTYPE_I32] (\<lambda>m. 0x2000) 20
     (machine 0x1000 0 (mem_cells [(0x1000, 65529), (0x2008, 65536), (0x2000, 0x100000),
        (0x10FFF8, 0x1111111111111111), (0x110000, 0xAAAAAAAAAAAAAAAA)])))
     = Some 0xAA11111111111111
   \<and> trap_vector (run_compiled (layout_env 8 0) [LOAD_STORE OPCODE_I32_LOAD8_S 0]
     [STACK_VALUE VALTYPE_I32] (\<lambda>m. 0x2000) 20
     (machine 0x1000 0 (mem_cells [(0x1000, 65535), (0x2008, 65536), (0x2000, 0x100000)])))
     = Some 4"
  by (simp add: run_defs prim_defs x86_defs x86_run_numeral ls_defs)

subsection \<open>C4: the constant of i32.const on the physical stack\<close>

text \<open>
  C4 claims that \<open>i32.const v\<close> pushes \<open>v\<close> zero-extended to 8 bytes, for every \<open>v\<close>. The code
  emits \<^verbatim>\<open>push imm32\<close> (0x68), which sign-extends its immediate: for \<open>v = 0x80000000\<close> the
  cell on top of the stack is 0xFFFFFFFF80000000, its upper 32 bits all ones.
\<close>

theorem i32_const_push_sign_extends:
  "final_top (run_compiled (layout_env 8 0) [OPCODE_I32_CONST 0x80000000] [] (\<lambda>m. 0) 10
     (machine 0x1000 0 (\<lambda>a. 0))) = Some 0xFFFFFFFF80000000"
  by (simp add: run_defs prim_defs x86_defs x86_run_numeral)

subsection \<open>C6: i32.wrap_i64 followed by i64.extend_u_i32\<close>

text \<open>
  C6 claims that after \<open>i32.wrap_i64; i64.extend_u_i32\<close> the top cell, which held \<open>x\<close>,
  holds \<open>x AND 0xffffffff\<close>, for every \<open>x\<close> that fits 32 bits. The code of the wrap is
  \<^verbatim>\<open>mov $0xffffffff, %eax; and %rax, (%rdi)\<close>: it masks the 8 bytes that \<^verbatim>\<open>%rdi\<close> points to,
  not the top of the stack. In the program below the comparison leaves the constant 0xFF7
  in \<^verbatim>\<open>%rdi\<close>; with the stack pointer at 0x1000 on entry, \<open>x = 0xFF000000\<close> lies at 0xFF8, the
  mask clears the bytes 0xFFB to 0xFFE, and the top cell ends as 0 where the claim says
  0xFF000000.
\<close>

theorem wrap_i64_masks_cell_at_rdi:
  "final_top (run_compiled (layout_env 8 0)
     [OPCODE_I64_CONST 0, OPCODE_I64_CONST 0xFF7, CMP OPCODE_I64_EQ, OPCODE_DROP,
      OPCODE_I64_CONST 0xFF000000, OPCODE_I32_WRAP_I64, OPCODE_I64_EXTEND_U_I32] [] (\<lambda>m. 0) 20
     (machine 0x1000 0 (\<lambda>a. 0))) = Some 0"
  by (simp add: run_defs prim_defs x86_defs x86_run_numeral compile_cmp_def cmp_is_64_def
        cmp_setcc_def)

subsection \<open>C5: the bytes that a branch drops from the stack\<close>

text \<open>
  C5 claims that the code of \<^verbatim>\<open>emit_br_code\<close> for the label index \<open>L\<close> drops
  \<open>stack_shift = 8 * (n_value_slots_above_j - (L+1) - arity)\<close> bytes from \<^verbatim>\<open>%rsp\<close> before the
  jump, where \<open>j\<close> is the index of the label, \<open>arity\<close> its arity and \<open>n_value_slots_above_j\<close>
  the number of value slots strictly above \<open>j\<close>. The code computes
  \<open>8 * (n_elts - j - (L+1) - arity)\<close>, and \<open>n_elts - j\<close> counts every slot from \<open>j\<close> upwards:
  the label \<open>j\<close> itself, the \<open>L\<close> labels above it and the value slots above it. What holds
  is this: where \<^verbatim>\<open>emit_br_code\<close> succeeds on a static stack with more than \<open>L\<close> labels, \<open>j\<close> is
  a label slot with exactly \<open>L\<close> labels above it, the number that the code computes is
  \<open>8 * (n_value_slots_above_j - arity)\<close>, and the emitted code, run from its start, reaches
  its final \<^verbatim>\<open>jmp\<close> (0xe9, five bytes before the end) with \<^verbatim>\<open>%rsp\<close> raised by that number
  of bytes.
\<close>

theorem emit_br_code_drops_stack_shift:
  assumes "emit_br_code L st = Some st'"
    and "unat L < length (filter is_label (sstack st))"
    and "unat L + 1 < 2 ^ 32"
    and "pc s = 0"
  shows "\<exists>j arity cont new n s'.
           j = find_label (sstack st) (length (sstack st)) (unat L)
           \<and> sstack st ! j = STACK_LABEL arity cont
           \<and> n_labels_above (sstack st) j = unat L
           \<and> arity \<le> n_value_slots_above (sstack st) j
           \<and> 8 * (length (sstack st) - j - (unat L + 1) - arity)
               = 8 * (n_value_slots_above (sstack st) j - arity)
           \<and> outputv st' = outputv st @ new
           \<and> x86_run n new s = Running s'
           \<and> pc s' + 5 = length new
           \<and> take 1 (drop (pc s') new) = [0xe9]
           \<and> regs s' RSP = regs s RSP + of_nat (8 * (n_value_slots_above (sstack st) j - arity))"
proof -
  let ?elts = "sstack st"
  let ?n = "length ?elts"
  let ?j = "find_label ?elts ?n (unat L)"
  from assms(3) have u: "unat (L + 1) = unat L + 1"
    by (simp add: unat_word_ariths)
  from find_label_spec [of "unat L" ?n ?elts] assms(2) have
    j: "?j < ?n" and lab: "is_label (?elts ! ?j)" and
    cnt: "n_labels_above ?elts ?j = unat L"
    by (simp_all add: n_labels_above_def)
  from lab obtain arity cont where e: "?elts ! ?j = STACK_LABEL arity cont"
    by (cases "?elts ! ?j") simp_all
  from assms(1) j e have
    le: "?j + unat (L + 1) + arity \<le> ?n" and
    fit: "(?n - ?j - unat (L + 1) - arity) * 8 \<le> INT32_MAX" and
    br: "br_code arity ((?n - ?j - unat (L + 1) - arity) * 8) cont st = Some st'"
    by (auto simp: emit_br_code_def Let_def split: if_splits)
  from labels_values_above [OF j] cnt have
    v: "n_value_slots_above ?elts ?j = ?n - ?j - (unat L + 1)" by simp
  with le u have ar: "arity \<le> n_value_slots_above ?elts ?j" by simp
  have sh: "(?n - ?j - unat (L + 1) - arity) * 8 = 8 * (n_value_slots_above ?elts ?j - arity)"
    by (simp add: v u)
  from br_code_run [OF br fit assms(4)] obtain new n s' where
    r: "outputv st' = outputv st @ new" "x86_run n new s = Running s'"
       "pc s' + 5 = length new"
       "regs s' RSP = regs s RSP + of_nat ((?n - ?j - unat (L + 1) - arity) * 8)"
    by blast
  have jm: "take 1 (drop (pc s') new) = [0xe9]"
  proof -
    from br obtain sa where "(\<lambda>st1. seq [OUTS [0xe9, 0x90, 0x90, 0x90, 0x90],
        add_branch (length (outputv st1)) cont] st1) sa = Some st'"
      unfolding br_code_def by (auto simp: seq.simps split: option.splits)
    then have "outputv st' = outputv sa @ [0xe9, 0x90, 0x90, 0x90, 0x90]"
      by (auto simp: prim_defs split: option.splits)
    then have "drop (length (outputv st') - 5) (outputv st') = [0xe9, 0x90, 0x90, 0x90, 0x90]"
      by simp
    moreover have "pc s' = length new - 5" using r(3) by simp
    then have "drop (length (outputv st') - 5) (outputv st') = drop (pc s') new"
      using r(1) r(3) by simp
    ultimately show ?thesis by simp
  qed
  from e cnt ar sh r jm show ?thesis
    by (intro exI [of _ ?j] exI [of _ arity] exI [of _ cont] exI [of _ new] exI [of _ n]
          exI [of _ s']) (simp add: v u)
qed

text \<open>
  The formula of C5 itself fails on a branch to the label 0 of the static stack
  \<open>[label, value]\<close>: there is one value slot above the label, the code is
  \<^verbatim>\<open>add $8, %rsp; jmp\<close> and drops 8 bytes, and the formula gives \<open>8 * (1 - 1 - 0) = 0\<close>.
\<close>

theorem spec_stack_shift_counterexample:
  "rsp_of (run_compiled (layout_env 8 0) [OPCODE_BR 0]
             [STACK_LABEL 0 0, STACK_VALUE VALTYPE_I32] null_addr 1
             (machine 0x1000 0 (mem_cells []))) = Some 0x1008
   \<and> find_label [STACK_LABEL 0 0, STACK_VALUE VALTYPE_I32] 2 0 = 0
   \<and> rsp_of (run_compiled (layout_env 8 0) [OPCODE_BR 0]
             [STACK_LABEL 0 0, STACK_VALUE VALTYPE_I32] null_addr 1
             (machine 0x1000 0 (mem_cells [])))
       \<noteq> Some (0x1000 + of_int (spec_stack_shift [STACK_LABEL 0 0, STACK_VALUE VALTYPE_I32] 0 0 0))"
proof -
  let ?ss = "[STACK_LABEL 0 0, STACK_VALUE VALTYPE_I32]"
  have 1: "rsp_of (run_compiled (layout_env 8 0) [OPCODE_BR 0] ?ss null_addr 1
             (machine 0x1000 0 (mem_cells []))) = Some 0x1008"
    by (simp add: run_defs prim_defs x86_defs emit_br_code_def br_code_def INT32_MAX_def
          rsp_of_def)
  have 2: "find_label ?ss 2 0 = 0" by (simp add: numeral_2_eq_2)
  have 3: "spec_stack_shift ?ss 0 0 0 = 0"
    by (simp add: spec_stack_shift_def n_value_slots_above_def)
  show ?thesis unfolding 1 2 3 by simp
qed

text \<open>
  A branch to the label 1 over two values and the label 0, to a label of arity 1 with one
  more value above it: the code drops \<open>8 * (3 - 1) = 16\<close> bytes.
\<close>

theorem emit_br_code_drops_stack_shift_witness:
  "\<exists>st' new n s'.
      emit_br_code 1 (empty_tables [STACK_LABEL 1 0, STACK_VALUE VALTYPE_I32, STACK_LABEL 0 1,
                                    STACK_VALUE VALTYPE_I32, STACK_VALUE VALTYPE_I32]) = Some st'
      \<and> find_label [STACK_LABEL 1 0, STACK_VALUE VALTYPE_I32, STACK_LABEL 0 1,
                     STACK_VALUE VALTYPE_I32, STACK_VALUE VALTYPE_I32] 5 1 = 0
      \<and> outputv st' = new
      \<and> x86_run n new (machine 0x1000 0 (mem_cells [])) = Running s'
      \<and> take 1 (drop (pc s') new) = [0xe9]
      \<and> regs s' RSP = 0x1010"
proof -
  let ?ss = "[STACK_LABEL 1 0, STACK_VALUE VALTYPE_I32, STACK_LABEL 0 1,
              STACK_VALUE VALTYPE_I32, STACK_VALUE VALTYPE_I32]"
  let ?s = "machine 0x1000 0 (mem_cells [])"
  have "\<exists>st'. emit_br_code 1 (empty_tables ?ss) = Some st'"
    by (simp add: emit_br_code_def br_code_def prim_defs empty_tables_def INT32_MAX_def
          encode_le_uint32_t_def)
  then obtain st' where c: "emit_br_code 1 (empty_tables ?ss) = Some st'" by blast
  have l: "unat (1 :: 32 word) < length (filter is_label (sstack (empty_tables ?ss)))"
    by (simp add: empty_tables_def)
  have u: "unat (1 :: 32 word) + 1 < 2 ^ 32" by simp
  have p: "pc ?s = 0" by (simp add: machine_def)
  have j: "find_label ?ss 5 1 = 0" by (simp add: numeral_eq_Suc)
  have v: "n_value_slots_above ?ss 0 = 3" by (simp add: n_value_slots_above_def)
  have r: "regs ?s RSP = 0x1000" by (simp add: machine_def RSP_def RDI_def)
  from emit_br_code_drops_stack_shift [OF c l u p] j v r
  have "\<exists>new n s'. outputv st' = new
      \<and> x86_run n new ?s = Running s'
      \<and> take 1 (drop (pc s') new) = [0xe9]
      \<and> regs s' RSP = 0x1010"
    by (auto simp: empty_tables_def)
  with c j show ?thesis by blast
qed

subsection \<open>C7: the branch points after the fixup\<close>

text \<open>
  C7: when \<^verbatim>\<open>wasmjit_compile_function\<close> succeeds, then for every entry of the branch table as
  it stands after the body (\<open>body_tables\<close>), the target is \<open>labels[continuation_idx]\<close>, or,
  for the sentinel \<^verbatim>\<open>FUNC_EXIT_CONT\<close>, the offset at which the body ends and the epilogue
  begins. In the code that the function returns the byte at \<open>branch_offset\<close> is the opcode
  0xe9 of \<^verbatim>\<open>jmp\<close>, and the four bytes at \<open>branch_offset + 1\<close> are, lowest byte first, the
  bytes \<open>d mod 256\<close>, \<open>d div 2^8 mod 256\<close>, \<open>d div 2^16 mod 256\<close> and \<open>d div 2^24 mod 256\<close> of
  the displacement \<open>d = target - (branch_offset + 5)\<close>. Read back as a little-endian 32-bit
  word they give \<open>d\<close> modulo \<open>2^32\<close>, and read as a signed word they give \<open>d\<close> itself where
  \<open>d\<close> fits 32 bits.
\<close>

theorem branch_points_are_patched:
  assumes "wasmjit_compile_function env0 type code mrefs = Some (out, mrefs')"
  shows "\<exists>st nfl. body_tables env0 type code mrefs = Some st
           \<and> frame_locals type code = Some nfl
           \<and> drop (length (outputv st)) out = epilogue_bytes type nfl
           \<and> (\<forall>b \<in> set (branches st).
                 (continuation_idx b \<noteq> FUNC_EXIT_CONT \<longrightarrow> continuation_idx b < length (labels st))
                 \<and> branch_offset b + 5 \<le> length (outputv st)
                 \<and> out ! branch_offset b = 0xe9
                 \<and> (let target = (if continuation_idx b = FUNC_EXIT_CONT
                                    then length (outputv st)
                                    else labels st ! continuation_idx b);
                         d = int target - int (branch_offset b + 5);
                         site = take 4 (drop (branch_offset b + 1) out)
                     in site = [of_int d, of_int (d div 2 ^ 8), of_int (d div 2 ^ 16),
                                of_int (d div 2 ^ 24)]
                        \<and> site = encode_le_uint32_t (of_int d)
                        \<and> le_word site = (of_int d :: 32 word)
                        \<and> (- (2 ^ 31) \<le> d \<and> d < 2 ^ 31
                             \<longrightarrow> sint (le_word site :: 32 word) = d)))"
proof -
  from assms obtain nfl s1 s2 s3 rest where
    b: "body_tables env0 type code mrefs = Some s2" and
    n: "frame_locals type code = Some nfl" and
    f12: "frame s1 s2" and b1: "branches s1 = []" and
    f: "fix_branches (branches s2) s2 = Some s3" and
    o: "out = outputv s3 @ epilogue_bytes type nfl"
    by (rule function_tables)
  from f12 b1 have ok: "sites_ok (length (outputv s1)) (branches s2) (length (outputv s2))"
    by (auto simp: frame_def)
  from fix_branches_effect [OF f ok] have l3: "length (outputv s3) = length (outputv s2)"
    by simp
  have ep: "drop (length (outputv s2)) out = epilogue_bytes type nfl"
    by (simp add: o l3 [symmetric])
  have "(continuation_idx b \<noteq> FUNC_EXIT_CONT \<longrightarrow> continuation_idx b < length (labels s2))
          \<and> branch_offset b + 5 \<le> length (outputv s2)
          \<and> out ! branch_offset b = 0xe9
          \<and> (let target = (if continuation_idx b = FUNC_EXIT_CONT
                             then length (outputv s2)
                             else labels s2 ! continuation_idx b);
                  d = int target - int (branch_offset b + 5);
                  site = take 4 (drop (branch_offset b + 1) out)
              in site = [of_int d, of_int (d div 2 ^ 8), of_int (d div 2 ^ 16),
                         of_int (d div 2 ^ 24)]
                 \<and> site = encode_le_uint32_t (of_int d)
                 \<and> le_word site = (of_int d :: 32 word)
                 \<and> (- (2 ^ 31) \<le> d \<and> d < 2 ^ 31
                      \<longrightarrow> sint (le_word site :: 32 word) = d))"
    if "b \<in> set (branches s2)" for b
  proof -
    from fix_branches_sites [OF f ok] that obtain t where
      c: "continuation_offset b s2 = Some t" and
      r: "branch_offset b + 5 \<le> length (outputv s2)" and
      s: "take 5 (drop (branch_offset b) (outputv s3))
            = 0xe9 # encode_le_uint32_t (of_int (int t - int (branch_offset b) - 5))"
      by blast
    from c have t: "t = (if continuation_idx b = FUNC_EXIT_CONT then length (outputv s2)
                         else labels s2 ! continuation_idx b)"
      and lt: "continuation_idx b \<noteq> FUNC_EXIT_CONT \<longrightarrow> continuation_idx b < length (labels s2)"
      by (auto simp: continuation_offset_def split: if_splits)
    define d where "d = int t - int (branch_offset b + 5)"
    define site where "site = take 4 (drop (branch_offset b + 1) out)"
    from r l3 have r3: "branch_offset b + 5 \<le> length (outputv s3)" by simp
    have d': "int t - int (branch_offset b) - 5 = d" by (simp add: d_def)
    have s': "take 5 (drop (branch_offset b) out) = 0xe9 # encode_le_uint32_t (of_int d)"
      using r3 s by (simp add: o d')
    have "out ! branch_offset b = hd (take 5 (drop (branch_offset b) out))"
      using r3 by (simp add: o hd_drop_conv_nth nth_append)
    then have h: "out ! branch_offset b = 0xe9" by (simp add: s')
    have "site = tl (take 5 (drop (branch_offset b) out))"
      by (simp add: site_def tl_take drop_Suc tl_drop)
    then have e: "site = encode_le_uint32_t (of_int d)"
      by (simp add: s')
    have x: "site = [of_int d, of_int (d div 2 ^ 8), of_int (d div 2 ^ 16), of_int (d div 2 ^ 24)]"
      unfolding e by (rule encode32_of_int)
    have w: "le_word site = (of_int d :: 32 word)"
      unfolding e by (rule le_word_encode32)
    have g: "- (2 ^ 31) \<le> d \<and> d < 2 ^ 31 \<longrightarrow> sint (le_word site :: 32 word) = d"
      unfolding w by (simp add: sint_of_int32)
    from lt r h x e w g show ?thesis
      unfolding Let_def t [symmetric] d_def [symmetric] site_def [symmetric] by blast
  qed
  with b n ep show ?thesis by blast
qed

text \<open>
  The sample function has two branch points: the jump of \<open>br_if 0\<close> at offset 27 to the end
  of the block at 72, with the displacement bytes 28 00 00 00, and the jump of \<open>return\<close> at
  offset 67 to the epilogue at 126, with the bytes 36 00 00 00. The branch of the loop
  function at offset 5 jumps back to the start of the loop at 5: its bytes fb ff ff ff are
  the displacement -5.
\<close>

theorem branch_points_are_patched_witness:
  "(\<exists>out mrefs' st.
      wasmjit_compile_function (layout_env 8 0) sample_type sample_code [] = Some (out, mrefs')
      \<and> body_tables (layout_env 8 0) sample_type sample_code [] = Some st
      \<and> labels st = [72] \<and> length (outputv st) = 126
      \<and> branches st = [\<lparr>branch_offset = 27, continuation_idx = 0\<rparr>,
                        \<lparr>branch_offset = 67, continuation_idx = FUNC_EXIT_CONT\<rparr>]
      \<and> drop 126 out = epilogue_bytes sample_type 1
      \<and> out ! 27 = 0xe9 \<and> take 4 (drop 28 out) = [0x28, 0x00, 0x00, 0x00]
      \<and> sint (le_word (take 4 (drop 28 out)) :: 32 word) = 72 - (27 + 5)
      \<and> out ! 67 = 0xe9 \<and> take 4 (drop 68 out) = [0x36, 0x00, 0x00, 0x00]
      \<and> sint (le_word (take 4 (drop 68 out)) :: 32 word) = 126 - (67 + 5))
   \<and> (\<exists>st.
      wasmjit_compile_function (layout_env 8 0) empty_type loop_code []
        = Some ([0x55, 0x48, 0x89, 0xe5, 0xcc, 0xe9, 0xfb, 0xff, 0xff, 0xff, 0x5d, 0xc3], [])
      \<and> body_tables (layout_env 8 0) empty_type loop_code [] = Some st
      \<and> labels st = [5]
      \<and> branches st = [\<lparr>branch_offset = 5, continuation_idx = 0\<rparr>]
      \<and> sint (le_word [0xfb, 0xff, 0xff, 0xff] :: 32 word) = 5 - (5 + 5))"
proof -
  from sample_compiles obtain out mrefs' where
    c: "wasmjit_compile_function (layout_env 8 0) sample_type sample_code [] = Some (out, mrefs')"
    by blast
  from sample_body_tables obtain st where
    b: "body_tables (layout_env 8 0) sample_type sample_code [] = Some st" and
    l: "labels st = [72]" "length (outputv st) = 126" and
    br: "branches st = [\<lparr>branch_offset = 27, continuation_idx = 0\<rparr>,
                        \<lparr>branch_offset = 67, continuation_idx = FUNC_EXIT_CONT\<rparr>]"
    by blast
  from branch_points_are_patched [OF c] b sample_frame_locals l br
  have 1: "drop 126 out = epilogue_bytes sample_type 1
      \<and> out ! 27 = 0xe9 \<and> take 4 (drop 28 out) = [0x28, 0x00, 0x00, 0x00]
      \<and> sint (le_word (take 4 (drop 28 out)) :: 32 word) = 72 - (27 + 5)
      \<and> out ! 67 = 0xe9 \<and> take 4 (drop 68 out) = [0x36, 0x00, 0x00, 0x00]
      \<and> sint (le_word (take 4 (drop 68 out)) :: 32 word) = 126 - (67 + 5)"
    by (auto simp: FUNC_EXIT_CONT_def Let_def)
  from loop_body_tables obtain st' where
    b': "body_tables (layout_env 8 0) empty_type loop_code [] = Some st'" and
    l': "labels st' = [5]" "length (outputv st') = 10" and
    br': "branches st' = [\<lparr>branch_offset = 5, continuation_idx = 0\<rparr>]"
    by blast
  from branch_points_are_patched [OF loop_compiles] b' l' br'
  have 2: "sint (le_word [0xfb, 0xff, 0xff, 0xff] :: 32 word) = 5 - (5 + 5)"
    by (auto simp: FUNC_EXIT_CONT_def Let_def)
  from c b l br 1 loop_compiles b' l' br' 2 show ?thesis by blast
qed

subsection \<open>C8: the label of a block and of a loop\<close>

text \<open>
  C8: when the compilation of a \<open>block\<close> or \<open>loop\<close> construct succeeds from the tables
  \<open>st\<close>, the body was compiled from the tables of \<open>st\<close> with the new label entry and the new
  label slot, whose continuation index is the length of the label table of \<open>st\<close>; the
  construct emits nothing but the code of its body; and the entry of the label table at
  that index holds the length of the output after the body for a \<open>block\<close>, and the length
  of the output of \<open>st\<close>, where the code of the body starts, for a \<open>loop\<close>.
\<close>

theorem block_loop_label:
  assumes "wasmjit_compile_instruction env
             (if is_loop then OPCODE_LOOP bt body else OPCODE_BLOCK bt body) st = Some st'"
  shows "\<exists>st2. wasmjit_compile_instructions env body
                 (st\<lparr>labels := labels st @ [0],
                     sstack := sstack st @ [STACK_LABEL (block_arity bt) (length (labels st))]\<rparr>)
                 = Some st2
           \<and> outputv st' = outputv st2
           \<and> length (labels st) < length (labels st')
           \<and> labels st' ! length (labels st)
               = (if is_loop then length (outputv st) else length (outputv st2))"
  using assms
  by (auto simp: Let_def seq.simps INC_LABELS_def push_label_def shift_results_def
        stack_truncate_def set_label_def split: option.splits if_splits)

text \<open>
  The body \<open>i32.const 7; drop\<close> (nine bytes) after one byte of earlier code: the label of
  the block is 10, the label of the loop is 1.
\<close>

theorem block_loop_label_witness:
  "\<exists>st1 st2.
      wasmjit_compile_instruction (layout_env 8 0)
        (OPCODE_BLOCK None [OPCODE_I32_CONST 7, OPCODE_DROP])
        ((empty_tables [])\<lparr>outputv := [0x90]\<rparr>) = Some st1
      \<and> length (outputv st1) = 10 \<and> labels st1 ! 0 = 10
      \<and> wasmjit_compile_instruction (layout_env 8 0)
        (OPCODE_LOOP None [OPCODE_I32_CONST 7, OPCODE_DROP])
        ((empty_tables [])\<lparr>outputv := [0x90]\<rparr>) = Some st2
      \<and> length (outputv st2) = 10 \<and> labels st2 ! 0 = 1"
proof -
  let ?E = "layout_env 8 0"
  let ?B = "[OPCODE_I32_CONST 7, OPCODE_DROP]"
  let ?S = "(empty_tables [])\<lparr>outputv := [0x90]\<rparr>"
  have "\<exists>st1. wasmjit_compile_instruction ?E (OPCODE_BLOCK None ?B) ?S = Some st1
          \<and> length (outputv st1) = 10"
    by (simp add: empty_tables_def prim_defs encode_le_uint32_t_def Let_def)
  then obtain st1 where
    1: "wasmjit_compile_instruction ?E (OPCODE_BLOCK None ?B) ?S = Some st1"
       "length (outputv st1) = 10" by blast
  have "\<exists>st2. wasmjit_compile_instruction ?E (OPCODE_LOOP None ?B) ?S = Some st2
          \<and> length (outputv st2) = 10"
    by (simp add: empty_tables_def prim_defs encode_le_uint32_t_def Let_def)
  then obtain st2 where
    2: "wasmjit_compile_instruction ?E (OPCODE_LOOP None ?B) ?S = Some st2"
       "length (outputv st2) = 10" by blast
  from block_loop_label [of ?E False None ?B ?S st1] 1
  have 3: "labels st1 ! 0 = 10" by (auto simp: empty_tables_def)
  from block_loop_label [of ?E True None ?B ?S st2] 2
  have 4: "labels st2 ! 0 = 1" by (auto simp: empty_tables_def)
  from 1 2 3 4 show ?thesis by blast
qed

subsection \<open>C9: the frame of the function\<close>

text \<open>
  C9: let \<^verbatim>\<open>wasmjit_compile_function\<close> succeed with the code \<open>out\<close> for a function with
  \<open>nfl\<close> frame locals (\<^verbatim>\<open>n_frame_locals\<close>), and let \<open>sub_code\<close> be no bytes for \<open>nfl = 0\<close> and
  otherwise the seven bytes 48 81 ec of \<^verbatim>\<open>sub $imm32, %rsp\<close> with the four bytes of
  \<open>8 * nfl\<close>, lowest first, and \<open>add_code\<close> the same with 48 81 c4 of \<^verbatim>\<open>add $imm32, %rsp\<close>.
  Then \<open>8 * nfl\<close> fits the immediate, and \<open>out\<close> is exactly this: the five bytes of
  \<^verbatim>\<open>push %rbp; mov %rsp, %rbp; int3\<close>, then \<open>sub_code\<close>, then what the spills of the
  arguments and the initialisation of the locals emit after these bytes, then what the body
  emits after that, with its branch points fixed, then \<^verbatim>\<open>pop %rax\<close> where there is a result,
  then \<open>add_code\<close>, then \<^verbatim>\<open>pop %rbp; retq\<close>. For \<open>nfl = 0\<close> the prologue is the five bytes
  and nothing else, so neither adjustment is emitted. Run on a machine, \<open>sub_code\<close> lowers
  and \<open>add_code\<close> raises \<^verbatim>\<open>%rsp\<close> by \<open>8 * nfl\<close> bytes.
\<close>

theorem frame_balance:
  assumes "wasmjit_compile_function env0 type code mrefs = Some (out, mrefs')"
    and "pc s = 0"
  shows "\<exists>md nl nfl sub_code add_code s1 s2 s3 m1 m2.
           frame_layout type code = Some (md, nl, nfl)
           \<and> sub_code = (if nfl = 0 then []
                else [0x48, 0x81, 0xec, of_nat (8 * nfl), of_nat (8 * nfl div 2 ^ 8),
                      of_nat (8 * nfl div 2 ^ 16), of_nat (8 * nfl div 2 ^ 24)])
           \<and> add_code = (if nfl = 0 then []
                else [0x48, 0x81, 0xc4, of_nat (8 * nfl), of_nat (8 * nfl div 2 ^ 8),
                      of_nat (8 * nfl div 2 ^ 16), of_nat (8 * nfl div 2 ^ 24)])
           \<and> 8 * nfl < 2 ^ 31
           \<and> seq [spill_args (zip (input_types type) (map fp_offset md)) 0 0,
                   init_locals (nl - length (input_types type))]
                \<lparr>outputv = [0x55, 0x48, 0x89, 0xe5, 0xcc] @ sub_code, labels = [],
                   branches = [], memrefs = mrefs, sstack = []\<rparr> = Some s1
           \<and> (nfl = 0 \<longrightarrow> outputv s1 = [0x55, 0x48, 0x89, 0xe5, 0xcc])
           \<and> wasmjit_compile_instructions
                (env0\<lparr>ftype := type, locals_md := md, n_locals := nl, n_frame_locals := nfl\<rparr>)
                (instructions code) s1 = Some s2
           \<and> fix_branches (branches s2) s2 = Some s3
           \<and> take (length (outputv s1)) out = outputv s1
           \<and> out = outputv s3 @ (if output_types type \<noteq> [] then [0x58] else [])
                      @ add_code @ [0x5d, 0xc3]
           \<and> x86_run 1 sub_code s = Halted m1
           \<and> regs m1 RSP = regs s RSP - of_nat (8 * nfl)
           \<and> x86_run 1 add_code s = Halted m2
           \<and> regs m2 RSP = regs s RSP + of_nat (8 * nfl)"
proof -
  let ?st0 = "\<lparr>outputv = [], labels = [], branches = [], memrefs = mrefs, sstack = []\<rparr>"
  from assms(1) obtain md nl nfl s1 s2 s3 s4 where
    l: "frame_layout type code = Some (md, nl, nfl)" and
    p: "prologue type (map fp_offset md) nfl (nl - length (input_types type)) ?st0 = Some s1" and
    c: "wasmjit_compile_instructions
       (env0\<lparr>ftype := type, locals_md := md, n_locals := nl, n_frame_locals := nfl\<rparr>)
       (instructions code) s1 = Some s2" and
    f: "fix_branches (branches s2) s2 = Some s3" and
    e: "epilogue type nfl s3 = Some s4" and
    o: "out = outputv s4"
    by (rule compile_function_phases)
  let ?sub = "frame_bytes 0xec nfl" and ?add = "frame_bytes 0xc4 nfl"
  from prologue_frame_fits [OF p] have fit: "nfl \<noteq> 0 \<longrightarrow> nfl * 8 \<le> INT32_MAX" .
  then have lt: "8 * nfl < 2 ^ 31" by (cases "nfl = 0") (simp_all add: INT32_MAX_def)
  from prologue_steps [OF p] have
    ps: "seq [spill_args (zip (input_types type) (map fp_offset md)) 0 0,
              init_locals (nl - length (input_types type))]
           \<lparr>outputv = [0x55, 0x48, 0x89, 0xe5, 0xcc] @ ?sub, labels = [],
              branches = [], memrefs = mrefs, sstack = []\<rparr> = Some s1"
    by simp
  have z: "nfl = 0 \<longrightarrow> outputv s1 = [0x55, 0x48, 0x89, 0xe5, 0xcc]"
  proof
    assume n: "nfl = 0"
    from l n have "frame_layout type code = Some (md, nl, 0)" by simp
    from prologue_no_frame [OF this] ps have
      "s1 = \<lparr>outputv = [0x55, 0x48, 0x89, 0xe5, 0xcc] @ ?sub, labels = [],
              branches = [], memrefs = mrefs, sstack = []\<rparr>" by simp
    then show "outputv s1 = [0x55, 0x48, 0x89, 0xe5, 0xcc]"
      by (simp add: n frame_bytes_def)
  qed
  from prologue_output [OF p] have b1: "branches s1 = []" by simp
  have f12: "frame s1 s2" by (rule compile_frame(2) [OF c])
  then obtain new where o2: "outputv s2 = outputv s1 @ new" by (auto simp: frame_def)
  from f12 b1 have ok: "sites_ok (length (outputv s1)) (branches s2) (length (outputv s2))"
    by (auto simp: frame_def)
  from fix_branches_effect [OF f ok] have
    t3: "take (length (outputv s1)) (outputv s3) = outputv s1"
    and l3: "length (outputv s3) = length (outputv s2)"
    by (simp_all add: o2)
  from epilogue_output [OF e] have
    o4: "out = outputv s3 @ (if output_types type \<noteq> [] then [0x58] else []) @ ?add @ [0x5d, 0xc3]"
    by (simp add: o epilogue_bytes_def)
  have t4: "take (length (outputv s1)) out = outputv s1"
    using t3 l3 o2 by (simp add: o4)
  from frame_bytes_run_sub [OF fit assms(2)] obtain m1 where
    1: "x86_run 1 ?sub s = Halted m1" "regs m1 RSP = regs s RSP - of_nat (8 * nfl)"
    by blast
  from frame_bytes_run_add [OF fit assms(2)] obtain m2 where
    2: "x86_run 1 ?add s = Halted m2" "regs m2 RSP = regs s RSP + of_nat (8 * nfl)"
    by blast
  define sub_code :: "byte list" where "sub_code = (if nfl = 0 then []
                else [0x48, 0x81, 0xec, of_nat (8 * nfl), of_nat (8 * nfl div 2 ^ 8),
                      of_nat (8 * nfl div 2 ^ 16), of_nat (8 * nfl div 2 ^ 24)])"
  define add_code :: "byte list" where "add_code = (if nfl = 0 then []
                else [0x48, 0x81, 0xc4, of_nat (8 * nfl), of_nat (8 * nfl div 2 ^ 8),
                      of_nat (8 * nfl div 2 ^ 16), of_nat (8 * nfl div 2 ^ 24)])"
  have sub: "?sub = sub_code" unfolding sub_code_def by (rule frame_bytes_explicit)
  have add: "?add = add_code" unfolding add_code_def by (rule frame_bytes_explicit)
  note facts = l sub_code_def add_code_def lt ps [unfolded sub] z c f t4
    o4 [unfolded add] 1 [unfolded sub] 2 [unfolded add]
  show ?thesis
    apply (rule exI [of _ md], rule exI [of _ nl], rule exI [of _ nfl])
    apply (rule exI [of _ sub_code], rule exI [of _ add_code])
    apply (rule exI [of _ s1], rule exI [of _ s2], rule exI [of _ s3])
    apply (rule exI [of _ m1], rule exI [of _ m2])
    apply (intro conjI)
    apply (rule facts)+
    done
qed

text \<open>
  The sample function has one frame local, its parameter: its code starts with the five
  bytes, \<^verbatim>\<open>sub $8, %rsp\<close> and the spill of the parameter, and ends with \<^verbatim>\<open>pop %rax\<close>,
  \<^verbatim>\<open>add $8, %rsp\<close>, \<^verbatim>\<open>pop %rbp; retq\<close>. The empty function has no frame local: its code is
  \<^verbatim>\<open>push %rbp; mov %rsp, %rbp; int3; pop %rbp; retq\<close>.
\<close>

theorem frame_balance_witness:
  "(\<exists>out mrefs' (s3 :: cstate) m1 m2.
      wasmjit_compile_function (layout_env 8 0) sample_type sample_code [] = Some (out, mrefs')
      \<and> frame_layout sample_type sample_code
           = Some ([\<lparr>valtype = VALTYPE_I32, fp_offset = - 8\<rparr>], 1, 1)
      \<and> take 16 out = [0x55, 0x48, 0x89, 0xe5, 0xcc, 0x48, 0x81, 0xec, 8, 0, 0, 0,
                        0x48, 0x89, 0x7d, 0xf8]
      \<and> out = outputv s3 @ [0x58] @ [0x48, 0x81, 0xc4, 8, 0, 0, 0] @ [0x5d, 0xc3]
      \<and> x86_run 1 [0x48, 0x81, 0xec, 8, 0, 0, 0] (machine 0x1000 0 (mem_cells [])) = Halted m1
      \<and> regs m1 RSP = 0xff8
      \<and> x86_run 1 [0x48, 0x81, 0xc4, 8, 0, 0, 0] (machine 0x1000 0 (mem_cells [])) = Halted m2
      \<and> regs m2 RSP = 0x1008)
   \<and> (\<exists>(s1 :: cstate) (s3 :: cstate).
      wasmjit_compile_function (layout_env 8 0) empty_type empty_code []
        = Some ([0x55, 0x48, 0x89, 0xe5, 0xcc, 0x5d, 0xc3], [])
      \<and> frame_layout empty_type empty_code = Some ([], 0, 0)
      \<and> outputv s1 = [0x55, 0x48, 0x89, 0xe5, 0xcc]
      \<and> [0x55, 0x48, 0x89, 0xe5, 0xcc, 0x5d, 0xc3] = outputv s3 @ [0x5d, 0xc3])"
proof -
  let ?s = "machine 0x1000 0 (mem_cells [])"
  have p: "pc ?s = 0" by (simp add: machine_def)
  have r: "regs ?s RSP = 0x1000" by (simp add: machine_def RSP_def RDI_def)
  from sample_compiles obtain out mrefs' where
    c: "wasmjit_compile_function (layout_env 8 0) sample_type sample_code [] = Some (out, mrefs')"
    by blast
  from frame_balance [OF c p] obtain md nl nfl sub_code add_code s1 s2 and s3 :: cstate and m1 m2 where
    l: "frame_layout sample_type sample_code = Some (md, nl, nfl)" and
    sub: "sub_code = (if nfl = 0 then []
                else [0x48, 0x81, 0xec, of_nat (8 * nfl), of_nat (8 * nfl div 2 ^ 8),
                      of_nat (8 * nfl div 2 ^ 16), of_nat (8 * nfl div 2 ^ 24)])" and
    add: "add_code = (if nfl = 0 then []
                else [0x48, 0x81, 0xc4, of_nat (8 * nfl), of_nat (8 * nfl div 2 ^ 8),
                      of_nat (8 * nfl div 2 ^ 16), of_nat (8 * nfl div 2 ^ 24)])" and
    ps: "seq [spill_args (zip (input_types sample_type) (map fp_offset md)) 0 0,
              init_locals (nl - length (input_types sample_type))]
           \<lparr>outputv = [0x55, 0x48, 0x89, 0xe5, 0xcc] @ sub_code, labels = [],
              branches = [], memrefs = [], sstack = []\<rparr> = Some s1" and
    t: "take (length (outputv s1)) out = outputv s1" and
    o: "out = outputv s3 @ (if output_types sample_type \<noteq> [] then [0x58] else [])
              @ add_code @ [0x5d, 0xc3]" and
    m1: "x86_run 1 sub_code ?s = Halted m1" "regs m1 RSP = regs ?s RSP - of_nat (8 * nfl)" and
    m2: "x86_run 1 add_code ?s = Halted m2" "regs m2 RSP = regs ?s RSP + of_nat (8 * nfl)"
    by (elim exE conjE) (rule that; assumption)
  from l sample_frame_layout have
    v: "md = [\<lparr>valtype = VALTYPE_I32, fp_offset = - 8\<rparr>]" "nl = 1" "nfl = 1" by simp_all
  have sub': "sub_code = [0x48, 0x81, 0xec, 8, 0, 0, 0]" by (simp add: sub v)
  have add': "add_code = [0x48, 0x81, 0xc4, 8, 0, 0, 0]" by (simp add: add v)
  from ps have o1: "outputv s1 = [0x55, 0x48, 0x89, 0xe5, 0xcc, 0x48, 0x81, 0xec, 8, 0, 0, 0,
                        0x48, 0x89, 0x7d, 0xf8]"
    unfolding v sub' by (auto simp: prim_defs fn_defs)
  have len: "length (outputv s1) = 16" unfolding o1 by simp
  have t16: "take 16 out = [0x55, 0x48, 0x89, 0xe5, 0xcc, 0x48, 0x81, 0xec, 8, 0, 0, 0,
                        0x48, 0x89, 0x7d, 0xf8]"
    using t [unfolded len] unfolding o1 .
  have o': "out = outputv s3 @ [0x58] @ [0x48, 0x81, 0xc4, 8, 0, 0, 0] @ [0x5d, 0xc3]"
    using o by (simp add: add' sample_type_def)
  have r1: "regs m1 RSP = 0xff8" "regs m2 RSP = 0x1008"
    using r by (simp_all add: m1(2) m2(2) v)
  from frame_balance [OF empty_compiles p] obtain md' nl' nfl' a1 and s1' :: cstate and s2' and s3' :: cstate where
    l': "frame_layout empty_type empty_code = Some (md', nl', nfl')" and
    z': "nfl' = 0 \<longrightarrow> outputv s1' = [0x55, 0x48, 0x89, 0xe5, 0xcc]" and
    a': "a1 = (if nfl' = 0 then []
                else [0x48, 0x81, 0xc4, of_nat (8 * nfl'), of_nat (8 * nfl' div 2 ^ 8),
                      of_nat (8 * nfl' div 2 ^ 16), of_nat (8 * nfl' div 2 ^ 24)])" and
    o'': "[0x55, 0x48, 0x89, 0xe5, 0xcc, 0x5d, 0xc3]
            = outputv s3' @ (if output_types empty_type \<noteq> [] then [0x58] else [])
              @ a1 @ [0x5d, 0xc3]"
    by (elim exE conjE) (rule that; assumption)
  from l' empty_frame_layout have n': "nfl' = 0" by simp
  from z' n' have z: "outputv s1' = [0x55, 0x48, 0x89, 0xe5, 0xcc]" by simp
  from o'' a' n' have e: "[0x55, 0x48, 0x89, 0xe5, 0xcc, 0x5d, 0xc3] = outputv s3' @ [0x5d, 0xc3]"
    by (simp add: empty_type_def)
  from c sample_frame_layout t16 o' m1(1) m2(1) r1 empty_compiles empty_frame_layout z e
  show ?thesis unfolding sub' add' by blast
qed

subsection \<open>C10: the index of the references to memories and tables\<close>

text \<open>
  C10: \<^verbatim>\<open>wasmjit_compile_function\<close> keeps the memory references that it is given and
  appends to them; every reference of type \<^verbatim>\<open>MEMREF_MEM\<close> or \<^verbatim>\<open>MEMREF_TABLE\<close> that it appends
  has the index 0, whatever the function.
\<close>

theorem mem_table_references_have_index_zero:
  assumes "wasmjit_compile_function env0 type code mrefs = Some (out, mrefs')"
  shows "\<exists>new. mrefs' = mrefs @ new
           \<and> (\<forall>m \<in> set new. mr_type m = MEMREF_MEM \<or> mr_type m = MEMREF_TABLE \<longrightarrow> idx m = Some 0)"
proof -
  from assms obtain ms where "mrefs' = mrefs @ ms" and "list_all zero_idx ms"
    by (rule function_tables) blast
  then show ?thesis
    by (auto simp: list_all_iff zero_idx_def split: if_splits)
qed

text \<open>
  The load of the sample function appends two references to the memory, for its size and
  for its data, both with the index 0.
\<close>

theorem mem_table_references_have_index_zero_witness:
  "\<exists>out mrefs'. wasmjit_compile_function (layout_env 8 0) sample_type sample_code [] = Some (out, mrefs')
      \<and> length mrefs' = 2
      \<and> list_all (\<lambda>m. mr_type m = MEMREF_MEM \<and> idx m = Some 0) mrefs'"
proof -
  from sample_compiles obtain out mrefs' where
    c: "wasmjit_compile_function (layout_env 8 0) sample_type sample_code [] = Some (out, mrefs')"
    and l: "length mrefs' = 2" and m: "list_all (\<lambda>m. mr_type m = MEMREF_MEM) mrefs'"
    by blast
  from mem_table_references_have_index_zero [OF c] m
  have "list_all (\<lambda>m. mr_type m = MEMREF_MEM \<and> idx m = Some 0) mrefs'"
    by (auto simp: list_all_iff)
  with c l show ?thesis by blast
qed

end
